(* ===== verification/Prelude.thy ===== *)
theory Prelude
  imports Main "HOL-Library.Word" "HOL-Library.Finite_Map"
begin

text \<open>
  Shared vocabulary of the development: the Go types the program uses, the few functions of Go's
  standard library its code calls (\<open>strings\<close>, \<open>path\<close>, \<open>strconv\<close>), errors as values, and the generic
  lemmas and theorem collections the component theories share.

  Go strings and byte slices holding text are \<open>string\<close>s, that is lists of 8-bit characters, so
  \<open>length\<close> counts bytes as Go's \<open>len\<close> does. Image data is a list of \<open>8 word\<close>, because the code
  compares its bytes with numbers. A \<open>time.Time\<close> is an integer, the nanoseconds since Go's zero time,
  so that \<open>IsZero\<close> is equality with 0; a \<open>time.Duration\<close> is an integer number of nanoseconds.
\<close>

section \<open>Theorem collections\<close>

named_theorems status_defs \<open>the constants of the processing status\<close>
named_theorems key_defs \<open>the object keys the code builds\<close>
named_theorems store_spec \<open>the abstract effect of each storage operation\<close>
named_theorems obj_spec \<open>the abstract effect of each object store operation\<close>
named_theorems topo_defs \<open>names and declarations of the AMQP topology\<close>

section \<open>Types\<close>

type_synonym bytes = "8 word list"
type_synonym int64 = "64 word"
type_synonym time = int
type_synonym duration = int

abbreviation Second :: duration where "Second \<equiv> 1000000000"
abbreviation Minute :: duration where "Minute \<equiv> 60 * Second"

definition IsZero :: "time \<Rightarrow> bool" where
  "IsZero t \<longleftrightarrow> t = 0"

section \<open>Errors as values\<close>

text \<open>
  The program's sentinel errors are constructors; an error of a library is its text; an error
  wrapped with \<open>fmt.Errorf("prefix: %w", err)\<close> keeps the wrapped one.
\<close>

datatype go_error =
    ErrNotFound
  | ErrOpen
  | ErrInvalidLevel
  | ErrText string
  | Wrapped string go_error

primrec error_text :: "go_error \<Rightarrow> string" where
  "error_text ErrNotFound = ''not found''"
| "error_text ErrOpen = ''circuit breaker open''"
| "error_text ErrInvalidLevel = ''invalid log level''"
| "error_text (ErrText s) = s"
| "error_text (Wrapped p e) = p @ '': '' @ error_text e"

primrec errors_is :: "go_error \<Rightarrow> go_error \<Rightarrow> bool" where
  "errors_is ErrNotFound t = (t = ErrNotFound)"
| "errors_is ErrOpen t = (t = ErrOpen)"
| "errors_is ErrInvalidLevel t = (t = ErrInvalidLevel)"
| "errors_is (ErrText s) t = (t = ErrText s)"
| "errors_is (Wrapped p e) t = (t = Wrapped p e \<or> errors_is e t)"

lemma errors_is_refl [simp]: "errors_is e e"
  by (cases e) simp_all

section \<open>Strings\<close>

definition has_prefix :: "string \<Rightarrow> string \<Rightarrow> bool" where
  "has_prefix s p \<longleftrightarrow> take (length p) s = p"

definition trim_prefix :: "string \<Rightarrow> string \<Rightarrow> string" where
  "trim_prefix s p = (if has_prefix s p then drop (length p) s else s)"

lemma has_prefix_append [simp]: "has_prefix (p @ s) p"
  by (simp add: has_prefix_def)

lemma has_prefixD: "has_prefix s p \<Longrightarrow> \<exists>t. s = p @ t"
  by (metis append_take_drop_id has_prefix_def)

lemma trim_prefix_append [simp]: "trim_prefix (p @ s) p = s"
  by (simp add: trim_prefix_def)

text \<open>\<open>strings.Trim(s, cutset)\<close> for a cutset of ASCII characters.\<close>

definition trim_cutset :: "char list \<Rightarrow> string \<Rightarrow> string" where
  "trim_cutset cs s =
     rev (dropWhile (\<lambda>c. c \<in> set cs) (rev (dropWhile (\<lambda>c. c \<in> set cs) s)))"

lemma trim_cutset_Nil [simp]: "trim_cutset cs [] = []"
  by (simp add: trim_cutset_def)

lemma trim_cutset_id: "set s \<inter> set cs = {} \<Longrightarrow> trim_cutset cs s = s"
proof -
  assume a: "set s \<inter> set cs = {}"
  have "dropWhile (\<lambda>c. c \<in> set cs) s = s" if "set s \<inter> set cs = {}" for s
    using that by (cases s) auto
  with a show ?thesis by (simp add: trim_cutset_def)
qed

text \<open>
  \<open>strings.TrimSpace\<close> removes the white space runes of Unicode at both ends. On the bytes of a string
  a rune is its UTF-8 encoding, and no encoding below is a proper suffix of the encoding of another
  rune, so removing encodings at the ends is what the rune loop does.
\<close>

definition space_runes :: "string list" where
  "space_runes =
     map (\<lambda>n. [char_of (n :: nat)]) [9, 10, 11, 12, 13, 32]
     @ [[CHR 0xC2, CHR 0x85], [CHR 0xC2, CHR 0xA0], [CHR 0xE1, CHR 0x9A, CHR 0x80]]
     @ map (\<lambda>n. [CHR 0xE2, CHR 0x80, char_of (n :: nat)])
         [0x80, 0x81, 0x82, 0x83, 0x84, 0x85, 0x86, 0x87, 0x88, 0x89, 0x8A, 0xA8, 0xA9, 0xAF]
     @ [[CHR 0xE2, CHR 0x81, CHR 0x9F], [CHR 0xE3, CHR 0x80, CHR 0x80]]"

lemma space_runes_nonempty: "w \<in> set space_runes \<Longrightarrow> w \<noteq> []"
  by (auto simp: space_runes_def)

definition has_suffix :: "string \<Rightarrow> string \<Rightarrow> bool" where
  "has_suffix s w \<longleftrightarrow> has_prefix (rev s) (rev w)"

lemma find_space_shorter:
  "find (has_prefix s) space_runes = Some w \<Longrightarrow> (drop (length w) s, s) \<in> measure length"
  by (cases s) (auto simp: find_Some_iff has_prefix_def dest!: space_runes_nonempty [OF nth_mem])

function trim_left_space :: "string \<Rightarrow> string" where
  "trim_left_space s =
     (case find (has_prefix s) space_runes of
        None \<Rightarrow> s
      | Some w \<Rightarrow> trim_left_space (drop (length w) s))"
  by pat_completeness auto
termination
proof (relation "measure length", simp)
  fix s w
  assume "find (has_prefix s) space_runes = Some w"
  then show "(drop (length w) s, s) \<in> measure length"
    by (rule find_space_shorter)
qed

function trim_right_space :: "string \<Rightarrow> string" where
  "trim_right_space s =
     (case find (has_suffix s) space_runes of
        None \<Rightarrow> s
      | Some w \<Rightarrow> trim_right_space (take (length s - length w) s))"
  by pat_completeness auto
termination
proof (relation "measure length", simp)
  fix s w
  assume "find (has_suffix s) space_runes = Some w"
  then have "w \<in> set space_runes" and "has_suffix s w"
    by (auto simp: find_Some_iff)
  then have "w \<noteq> []" and "s \<noteq> []"
    by (auto dest: space_runes_nonempty simp: has_suffix_def has_prefix_def)
  then show "(take (length s - length w) s, s) \<in> measure length"
    by simp
qed

declare trim_left_space.simps [simp del] trim_right_space.simps [simp del]

definition trim_space :: "string \<Rightarrow> string" where
  "trim_space s = trim_right_space (trim_left_space s)"

text \<open>A string with no white space rune at either end is left alone.\<close>

lemma trim_space_id:
  assumes "find (has_prefix s) space_runes = None" and "find (has_suffix s) space_runes = None"
  shows "trim_space s = s"
  using assms by (simp add: trim_space_def trim_left_space.simps trim_right_space.simps)

lemma trim_space_Nil [simp]: "trim_space [] = []"
  by (rule trim_space_id)
    (auto simp: find_None_iff has_suffix_def has_prefix_def dest: space_runes_nonempty)

lemma trim_left_find: "find (has_prefix (trim_left_space s)) space_runes = None"
proof (induction s rule: trim_left_space.induct)
  case (1 s)
  then show ?case
    by (subst trim_left_space.simps) (auto split: option.split)
qed

lemma trim_right_find: "find (has_suffix (trim_right_space s)) space_runes = None"
proof (induction s rule: trim_right_space.induct)
  case (1 s)
  then show ?case
    by (subst trim_right_space.simps) (auto split: option.split)
qed

lemma trim_right_prefix: "\<exists>t. s = trim_right_space s @ t"
proof (induction s rule: trim_right_space.induct)
  case (1 s)
  show ?case
  proof (cases "find (has_suffix s) space_runes")
    case None
    then show ?thesis by (simp add: trim_right_space.simps [of s])
  next
    case (Some w)
    with 1 obtain t where "take (length s - length w) s = trim_right_space s @ t"
      by (auto simp: trim_right_space.simps [of s])
    then have "s = trim_right_space s @ (t @ drop (length s - length w) s)"
      by (metis append.assoc append_take_drop_id)
    then show ?thesis ..
  qed
qed

lemma has_prefix_appendI: "has_prefix s w \<Longrightarrow> has_prefix (s @ t) w"
  by (metis append.assoc has_prefixD has_prefix_append)

text \<open>Trimming twice is trimming once.\<close>

lemma trim_space_idem [simp]: "trim_space (trim_space s) = trim_space s"
proof (rule trim_space_id)
  have "\<not> has_prefix (trim_space s) w" if "w \<in> set space_runes" for w
  proof
    obtain t where t: "trim_left_space s = trim_space s @ t"
      unfolding trim_space_def using trim_right_prefix by blast
    assume "has_prefix (trim_space s) w"
    then have "has_prefix (trim_left_space s) w"
      by (simp add: t has_prefix_appendI)
    with that trim_left_find [of s] show False
      by (simp add: find_None_iff)
  qed
  then show "find (has_prefix (trim_space s)) space_runes = None"
    by (simp add: find_None_iff)
  show "find (has_suffix (trim_space s)) space_runes = None"
    unfolding trim_space_def by (rule trim_right_find)
qed

text \<open>
  \<open>strings.ToLower\<close>. Every use in the program compares the result with ASCII literals, so only the
  runes whose lower case is ASCII matter: A-Z, the dotted capital I (U+0130) and the Kelvin sign
  (U+212A). The other non-ASCII bytes are kept: the real result is then not ASCII either.
\<close>

definition lower_char :: "char \<Rightarrow> char" where
  "lower_char c =
     (let n = (of_char c :: nat) in if 65 \<le> n \<and> n \<le> 90 then char_of (n + 32) else c)"

fun to_lower :: "string \<Rightarrow> string" where
  "to_lower [] = []"
| "to_lower (c # cs) =
     (if c = CHR 0xC4 \<and> take 1 cs = [CHR 0xB0] then CHR ''i'' # to_lower (drop 1 cs)
      else if c = CHR 0xE2 \<and> take 2 cs = [CHR 0x84, CHR 0xAA] then CHR ''k'' # to_lower (drop 2 cs)
      else lower_char c # to_lower cs)"

text \<open>
  \<open>path.Ext\<close>: the loop runs from the end to the last dot, and stops at a slash. The first argument is
  what is left of the name, reversed, the second what has been passed.
\<close>

fun path_ext_loop :: "string \<Rightarrow> string \<Rightarrow> string" where
  "path_ext_loop [] acc = []"
| "path_ext_loop (c # cs) acc =
     (if c = CHR ''/'' then [] else if c = CHR ''.'' then c # acc else path_ext_loop cs (c # acc))"

definition path_ext :: "string \<Rightarrow> string" where
  "path_ext s = path_ext_loop (rev s) []"

lemma path_ext_loop_suffix:
  "CHR ''/'' \<notin> set e \<Longrightarrow> CHR ''.'' \<notin> set e \<Longrightarrow>
   path_ext_loop (rev e @ CHR ''.'' # r) acc = CHR ''.'' # e @ acc"
  by (induction e arbitrary: acc rule: rev_induct) auto

text \<open>The extension of a name is what follows its last dot, the dot included.\<close>

lemma path_ext_append:
  "CHR ''/'' \<notin> set e \<Longrightarrow> CHR ''.'' \<notin> set e \<Longrightarrow> path_ext (b @ CHR ''.'' # e) = CHR ''.'' # e"
  by (simp add: path_ext_def path_ext_loop_suffix)

text \<open>
  Valid UTF-8: what may follow a leading byte is a list of ranges, one for each continuation byte, and
  \<open>utf8_from\<close> runs over the bytes with the ranges still to be met. The table is that of RFC 3629.
\<close>

definition utf8_lead :: "nat \<Rightarrow> (nat \<times> nat) list option" where
  "utf8_lead b =
     (if b \<le> 0x7F then Some []
      else if 0xC2 \<le> b \<and> b \<le> 0xDF then Some [(0x80, 0xBF)]
      else if b = 0xE0 then Some [(0xA0, 0xBF), (0x80, 0xBF)]
      else if b = 0xED then Some [(0x80, 0x9F), (0x80, 0xBF)]
      else if 0xE1 \<le> b \<and> b \<le> 0xEF then Some [(0x80, 0xBF), (0x80, 0xBF)]
      else if b = 0xF0 then Some [(0x90, 0xBF), (0x80, 0xBF), (0x80, 0xBF)]
      else if 0xF1 \<le> b \<and> b \<le> 0xF3 then Some [(0x80, 0xBF), (0x80, 0xBF), (0x80, 0xBF)]
      else if b = 0xF4 then Some [(0x80, 0x8F), (0x80, 0xBF), (0x80, 0xBF)]
      else None)"

fun utf8_from :: "(nat \<times> nat) list \<Rightarrow> string \<Rightarrow> bool" where
  "utf8_from rs [] \<longleftrightarrow> rs = []"
| "utf8_from [] (c # s) \<longleftrightarrow>
     (case utf8_lead (of_char c) of None \<Rightarrow> False | Some rs \<Rightarrow> utf8_from rs s)"
| "utf8_from ((lo, hi) # rs) (c # s) \<longleftrightarrow> lo \<le> of_char c \<and> of_char c \<le> hi \<and> utf8_from rs s"

abbreviation utf8_valid :: "string \<Rightarrow> bool" where "utf8_valid \<equiv> utf8_from []"

lemma utf8_append: "utf8_from rs s \<Longrightarrow> utf8_valid t \<Longrightarrow> utf8_from rs (s @ t)"
  by (induction rs s rule: utf8_from.induct) (auto split: option.splits)

lemma utf8_ascii: "\<forall>c \<in> set s. of_char c < (128 :: nat) \<Longrightarrow> utf8_valid s"
  by (induction s) (auto simp: utf8_lead_def)

text \<open>\<open>strconv.Itoa\<close> on non-negative numbers.\<close>

fun itoa :: "nat \<Rightarrow> string" where
  "itoa n = (if n < 10 then [char_of (48 + n)] else itoa (n div 10) @ [char_of (48 + n mod 10)])"

declare itoa.simps [simp del]

section \<open>Finite maps\<close>

lemma fmlookup_fmupd: "fmlookup (fmupd k v m) = (fmlookup m)(k \<mapsto> v)"
  by auto

lemma fmlookup_fmdrop: "fmlookup (fmdrop k m) = (fmlookup m)(k := None)"
  by (auto simp: fun_eq_iff)

section \<open>Machine integers\<close>

text \<open>The largest and smallest value of Go's \<open>int64\<close>, and reading a mathematical integer as one.\<close>

abbreviation MaxInt64 :: int where "MaxInt64 \<equiv> 2 ^ 63 - 1"
abbreviation MinInt64 :: int where "MinInt64 \<equiv> - (2 ^ 63)"

definition fits_int64 :: "int \<Rightarrow> bool" where
  "fits_int64 i \<longleftrightarrow> MinInt64 \<le> i \<and> i \<le> MaxInt64"

abbreviation int64_of :: "int \<Rightarrow> int64" where "int64_of i \<equiv> word_of_int i"

lemma sint_int64_of: "fits_int64 i \<Longrightarrow> sint (int64_of i) = i"
  by (simp add: fits_int64_def signed_take_bit_int_eq_self sint_sbintrunc')

text \<open>The product of two Go \<open>int\<close>s of 64 bits, which wraps.\<close>

definition int_mul :: "int \<Rightarrow> int \<Rightarrow> int" where
  "int_mul a b = sint (int64_of (a * b))"

lemma int_mul_fits: "fits_int64 (a * b) \<Longrightarrow> int_mul a b = a * b"
  unfolding int_mul_def by (rule sint_int64_of)

text \<open>The range of a 32-bit integer.\<close>

definition fits_int32 :: "int \<Rightarrow> bool" where
  "fits_int32 i \<longleftrightarrow> - (2 ^ 31) \<le> i \<and> i \<le> 2 ^ 31 - 1"

lemma sint_int32 [simp]: "fits_int32 i \<Longrightarrow> sint (word_of_int i :: 32 word) = i"
  by (simp add: fits_int32_def signed_take_bit_int_eq_self sint_sbintrunc')

text \<open>Adding to a non-negative \<open>int64\<close> gives the sum, or a negative number where it does not fit.\<close>

lemma sint_add_nonneg:
  fixes a :: int64
  assumes "0 \<le> sint a" "0 \<le> k" "k < 2 ^ 63"
  shows "sint (a + word_of_int k) =
    (if sint a + k \<le> MaxInt64 then sint a + k else sint a + k - 2 ^ 64)"
proof -
  have b: "sint a < 2 ^ 63"
    using sint_lt [of a] by simp
  have k: "sint (word_of_int k :: int64) = k"
    using assms by (intro sint_int64_of) (simp add: fits_int64_def)
  have "sint (a + word_of_int k) = (sint a + k + 2 ^ 63) mod 2 ^ 64 - 2 ^ 63"
    by (subst sint_word_ariths(1)) (simp add: k signed_take_bit_eq_take_bit_shift take_bit_eq_mod)
  moreover have "(sint a + k + 2 ^ 63) mod 2 ^ 64 =
      (if sint a + k < 2 ^ 63 then sint a + k + 2 ^ 63 else sint a + k - 2 ^ 63)"
    using assms b by (auto intro!: mod_pos_pos_trivial) (subst mod_pos_geq; simp)
  ultimately show ?thesis by auto
qed

end
