(* ===== verification/Amqp.thy ===== *)
theory Amqp
  imports Prelude "HOL-Library.List_Lexorder" "HOL-Library.Char_ord"
begin

text \<open>
  The AMQP side of \<open>internal/queue\<close>: header tables and their trace carrier (\<open>propagation.go\<close>), messages
  (\<open>message.go\<close>), the channel interface (\<open>channel.go\<close>), retry routing and the publisher (\<open>retry.go\<close>),
  and the topology (\<open>topology_names.go\<close>, \<open>topology.go\<close>). The client library, the propagator of
  OpenTelemetry and \<open>encoding/json\<close> are parameters.
\<close>

section \<open>Tables, publishings and deliveries\<close>

text \<open>The dynamic types of a header value that the code tells apart.\<close>

datatype field =
    FInt32 "32 word"
  | FInt64 int64
  | FInt int64
  | FString string
  | FBytes string
  | FOther string

type_synonym amqp_table = "(string, field) fmap"

text \<open>A table may be nil, which is \<open>None\<close>. Delivery mode 2 is \<open>amqp.Persistent\<close>, 0 is unset.\<close>

record publishing =
  pub_ContentType :: string
  pub_Body :: string
  pub_MessageId :: string
  pub_DeliveryMode :: nat
  pub_Headers :: "amqp_table option"

definition zero_publishing :: publishing where
  "zero_publishing =
     \<lparr>pub_ContentType = '''', pub_Body = '''', pub_MessageId = '''', pub_DeliveryMode = 0,
      pub_Headers = None\<rparr>"

abbreviation amqp_Persistent :: nat where "amqp_Persistent \<equiv> 2"

record delivery =
  d_Body :: string
  d_MessageId :: string
  d_Headers :: "amqp_table option"

record AvatarProcessMessage =
  msg_MessageID :: string
  msg_UserID :: string
  msg_StagingKey :: string

text \<open>
  \<open>Channel\<close>: publishing, and the prefetch limit. Its \<open>Consume\<close> gives a Go channel of deliveries, which
  theory \<open>Consumer\<close> models as the sequence of events that the loop receives; here it only succeeds or
  fails.
\<close>

record 'c channel =
  Publish :: "string \<Rightarrow> string \<Rightarrow> bool \<Rightarrow> bool \<Rightarrow> publishing \<Rightarrow> 'c \<Rightarrow> go_error option \<times> 'c"
  Qos :: "int \<Rightarrow> int \<Rightarrow> bool \<Rightarrow> 'c \<Rightarrow> go_error option \<times> 'c"
  ConsumeQueue :: "string \<Rightarrow> string \<Rightarrow> bool \<Rightarrow> bool \<Rightarrow> bool \<Rightarrow> bool \<Rightarrow> 'c \<Rightarrow> go_error option \<times> 'c"

section \<open>Trace headers\<close>

definition carrier_Get :: "amqp_table option \<Rightarrow> string \<Rightarrow> string" where
  "carrier_Get headers key =
     (case headers of
        None \<Rightarrow> ''''
      | Some h \<Rightarrow>
          (case fmlookup h key of
             None \<Rightarrow> ''''
           | Some (FString v) \<Rightarrow> v
           | Some (FBytes v) \<Rightarrow> v
           | Some _ \<Rightarrow> ''''))"

definition carrier_Set :: "string \<Rightarrow> string \<Rightarrow> amqp_table option \<Rightarrow> amqp_table option" where
  "carrier_Set key val headers =
     (let h = (case headers of None \<Rightarrow> fmempty | Some h \<Rightarrow> h)
      in Some (fmupd key (FString val) h))"

text \<open>Go does not fix the order of the keys; the sorted one stands for it.\<close>

definition carrier_Keys :: "amqp_table option \<Rightarrow> string list" where
  "carrier_Keys headers =
     (case headers of
        None \<Rightarrow> []
      | Some h \<Rightarrow> sorted_list_of_fset (fmdom h))"

text \<open>
  The propagator writes the trace context through the carrier's \<open>Set\<close>; the pairs it sets for the
  active context are the parameter \<open>trace\<close>.
\<close>

definition InjectTraceContext :: "(string \<times> string) list \<Rightarrow> amqp_table option \<Rightarrow> amqp_table option" where
  "InjectTraceContext trace headers =
     (let h = (case headers of None \<Rightarrow> Some fmempty | Some h \<Rightarrow> Some h)
      in fold (\<lambda>(k, v). carrier_Set k v) trace h)"

lemma carrier_Get_Set [simp]:
  "carrier_Get (carrier_Set k v h) k' = (if k' = k then v else carrier_Get h k')"
  by (auto simp: carrier_Get_def carrier_Set_def Let_def split: option.split)

lemma carrier_Keys_Set:
  "set (carrier_Keys (carrier_Set k v h)) = insert k (set (carrier_Keys h))"
  by (auto simp: carrier_Keys_def carrier_Set_def Let_def split: option.split)

lemma fold_Set_Some: "\<exists>t. fold (\<lambda>(k, v). carrier_Set k v) kvs (Some h) = Some t"
proof (induction kvs arbitrary: h)
  case (Cons kv kvs)
  then show ?case by (cases kv) (simp add: carrier_Set_def Let_def)
qed simp

lemma fold_Set_other:
  "k \<notin> fst ` set kvs \<Longrightarrow> fold (\<lambda>(k, v). carrier_Set k v) kvs (Some h) = Some t \<Longrightarrow>
   fmlookup t k = fmlookup h k"
proof (induction kvs arbitrary: h)
  case (Cons kv kvs)
  then show ?case by (cases kv) (auto simp: carrier_Set_def Let_def)
qed simp

lemma fold_Set_Get:
  "distinct (map fst kvs) \<Longrightarrow> (k, v) \<in> set kvs \<Longrightarrow>
   carrier_Get (fold (\<lambda>(k, v). carrier_Set k v) kvs h) k = v"
proof (induction kvs arbitrary: h rule: rev_induct)
  case (snoc kv kvs)
  then show ?case by (cases kv) (auto simp: rev_image_eqI)
qed simp

text \<open>
  C32: Trace headers. The carrier reads back what it wrote: after injecting a context whose keys
  are distinct, \<open>Get\<close> returns every injected value, \<open>Keys\<close> lists every injected key, and every header
  that the context does not name is kept, a nil table being treated as an empty one.
\<close>

theorem trace_headers_roundtrip:
  assumes "distinct (map fst trace)" and "(k, v) \<in> set trace"
  shows "carrier_Get (InjectTraceContext trace h) k = v \<and>
    k \<in> set (carrier_Keys (InjectTraceContext trace h)) \<and>
    (\<forall>k'. k' \<notin> fst ` set trace \<longrightarrow>
      carrier_Get (InjectTraceContext trace h) k' = carrier_Get h k')"
proof (intro conjI allI impI)
  obtain t h0 where h0: "h0 = (case h of None \<Rightarrow> fmempty | Some h \<Rightarrow> h)"
    and t: "InjectTraceContext trace h = Some t"
    and f: "fold (\<lambda>(k, v). carrier_Set k v) trace (Some h0) = Some t"
    using fold_Set_Some [of trace "case h of None \<Rightarrow> fmempty | Some h \<Rightarrow> h"]
    by (auto simp: InjectTraceContext_def Let_def split: option.splits)
  show g: "carrier_Get (InjectTraceContext trace h) k = v"
    using fold_Set_Get [OF assms, of "Some h0"] by (simp add: t f)
  have "k \<in> set (carrier_Keys (fold (\<lambda>(k, v). carrier_Set k v) trace x))" for x
    using assms(2)
  proof (induction trace arbitrary: x rule: rev_induct)
    case (snoc kv kvs)
    then show ?case by (cases kv) (auto simp: carrier_Keys_Set)
  qed simp
  then show "k \<in> set (carrier_Keys (InjectTraceContext trace h))" by (metis f t)
  fix k'
  assume "k' \<notin> fst ` set trace"
  from fold_Set_other [OF this f] show "carrier_Get (InjectTraceContext trace h) k' = carrier_Get h k'"
    by (simp add: t h0 carrier_Get_def split: option.split)
qed

theorem trace_headers_roundtrip_witness:
  "carrier_Get (InjectTraceContext [(''traceparent'', ''00-1'')] None) ''traceparent'' = ''00-1''"
  using trace_headers_roundtrip [of "[(''traceparent'', ''00-1'')]" "''traceparent''" "''00-1''" None]
  by simp

section \<open>Topology\<close>

definition ExchangeDirect :: string where [topo_defs]: "ExchangeDirect = ''avatars.direct''"
definition ExchangeDLX :: string where [topo_defs]: "ExchangeDLX = ''avatars.dlx''"
definition QueueProcessing :: string where [topo_defs]: "QueueProcessing = ''avatars.processing''"
definition QueueRetry30s :: string where [topo_defs]: "QueueRetry30s = ''avatars.retry.30s''"
definition QueueRetry2m :: string where [topo_defs]: "QueueRetry2m = ''avatars.retry.2m''"
definition QueueDLQ :: string where [topo_defs]: "QueueDLQ = ''avatars.dlq''"
definition RoutingUpload :: string where [topo_defs]: "RoutingUpload = ''avatar.upload''"
definition RoutingRetry :: string where [topo_defs]: "RoutingRetry = ''retry''"
definition RoutingDLQ :: string where [topo_defs]: "RoutingDLQ = ''dlq''"

text \<open>The calls of \<open>Declare\<close>: name, kind or arguments, and the flags in the order of the Go call.\<close>

datatype declare_call =
    ExchangeDeclare string string bool bool bool bool
  | QueueDeclare string bool bool bool bool "(string \<times> field) list"
  | QueueBind string string string bool

definition processingArgs :: "(string \<times> field) list" where [topo_defs]:
  "processingArgs =
     [(''x-dead-letter-exchange'', FString ExchangeDLX),
      (''x-dead-letter-routing-key'', FString RoutingDLQ)]"

definition retry30Args :: "(string \<times> field) list" where [topo_defs]:
  "retry30Args =
     [(''x-message-ttl'', FInt32 30000),
      (''x-dead-letter-exchange'', FString ExchangeDLX),
      (''x-dead-letter-routing-key'', FString RoutingRetry)]"

definition retry2mArgs :: "(string \<times> field) list" where [topo_defs]:
  "retry2mArgs =
     [(''x-message-ttl'', FInt32 120000),
      (''x-dead-letter-exchange'', FString ExchangeDLX),
      (''x-dead-letter-routing-key'', FString RoutingRetry)]"

definition Declare_calls :: "declare_call list" where [topo_defs]:
  "Declare_calls =
     [ExchangeDeclare ExchangeDLX ''direct'' True False False False,
      ExchangeDeclare ExchangeDirect ''direct'' True False False False,
      QueueDeclare QueueProcessing True False False False processingArgs,
      QueueBind QueueProcessing RoutingRetry ExchangeDLX False,
      QueueBind QueueProcessing RoutingUpload ExchangeDirect False,
      QueueDeclare QueueRetry30s True False False False retry30Args,
      QueueDeclare QueueRetry2m True False False False retry2mArgs,
      QueueDeclare QueueDLQ True False False False [],
      QueueBind QueueDLQ RoutingDLQ ExchangeDLX False]"

text \<open>\<open>Declare\<close> makes the calls in order and returns the first error; \<open>call\<close> is the client library.\<close>

fun declare_all :: "(declare_call \<Rightarrow> 'b \<Rightarrow> go_error option \<times> 'b) \<Rightarrow> declare_call list \<Rightarrow> 'b
    \<Rightarrow> go_error option \<times> 'b" where
  "declare_all call [] s = (None, s)"
| "declare_all call (d # ds) s =
     (case call d s of
        (Some err, s') \<Rightarrow> (Some err, s')
      | (None, s') \<Rightarrow> declare_all call ds s')"

definition Declare :: "(declare_call \<Rightarrow> 'b \<Rightarrow> go_error option \<times> 'b) \<Rightarrow> 'b \<Rightarrow> go_error option \<times> 'b" where
  "Declare call = declare_all call Declare_calls"

section \<open>Retry\<close>

definition resolveRetryTarget :: "int64 \<Rightarrow> string \<times> string \<times> string" where
  "resolveRetryTarget retryCount =
     (if retryCount = 1 then (QueueRetry30s, '''', '''')
      else if retryCount = 2 then (QueueRetry2m, '''', '''')
      else ('''', ExchangeDLX, RoutingDLQ))"

definition SendToRetry :: "'c channel \<Rightarrow> string \<Rightarrow> int64 \<Rightarrow> 'c \<Rightarrow> go_error option \<times> 'c" where
  "SendToRetry ch body retryCount c =
     (case resolveRetryTarget retryCount of (queueName, exchange, routingKey) \<Rightarrow>
        if queueName \<noteq> '''' then
          Publish ch '''' queueName False False
            (zero_publishing\<lparr>pub_Body := body,
               pub_Headers := Some (fmupd ''x-retry-count'' (FInt retryCount) fmempty)\<rparr>) c
        else Publish ch exchange routingKey False False (zero_publishing\<lparr>pub_Body := body\<rparr>) c)"

definition RetryCount :: "amqp_table option \<Rightarrow> int64" where
  "RetryCount headers =
     (case headers of
        None \<Rightarrow> 0
      | Some h \<Rightarrow>
          (case fmlookup h ''x-retry-count'' of
             None \<Rightarrow> 0
           | Some (FInt32 v) \<Rightarrow> scast v
           | Some (FInt64 v) \<Rightarrow> v
           | Some (FInt v) \<Rightarrow> v
           | Some _ \<Rightarrow> 0))"

section \<open>Publisher\<close>

text \<open>\<open>encoding/json\<close> on the message type.\<close>

record json_lib =
  json_Marshal :: "AvatarProcessMessage \<Rightarrow> go_error + string"
  json_Unmarshal :: "string \<Rightarrow> go_error + AvatarProcessMessage"

definition PublishAvatarProcess ::
  "json_lib \<Rightarrow> (string \<times> string) list \<Rightarrow> 'c channel \<Rightarrow> AvatarProcessMessage \<Rightarrow> 'c
    \<Rightarrow> go_error option \<times> 'c"
where
  "PublishAvatarProcess json trace ch msg c =
     (case json_Marshal json msg of
        Inl err \<Rightarrow> (Some (Wrapped ''marshal message'' err), c)
      | Inr body \<Rightarrow>
          (let headers = InjectTraceContext trace (Some fmempty)
           in Publish ch ExchangeDirect RoutingUpload False False
                \<lparr>pub_ContentType = ''application/json'', pub_Body = body,
                 pub_MessageId = msg_MessageID msg, pub_DeliveryMode = amqp_Persistent,
                 pub_Headers = headers\<rparr> c))"

text \<open>What \<open>SendToRetry\<close> publishes, and where.\<close>

definition retry_publishing :: "string \<Rightarrow> int64 \<Rightarrow> string \<times> string \<times> publishing" where
  "retry_publishing body n =
     (if n = 1 \<or> n = 2
      then ('''', if n = 1 then QueueRetry30s else QueueRetry2m,
            zero_publishing\<lparr>pub_Body := body,
              pub_Headers := Some (fmupd ''x-retry-count'' (FInt n) fmempty)\<rparr>)
      else (ExchangeDLX, RoutingDLQ, zero_publishing\<lparr>pub_Body := body\<rparr>))"

lemma SendToRetry_eq:
  "SendToRetry ch body n c =
     (case retry_publishing body n of (ex, key, p) \<Rightarrow> Publish ch ex key False False p c)"
  by (auto simp: SendToRetry_def resolveRetryTarget_def retry_publishing_def topo_defs)

lemma RetryCount_None [simp]: "RetryCount None = 0"
  by (simp add: RetryCount_def)

lemma RetryCount_no_header: "fmlookup h ''x-retry-count'' = None \<Longrightarrow> RetryCount (Some h) = 0"
  by (simp add: RetryCount_def)

text \<open>
  A message fresh from the publisher has no retries behind it: whatever trace context is
  injected, as long as it does not use the header \<open>x-retry-count\<close>, the publishing carries the marshalled
  message, its id, is persistent, goes to the direct exchange with the upload key, and its headers read
  as retry count 0.
\<close>

lemma fresh_publishing:
  assumes "json_Marshal json msg = Inr body" and "''x-retry-count'' \<notin> fst ` set trace"
  shows "\<exists>h. PublishAvatarProcess json trace ch msg c =
      Publish ch ExchangeDirect RoutingUpload False False
        \<lparr>pub_ContentType = ''application/json'', pub_Body = body, pub_MessageId = msg_MessageID msg,
         pub_DeliveryMode = 2, pub_Headers = Some h\<rparr> c \<and> RetryCount (Some h) = 0"
proof -
  obtain h where h: "fold (\<lambda>(k, v). carrier_Set k v) trace (Some fmempty) = Some h"
    using fold_Set_Some by blast
  then have "fmlookup h ''x-retry-count'' = None"
    using fold_Set_other [OF assms(2) h] by simp
  with h assms(1) show ?thesis
    by (intro exI [of _ h])
      (simp add: PublishAvatarProcess_def InjectTraceContext_def Let_def RetryCount_no_header)
qed

end
