(* ===== verification/Models.thy ===== *)
theory Models
  imports Prelude
begin

text \<open>
  The data of \<open>internal/models/avatar.go\<close>: the processing status, a string type with four constants,
  and the metadata row of a user's avatar.
\<close>

type_synonym ProcessingStatus = string

definition StatusPending :: ProcessingStatus where [status_defs]: "StatusPending = ''pending''"
definition StatusProcessing :: ProcessingStatus where [status_defs]: "StatusProcessing = ''processing''"
definition StatusReady :: ProcessingStatus where [status_defs]: "StatusReady = ''ready''"
definition StatusFailed :: ProcessingStatus where [status_defs]: "StatusFailed = ''failed''"

lemma status_distinct [simp]:
  "StatusPending \<noteq> StatusProcessing" "StatusPending \<noteq> StatusReady" "StatusPending \<noteq> StatusFailed"
  "StatusProcessing \<noteq> StatusPending" "StatusProcessing \<noteq> StatusReady" "StatusProcessing \<noteq> StatusFailed"
  "StatusReady \<noteq> StatusPending" "StatusReady \<noteq> StatusProcessing" "StatusReady \<noteq> StatusFailed"
  "StatusFailed \<noteq> StatusPending" "StatusFailed \<noteq> StatusProcessing" "StatusFailed \<noteq> StatusReady"
  by (simp_all add: status_defs)

definition ValidStatus :: "ProcessingStatus \<Rightarrow> bool" where
  "ValidStatus s =
     (if s = StatusPending \<or> s = StatusProcessing \<or> s = StatusReady \<or> s = StatusFailed then True
      else False)"

lemma ValidStatus_consts [simp]:
  "ValidStatus StatusPending" "ValidStatus StatusProcessing"
  "ValidStatus StatusReady" "ValidStatus StatusFailed"
  by (simp_all add: ValidStatus_def)

record avatar =
  UserID :: string
  Status :: ProcessingStatus
  StagingKey :: string
  OriginalKey :: string
  ThumbnailKey :: string
  ContentType :: string
  SizeBytes :: int64
  Width :: int
  Height :: int
  ErrorMessage :: string
  MessageID :: string
  CreatedAt :: time
  UpdatedAt :: time

text \<open>A composite literal \<open>&models.Avatar{...}\<close> starts from Go's zero value.\<close>

definition zero_avatar :: avatar where
  "zero_avatar =
     \<lparr>UserID = '''', Status = '''', StagingKey = '''', OriginalKey = '''', ThumbnailKey = '''',
      ContentType = '''', SizeBytes = 0, Width = 0, Height = 0, ErrorMessage = '''',
      MessageID = '''', CreatedAt = 0, UpdatedAt = 0\<rparr>"

text \<open>The row without its two timestamps: what the storage contract speaks about.\<close>

definition strip_times :: "avatar \<Rightarrow> avatar" where
  "strip_times a = a\<lparr>CreatedAt := 0, UpdatedAt := 0\<rparr>"

lemma strip_times_simps [simp]:
  "UserID (strip_times a) = UserID a" "Status (strip_times a) = Status a"
  "StagingKey (strip_times a) = StagingKey a" "OriginalKey (strip_times a) = OriginalKey a"
  "ThumbnailKey (strip_times a) = ThumbnailKey a" "ContentType (strip_times a) = ContentType a"
  "SizeBytes (strip_times a) = SizeBytes a" "Width (strip_times a) = Width a"
  "Height (strip_times a) = Height a" "ErrorMessage (strip_times a) = ErrorMessage a"
  "MessageID (strip_times a) = MessageID a"
  by (simp_all add: strip_times_def)

lemma strip_times_updates [simp]:
  "strip_times (a\<lparr>CreatedAt := c\<rparr>) = strip_times a"
  "strip_times (a\<lparr>UpdatedAt := t\<rparr>) = strip_times a"
  "strip_times (a\<lparr>Status := st\<rparr>) = (strip_times a)\<lparr>Status := st\<rparr>"
  "strip_times (a\<lparr>ErrorMessage := e\<rparr>) = (strip_times a)\<lparr>ErrorMessage := e\<rparr>"
  "strip_times (a\<lparr>StagingKey := k\<rparr>) = (strip_times a)\<lparr>StagingKey := k\<rparr>"
  "strip_times (a\<lparr>OriginalKey := k\<rparr>) = (strip_times a)\<lparr>OriginalKey := k\<rparr>"
  "strip_times (a\<lparr>ThumbnailKey := k\<rparr>) = (strip_times a)\<lparr>ThumbnailKey := k\<rparr>"
  "strip_times (a\<lparr>ContentType := k\<rparr>) = (strip_times a)\<lparr>ContentType := k\<rparr>"
  "strip_times (a\<lparr>SizeBytes := n\<rparr>) = (strip_times a)\<lparr>SizeBytes := n\<rparr>"
  "strip_times (a\<lparr>Width := w\<rparr>) = (strip_times a)\<lparr>Width := w\<rparr>"
  "strip_times (a\<lparr>Height := h\<rparr>) = (strip_times a)\<lparr>Height := h\<rparr>"
  by (simp_all add: strip_times_def)

end
