(* ===== verification/Storage.thy ===== *)
theory Storage
  imports Models
begin

text \<open>
  The interface \<open>storage.Storage\<close> of \<open>internal/storage/storage.go\<close> as a record of operations on a state
  \<open>'s\<close> of the implementation, and its contract: what a view of the state (the rows without their
  timestamps and the set of processed message ids) is after each operation. An operation that reports
  an error has either its effect or none: a statement whose acknowledgement is lost is executed.
\<close>

section \<open>The interface\<close>

text \<open>
  Operations that read the clock take the time they read; Go's \<open>(value, error)\<close> pairs are sums. The
  argument of \<open>MarkAvatarReady\<close> after the user is original key, thumbnail key, content type, size,
  width and height.
\<close>

record 's storage =
  UpsertAvatar :: "time \<Rightarrow> avatar \<Rightarrow> 's \<Rightarrow> go_error option \<times> 's"
  GetAvatar :: "string \<Rightarrow> 's \<Rightarrow> (go_error + avatar option) \<times> 's"
  DeleteAvatar :: "string \<Rightarrow> 's \<Rightarrow> go_error option \<times> 's"
  UpdateAvatarStatus :: "time \<Rightarrow> string \<Rightarrow> ProcessingStatus \<Rightarrow> string \<Rightarrow> 's \<Rightarrow> go_error option \<times> 's"
  MarkAvatarReady :: "time \<Rightarrow> string \<Rightarrow> string \<Rightarrow> string \<Rightarrow> string \<Rightarrow> int64 \<Rightarrow> int \<Rightarrow> int \<Rightarrow> 's
    \<Rightarrow> go_error option \<times> 's"
  IsMessageProcessed :: "string \<Rightarrow> 's \<Rightarrow> (go_error + bool) \<times> 's"
  MarkMessageProcessed :: "time \<Rightarrow> string \<Rightarrow> 's \<Rightarrow> go_error option \<times> 's"
  TotalStorageBytes :: "'s \<Rightarrow> (go_error + int64) \<times> 's"
  Ping :: "'s \<Rightarrow> go_error option \<times> 's"

section \<open>The abstract state\<close>

record db_view =
  rows :: "string \<Rightarrow> avatar option"
  seen :: "string set"

definition spec_upsert :: "avatar \<Rightarrow> db_view \<Rightarrow> db_view" where [store_spec]:
  "spec_upsert a v = v\<lparr>rows := (rows v)(UserID a \<mapsto> strip_times a)\<rparr>"

definition spec_delete :: "string \<Rightarrow> db_view \<Rightarrow> db_view" where [store_spec]:
  "spec_delete u v = v\<lparr>rows := (rows v)(u := None)\<rparr>"

definition set_status :: "ProcessingStatus \<Rightarrow> string \<Rightarrow> avatar \<Rightarrow> avatar" where
  "set_status st e a = a\<lparr>Status := st, ErrorMessage := e\<rparr>"

definition set_ready ::
  "string \<Rightarrow> string \<Rightarrow> string \<Rightarrow> int64 \<Rightarrow> int \<Rightarrow> int \<Rightarrow> avatar \<Rightarrow> avatar" where
  "set_ready ok tk ct sz w h a =
     a\<lparr>Status := StatusReady, OriginalKey := ok, ThumbnailKey := tk, ContentType := ct,
       SizeBytes := sz, Width := w, Height := h, StagingKey := '''', ErrorMessage := ''''\<rparr>"

definition spec_modify :: "(avatar \<Rightarrow> avatar) \<Rightarrow> string \<Rightarrow> db_view \<Rightarrow> db_view" where [store_spec]:
  "spec_modify f u v = v\<lparr>rows := (rows v)(u := map_option f (rows v u))\<rparr>"

abbreviation spec_status :: "ProcessingStatus \<Rightarrow> string \<Rightarrow> string \<Rightarrow> db_view \<Rightarrow> db_view" where
  "spec_status st e \<equiv> spec_modify (set_status st e)"

abbreviation spec_ready ::
  "string \<Rightarrow> string \<Rightarrow> string \<Rightarrow> int64 \<Rightarrow> int \<Rightarrow> int \<Rightarrow> string \<Rightarrow> db_view \<Rightarrow> db_view" where
  "spec_ready ok tk ct sz w h \<equiv> spec_modify (set_ready ok tk ct sz w h)"

definition spec_mark :: "string \<Rightarrow> db_view \<Rightarrow> db_view" where [store_spec]:
  "spec_mark m v = v\<lparr>seen := insert m (seen v)\<rparr>"

definition ready_bytes :: "(string \<Rightarrow> avatar option) \<Rightarrow> int64" where
  "ready_bytes r =
     (\<Sum>u \<in> {u. \<exists>a. r u = Some a \<and> Status a = StatusReady}. SizeBytes (the (r u)))"

text \<open>The same as a mathematical integer.\<close>

definition ready_total :: "(string \<Rightarrow> avatar option) \<Rightarrow> int" where
  "ready_total r =
     (\<Sum>u \<in> {u. \<exists>a. r u = Some a \<and> Status a = StatusReady}. sint (SizeBytes (the (r u))))"

lemma ready_bytes_total: "ready_bytes r = int64_of (ready_total r)"
  by (simp add: ready_bytes_def ready_total_def of_int_sum)

text \<open>An operation that reports \<open>err\<close>: on success its effect, on an error its effect or none.\<close>

definition settles :: "go_error option \<Rightarrow> 'v \<Rightarrow> 'v \<Rightarrow> 'v \<Rightarrow> bool" where
  "settles err before after now \<longleftrightarrow> now = after \<or> err \<noteq> None \<and> now = before"

lemma settles_None [simp]: "settles None before after now \<longleftrightarrow> now = after"
  by (simp add: settles_def)

lemma settles_cases:
  "settles err before after now \<Longrightarrow> (now = after \<Longrightarrow> P) \<Longrightarrow> (err \<noteq> None \<Longrightarrow> now = before \<Longrightarrow> P) \<Longrightarrow> P"
  by (auto simp: settles_def)

lemma set_status_simps [simp]:
  "UserID (set_status st e a) = UserID a" "Status (set_status st e a) = st"
  "ErrorMessage (set_status st e a) = e" "StagingKey (set_status st e a) = StagingKey a"
  "OriginalKey (set_status st e a) = OriginalKey a" "ThumbnailKey (set_status st e a) = ThumbnailKey a"
  "ContentType (set_status st e a) = ContentType a" "SizeBytes (set_status st e a) = SizeBytes a"
  "MessageID (set_status st e a) = MessageID a"
  "strip_times (set_status st e a) = set_status st e (strip_times a)"
  by (simp_all add: set_status_def)

lemma set_ready_simps [simp]:
  "UserID (set_ready ok tk ct sz w h a) = UserID a"
  "Status (set_ready ok tk ct sz w h a) = StatusReady"
  "ErrorMessage (set_ready ok tk ct sz w h a) = ''''"
  "StagingKey (set_ready ok tk ct sz w h a) = ''''"
  "OriginalKey (set_ready ok tk ct sz w h a) = ok"
  "ThumbnailKey (set_ready ok tk ct sz w h a) = tk"
  "ContentType (set_ready ok tk ct sz w h a) = ct"
  "SizeBytes (set_ready ok tk ct sz w h a) = sz"
  "Width (set_ready ok tk ct sz w h a) = w" "Height (set_ready ok tk ct sz w h a) = h"
  "MessageID (set_ready ok tk ct sz w h a) = MessageID a"
  "strip_times (set_ready ok tk ct sz w h a) = set_ready ok tk ct sz w h (strip_times a)"
  by (simp_all add: set_ready_def)

lemma seen_spec [simp]:
  "seen (spec_upsert a v) = seen v" "seen (spec_delete u v) = seen v"
  "seen (spec_modify f u v) = seen v" "seen (spec_mark m v) = insert m (seen v)"
  "rows (spec_mark m v) = rows v"
  by (simp_all add: store_spec)

lemma rows_spec [simp]:
  "rows (spec_upsert a v) = (rows v)(UserID a \<mapsto> strip_times a)"
  "rows (spec_delete u v) = (rows v)(u := None)"
  "rows (spec_modify f u v) = (rows v)(u := map_option f (rows v u))"
  by (simp_all add: store_spec)

section \<open>The contract\<close>

locale storage_contract =
  fixes ops :: "'s storage" and view :: "'s \<Rightarrow> db_view"
  assumes upsert: "UpsertAvatar ops now a s = (err, s') \<Longrightarrow>
      settles err (view s) (spec_upsert a (view s)) (view s')"
    and get: "GetAvatar ops u s = (r, s') \<Longrightarrow> view s' = view s"
    and get_row: "GetAvatar ops u s = (Inr found, s') \<Longrightarrow> map_option strip_times found = rows (view s) u"
    and delete: "DeleteAvatar ops u s = (err, s') \<Longrightarrow>
      settles err (view s) (spec_delete u (view s)) (view s')"
    and delete_missing: "DeleteAvatar ops u s = (err, s') \<Longrightarrow> rows (view s) u = None \<Longrightarrow> err \<noteq> None"
    and delete_not_found: "DeleteAvatar ops u s = (Some ErrNotFound, s') \<Longrightarrow> rows (view s) u = None"
    and status: "UpdateAvatarStatus ops now u st e s = (err, s') \<Longrightarrow>
      settles err (view s) (spec_status st e u (view s)) (view s')"
    and ready: "MarkAvatarReady ops now u ok tk ct sz w h s = (err, s') \<Longrightarrow>
      settles err (view s) (spec_ready ok tk ct sz w h u (view s)) (view s')"
    and is_processed: "IsMessageProcessed ops m s = (b, s') \<Longrightarrow> view s' = view s"
    and is_processed_seen: "IsMessageProcessed ops m s = (Inr yes, s') \<Longrightarrow> yes \<longleftrightarrow> m \<in> seen (view s)"
    and mark: "MarkMessageProcessed ops now m s = (err, s') \<Longrightarrow>
      settles err (view s) (spec_mark m (view s)) (view s')"
    and total: "TotalStorageBytes ops s = (n, s') \<Longrightarrow> view s' = view s"
    and total_bytes: "TotalStorageBytes ops s = (Inr bytes, s') \<Longrightarrow> bytes = ready_bytes (rows (view s))"
    and ping: "Ping ops s = (err, s') \<Longrightarrow> view s' = view s"
begin

text \<open>
  What an update of the status leaves alone, whatever it reports: every other user's row, the user's
  object keys, and the processed message ids.
\<close>

lemma status_frame:
  assumes "UpdateAvatarStatus ops now u st e s = (err, s')"
  shows "seen (view s') = seen (view s)" and "u' \<noteq> u \<Longrightarrow> rows (view s') u' = rows (view s) u'"
    and "(rows (view s') u = None) = (rows (view s) u = None)"
  using status [OF assms] by (auto elim!: settles_cases)

lemma ready_frame:
  assumes "MarkAvatarReady ops now u ok tk ct sz w h s = (err, s')"
  shows "seen (view s') = seen (view s)" and "u' \<noteq> u \<Longrightarrow> rows (view s') u' = rows (view s) u'"
    and "(rows (view s') u = None) = (rows (view s) u = None)"
  using ready [OF assms] by (auto elim!: settles_cases)

lemma upsert_frame:
  assumes "UpsertAvatar ops now a s = (err, s')"
  shows "seen (view s') = seen (view s)" and "u \<noteq> UserID a \<Longrightarrow> rows (view s') u = rows (view s) u"
  using upsert [OF assms] by (auto elim!: settles_cases)

lemma delete_frame:
  assumes "DeleteAvatar ops u s = (err, s')"
  shows "seen (view s') = seen (view s)" and "u' \<noteq> u \<Longrightarrow> rows (view s') u' = rows (view s) u'"
  using delete [OF assms] by (auto elim!: settles_cases)

end

text \<open>
  A storage with a notion of being healthy: while it is, no operation on an existing row fails, if it can
  take the values: the strings \<open>str_ok\<close> and the image sides \<open>dim_ok\<close>. The conclusions about success rest on this
  extension of the contract.
\<close>

definition storable :: "(string \<Rightarrow> bool) \<Rightarrow> (int \<Rightarrow> bool) \<Rightarrow> avatar \<Rightarrow> bool" where
  "storable str_ok dim_ok a \<longleftrightarrow>
     str_ok (UserID a) \<and> str_ok (Status a) \<and> str_ok (StagingKey a) \<and> str_ok (OriginalKey a) \<and>
     str_ok (ThumbnailKey a) \<and> str_ok (ContentType a) \<and> str_ok (ErrorMessage a) \<and> str_ok (MessageID a) \<and>
     dim_ok (Width a) \<and> dim_ok (Height a)"

lemma storable_all [simp]: "storable (\<lambda>_. True) (\<lambda>_. True) a"
  by (simp add: storable_def)

locale healthy_storage = storage_contract +
  fixes healthy :: "'s \<Rightarrow> bool" and str_ok :: "string \<Rightarrow> bool" and dim_ok :: "int \<Rightarrow> bool"
  assumes upsert_ok: "healthy s \<Longrightarrow> UpsertAvatar ops now a s = (err, s') \<Longrightarrow>
      (err = None) = storable str_ok dim_ok a \<and> healthy s'"
    and get_ok: "healthy s \<Longrightarrow> GetAvatar ops u s = (r, s') \<Longrightarrow> isl r = (\<not> str_ok u) \<and> healthy s'"
    and delete_ok: "healthy s \<Longrightarrow> DeleteAvatar ops u s = (err, s') \<Longrightarrow>
      (str_ok u \<longrightarrow> err = (if rows (view s) u = None then Some ErrNotFound else None)) \<and> healthy s'"
    and status_ok: "healthy s \<Longrightarrow> UpdateAvatarStatus ops now u st e s = (err, s') \<Longrightarrow>
      (str_ok u \<and> str_ok st \<and> str_ok e \<and> rows (view s) u \<noteq> None \<longrightarrow> err = None) \<and> healthy s'"
    and ready_ok: "healthy s \<Longrightarrow> MarkAvatarReady ops now u ok tk ct sz w h s = (err, s') \<Longrightarrow>
      (str_ok u \<and> str_ok ok \<and> str_ok tk \<and> str_ok ct \<and> dim_ok w \<and> dim_ok h \<and> rows (view s) u \<noteq> None \<longrightarrow> err = None) \<and>
      healthy s'"
    and is_processed_ok: "healthy s \<Longrightarrow> IsMessageProcessed ops m s = (p, s') \<Longrightarrow>
      isl p = (\<not> str_ok m) \<and> healthy s'"
    and mark_ok: "healthy s \<Longrightarrow> MarkMessageProcessed ops now m s = (err, s') \<Longrightarrow>
      (err = None) = str_ok m \<and> healthy s'"
    and str_ok_append: "str_ok x \<Longrightarrow> str_ok y \<Longrightarrow> str_ok (x @ y)"
    and str_ok_ascii: "\<forall>c \<in> set x. of_char c \<in> {0 <..< 128 :: nat} \<Longrightarrow> str_ok x"
    and dim_ok_small: "0 \<le> n \<Longrightarrow> n \<le> 4096 \<Longrightarrow> dim_ok n"
begin

lemma str_ok_consts [simp]:
  "str_ok StatusPending" "str_ok StatusProcessing" "str_ok StatusReady" "str_ok StatusFailed" "str_ok ''''"
  by (rule str_ok_ascii; simp add: status_defs)+

end

section \<open>Sequences of writes\<close>

text \<open>The writing operations as data, and a storage that runs a list of them.\<close>

datatype store_op =
    CallUpsert time avatar
  | CallDelete string
  | CallStatus time string ProcessingStatus string
  | CallReady time string string string string int64 int int
  | CallMark time string

fun store_call :: "'s storage \<Rightarrow> store_op \<Rightarrow> 's \<Rightarrow> go_error option \<times> 's" where
  "store_call ops (CallUpsert now a) s = UpsertAvatar ops now a s"
| "store_call ops (CallDelete u) s = DeleteAvatar ops u s"
| "store_call ops (CallStatus now u st e) s = UpdateAvatarStatus ops now u st e s"
| "store_call ops (CallReady now u ok tk ct sz w h) s = MarkAvatarReady ops now u ok tk ct sz w h s"
| "store_call ops (CallMark now m) s = MarkMessageProcessed ops now m s"

fun spec_call :: "store_op \<Rightarrow> db_view \<Rightarrow> db_view" where
  "spec_call (CallUpsert now a) v = spec_upsert a v"
| "spec_call (CallDelete u) v = spec_delete u v"
| "spec_call (CallStatus now u st e) v = spec_status st e u v"
| "spec_call (CallReady now u ok tk ct sz w h) v = spec_ready ok tk ct sz w h u v"
| "spec_call (CallMark now m) v = spec_mark m v"

fun run_calls :: "'s storage \<Rightarrow> store_op list \<Rightarrow> 's \<Rightarrow> 's" where
  "run_calls ops [] s = s"
| "run_calls ops (c # cs) s = run_calls ops cs (snd (store_call ops c s))"

text \<open>The writes that a storage can take.\<close>

fun storable_call :: "(string \<Rightarrow> bool) \<Rightarrow> (int \<Rightarrow> bool) \<Rightarrow> store_op \<Rightarrow> bool" where
  "storable_call str_ok dim_ok (CallUpsert now a) \<longleftrightarrow> storable str_ok dim_ok a"
| "storable_call str_ok dim_ok (CallDelete u) \<longleftrightarrow> str_ok u"
| "storable_call str_ok dim_ok (CallStatus now u st e) \<longleftrightarrow> str_ok u \<and> str_ok st \<and> str_ok e"
| "storable_call str_ok dim_ok (CallReady now u ok tk ct sz w h) \<longleftrightarrow>
     str_ok u \<and> str_ok ok \<and> str_ok tk \<and> str_ok ct \<and> dim_ok w \<and> dim_ok h"
| "storable_call str_ok dim_ok (CallMark now m) \<longleftrightarrow> str_ok m"

lemma storable_call_all [simp]: "storable_call (\<lambda>_. True) (\<lambda>_. True) c"
  by (cases c) simp_all

lemma spec_modify_missing [simp]: "rows v u = None \<Longrightarrow> spec_modify f u v = v"
  by (auto simp: spec_modify_def fun_upd_idem intro!: db_view.equality)

lemma spec_delete_missing [simp]: "rows v u = None \<Longrightarrow> spec_delete u v = v"
  by (auto simp: spec_delete_def fun_upd_idem intro!: db_view.equality)

lemma spec_modify_modify [simp]: "spec_modify f u (spec_modify g u v) = spec_modify (f \<circ> g) u v"
  by (simp add: spec_modify_def option.map_comp)

lemma set_ready_set_status [simp]:
  "set_ready ok tk ct sz w h \<circ> set_status st e = set_ready ok tk ct sz w h"
  "set_status st e \<circ> set_status st' e' = set_status st e"
  by (simp_all add: fun_eq_iff set_ready_def set_status_def)

context storage_contract begin

lemma store_call_settles:
  assumes "store_call ops c s = (err, s')"
  shows "settles err (view s) (spec_call c (view s)) (view s')"
  using assms upsert delete status ready mark by (cases c) auto

end

context healthy_storage begin

lemma store_call_exact:
  assumes "healthy s"
  shows "storable_call str_ok dim_ok c \<Longrightarrow> view (snd (store_call ops c s)) = spec_call c (view s)"
    and "healthy (snd (store_call ops c s))"
proof -
  obtain err s' where e: "store_call ops c s = (err, s')" by (cases "store_call ops c s")
  have h: "healthy s' \<and> (storable_call str_ok dim_ok c \<longrightarrow> err = None \<or> spec_call c (view s) = view s)"
  proof (cases c)
    case (CallUpsert now a)
    then show ?thesis using e upsert_ok [OF assms] by auto
  next
    case (CallDelete u)
    then show ?thesis using e delete_ok [OF assms, of u err s'] by auto
  next
    case (CallStatus now u st msg)
    then show ?thesis using e status_ok [OF assms, of now u st msg err s']
      by (cases "rows (view s) u") auto
  next
    case (CallReady now u ok tk ct sz w h)
    then show ?thesis using e ready_ok [OF assms, of now u ok tk ct sz w h err s']
      by (cases "rows (view s) u") auto
  next
    case (CallMark now m)
    then show ?thesis using e mark_ok [OF assms] by auto
  qed
  then show "healthy (snd (store_call ops c s))" by (simp add: e)
  show "view (snd (store_call ops c s)) = spec_call c (view s)" if "storable_call str_ok dim_ok c"
    using that h store_call_settles [OF e] by (auto simp: e elim: settles_cases)
qed

text \<open>
  A run of writes on a healthy storage that refuses what it cannot take: the effect is that of the others.
\<close>

lemma run_calls_exact:
  assumes "healthy s"
    and "\<And>c s. healthy s \<Longrightarrow> \<not> storable_call str_ok dim_ok c \<Longrightarrow> view (snd (store_call ops c s)) = view s"
  shows "view (run_calls ops cs s) = fold spec_call (filter (storable_call str_ok dim_ok) cs) (view s) \<and>
    healthy (run_calls ops cs s)"
  using assms(1) by (induction cs arbitrary: s) (simp_all add: store_call_exact assms(2))

end

end
