(* ===== verification/Mem_Storage.thy ===== *)
theory Mem_Storage
  imports Storage "HOL-Library.List_Lexorder" "HOL-Library.Char_ord"
begin

text \<open>
  \<open>MemStorage\<close> of \<open>internal/storage/mem.go\<close>: two Go maps. The map of avatars holds pointers, but every
  operation copies the row in or out, so a map of values is the same thing. Each operation holds the
  mutex throughout and is one step.
\<close>

record mem =
  m_avatars :: "(string, avatar) fmap"
  m_processed :: "(string, time) fmap"

definition NewMemStorage :: mem where
  "NewMemStorage = \<lparr>m_avatars = fmempty, m_processed = fmempty\<rparr>"

definition mem_Ping :: "mem \<Rightarrow> go_error option \<times> mem" where
  "mem_Ping m = (None, m)"

definition mem_UpsertAvatar :: "time \<Rightarrow> avatar \<Rightarrow> mem \<Rightarrow> go_error option \<times> mem" where
  "mem_UpsertAvatar now avatar m =
     (let cp = avatar;
          cp = (if IsZero (CreatedAt cp) then cp\<lparr>CreatedAt := now\<rparr> else cp);
          cp = cp\<lparr>UpdatedAt := now\<rparr>
      in (None, m\<lparr>m_avatars := fmupd (UserID avatar) cp (m_avatars m)\<rparr>))"

definition mem_GetAvatar :: "string \<Rightarrow> mem \<Rightarrow> (go_error + avatar option) \<times> mem" where
  "mem_GetAvatar userID m =
     (case fmlookup (m_avatars m) userID of
        None \<Rightarrow> (Inr None, m)
      | Some a \<Rightarrow> (Inr (Some a), m))"

definition mem_DeleteAvatar :: "string \<Rightarrow> mem \<Rightarrow> go_error option \<times> mem" where
  "mem_DeleteAvatar userID m =
     (case fmlookup (m_avatars m) userID of
        None \<Rightarrow> (Some ErrNotFound, m)
      | Some _ \<Rightarrow> (None, m\<lparr>m_avatars := fmdrop userID (m_avatars m)\<rparr>))"

definition mem_UpdateAvatarStatus ::
  "time \<Rightarrow> string \<Rightarrow> ProcessingStatus \<Rightarrow> string \<Rightarrow> mem \<Rightarrow> go_error option \<times> mem"
where
  "mem_UpdateAvatarStatus now userID status errMsg m =
     (case fmlookup (m_avatars m) userID of
        None \<Rightarrow> (Some ErrNotFound, m)
      | Some a \<Rightarrow>
          (None, m\<lparr>m_avatars := fmupd userID
             (a\<lparr>Status := status, ErrorMessage := errMsg, UpdatedAt := now\<rparr>) (m_avatars m)\<rparr>))"

definition mem_MarkAvatarReady ::
  "time \<Rightarrow> string \<Rightarrow> string \<Rightarrow> string \<Rightarrow> string \<Rightarrow> int64 \<Rightarrow> int \<Rightarrow> int \<Rightarrow> mem \<Rightarrow> go_error option \<times> mem"
where
  "mem_MarkAvatarReady now userID originalKey thumbKey contentType sizeB width height m =
     (case fmlookup (m_avatars m) userID of
        None \<Rightarrow> (Some ErrNotFound, m)
      | Some a \<Rightarrow>
          (None, m\<lparr>m_avatars := fmupd userID
             (a\<lparr>Status := StatusReady, OriginalKey := originalKey, ThumbnailKey := thumbKey,
                ContentType := contentType, SizeBytes := sizeB, Width := width, Height := height,
                StagingKey := '''', ErrorMessage := '''', UpdatedAt := now\<rparr>) (m_avatars m)\<rparr>))"

text \<open>
  The \<open>range\<close> over the map runs in an order Go does not fix: \<open>total_loop\<close> is the loop over the values in
  one order, with the addition of \<open>int64\<close> that wraps, and \<open>mem_total_in_order\<close> runs it for the keys in
  a given order. Lemma \<open>total_loop_ready_bytes\<close> shows that every order gives the same total, and
  \<open>mem_TotalStorageBytes\<close> takes the sorted one.
\<close>

fun total_loop :: "avatar list \<Rightarrow> int64 \<Rightarrow> int64" where
  "total_loop [] tot = tot"
| "total_loop (avatar # rest) tot =
     total_loop rest (if Status avatar = StatusReady then tot + SizeBytes avatar else tot)"

definition mem_total_in_order :: "string list \<Rightarrow> mem \<Rightarrow> int64" where
  "mem_total_in_order order m = total_loop (map (\<lambda>u. the (fmlookup (m_avatars m) u)) order) 0"

definition mem_TotalStorageBytes :: "mem \<Rightarrow> (go_error + int64) \<times> mem" where
  "mem_TotalStorageBytes m =
     (Inr (mem_total_in_order (sorted_list_of_fset (fmdom (m_avatars m))) m), m)"

definition mem_IsMessageProcessed :: "string \<Rightarrow> mem \<Rightarrow> (go_error + bool) \<times> mem" where
  "mem_IsMessageProcessed messageID m = (Inr (messageID |\<in>| fmdom (m_processed m)), m)"

definition mem_MarkMessageProcessed :: "time \<Rightarrow> string \<Rightarrow> mem \<Rightarrow> go_error option \<times> mem" where
  "mem_MarkMessageProcessed now messageID m =
     (None, m\<lparr>m_processed := fmupd messageID now (m_processed m)\<rparr>)"

definition mem_ops :: "mem storage" where
  "mem_ops =
     \<lparr>UpsertAvatar = mem_UpsertAvatar, GetAvatar = mem_GetAvatar, DeleteAvatar = mem_DeleteAvatar,
      UpdateAvatarStatus = mem_UpdateAvatarStatus, MarkAvatarReady = mem_MarkAvatarReady,
      IsMessageProcessed = mem_IsMessageProcessed, MarkMessageProcessed = mem_MarkMessageProcessed,
      TotalStorageBytes = mem_TotalStorageBytes, Ping = mem_Ping\<rparr>"

lemmas mem_defs =
  mem_ops_def mem_UpsertAvatar_def mem_GetAvatar_def mem_DeleteAvatar_def
  mem_UpdateAvatarStatus_def mem_MarkAvatarReady_def mem_IsMessageProcessed_def
  mem_MarkMessageProcessed_def mem_TotalStorageBytes_def mem_Ping_def

section \<open>The order of the range loop\<close>

lemma total_loop_sum:
  "total_loop as n = n + sum_list (map SizeBytes (filter (\<lambda>a. Status a = StatusReady) as))"
  by (induction as n rule: total_loop.induct) (auto simp: algebra_simps)

definition mem_view :: "mem \<Rightarrow> db_view" where
  "mem_view m =
     \<lparr>rows = (\<lambda>u. map_option strip_times (fmlookup (m_avatars m) u)),
      seen = fset (fmdom (m_processed m))\<rparr>"

lemma total_loop_ready_bytes:
  assumes "distinct us" and "set us = fset (fmdom m)"
  shows "total_loop (map (\<lambda>u. the (fmlookup m u)) us) 0
    = ready_bytes (\<lambda>u. map_option strip_times (fmlookup m u))"
proof -
  let ?R = "\<lambda>u. Status (the (fmlookup m u)) = StatusReady"
  have dom: "fmlookup m u \<noteq> None \<longleftrightarrow> u \<in> set us" for u
    using assms(2) by (simp add: fmdom.rep_eq dom_def)
  have "{u. \<exists>a. map_option strip_times (fmlookup m u) = Some a \<and> Status a = StatusReady}
      = set (filter ?R us)"
  proof (rule set_eqI)
    fix u
    show "u \<in> {u. \<exists>a. map_option strip_times (fmlookup m u) = Some a \<and> Status a = StatusReady}
        \<longleftrightarrow> u \<in> set (filter ?R us)"
      using dom [of u] by (cases "fmlookup m u") auto
  qed
  then have "ready_bytes (\<lambda>u. map_option strip_times (fmlookup m u))
      = (\<Sum>u \<in> set (filter ?R us). SizeBytes (the (map_option strip_times (fmlookup m u))))"
    unfolding ready_bytes_def by (rule arg_cong)
  also have "\<dots> = (\<Sum>u \<in> set (filter ?R us). SizeBytes (the (fmlookup m u)))"
  proof (rule sum.cong)
    fix u
    assume "u \<in> set (filter ?R us)"
    then have "fmlookup m u \<noteq> None" using dom by simp
    then show "SizeBytes (the (map_option strip_times (fmlookup m u))) = SizeBytes (the (fmlookup m u))"
      by (simp add: option.map_sel)
  qed simp
  also have "\<dots> = sum_list (map (\<lambda>u. SizeBytes (the (fmlookup m u))) (filter ?R us))"
    using assms(1) by (simp add: sum_list_distinct_conv_sum_set)
  finally show ?thesis
    by (simp add: total_loop_sum filter_map comp_def)
qed

section \<open>The contract holds\<close>

lemma mem_view_simps [simp]:
  "rows (mem_view m) = (\<lambda>u. map_option strip_times (fmlookup (m_avatars m) u))"
  "seen (mem_view m) = fset (fmdom (m_processed m))"
  by (simp_all add: mem_view_def)

lemma db_view_eqI: "rows v = rows w \<Longrightarrow> seen v = seen w \<Longrightarrow> v = (w :: db_view)"
  by (cases v; cases w) simp

lemma distinct_sorted_keys [simp]: "distinct (sorted_list_of_fset k)"
  by (simp add: sorted_list_of_fset.rep_eq)

interpretation mem: healthy_storage mem_ops mem_view "\<lambda>_. True" "\<lambda>_. True" "\<lambda>_. True"
proof unfold_locales
  fix now a s err s'
  assume "UpsertAvatar mem_ops now a s = (err, s')"
  then show "settles err (mem_view s) (spec_upsert a (mem_view s)) (mem_view s')"
    by (auto simp: mem_defs Let_def fun_eq_iff intro!: db_view_eqI)
next
  fix now u st e s err s'
  assume "UpdateAvatarStatus mem_ops now u st e s = (err, s')"
  then show "settles err (mem_view s) (spec_status st e u (mem_view s)) (mem_view s')"
    by (auto simp: mem_defs fun_eq_iff set_status_def settles_def
        intro!: db_view_eqI split: option.splits)
next
  fix now u ok tk ct sz w h s err s'
  assume "MarkAvatarReady mem_ops now u ok tk ct sz w h s = (err, s')"
  then show "settles err (mem_view s) (spec_ready ok tk ct sz w h u (mem_view s)) (mem_view s')"
    by (auto simp: mem_defs fun_eq_iff set_ready_def settles_def
        intro!: db_view_eqI split: option.splits)
next
  fix s bytes s'
  assume "TotalStorageBytes mem_ops s = (Inr bytes, s')"
  then show "bytes = ready_bytes (rows (mem_view s))"
    by (auto simp: mem_defs mem_total_in_order_def total_loop_ready_bytes)
qed (auto simp: mem_defs fun_eq_iff settles_def intro!: db_view_eqI split: option.splits)

text \<open>
  \<open>TotalStorageBytes\<close> does not depend on the order in which Go ranges over the map: any enumeration of
  the keys gives the sum of the sizes of the ready rows, wrapped to 64 bits.
\<close>

lemma mem_total_any_order:
  assumes "distinct order" and "set order = fset (fmdom (m_avatars m))"
  shows "mem_total_in_order order m = int64_of (ready_total (rows (mem_view m)))"
    and "mem_TotalStorageBytes m = (Inr (mem_total_in_order order m), m)"
  using assms
  by (simp_all add: mem_TotalStorageBytes_def mem_total_in_order_def total_loop_ready_bytes ready_bytes_total)

end
