(* ===== verification/Postgres.thy ===== *)
theory Postgres
  imports Storage
begin

text \<open>
  \<open>PostgresStorage\<close> of \<open>internal/storage/postgres.go\<close> on the tables of \<open>migrations/\<close>. Each SQL statement
  of the source is translated to its effect on the tables (\<open>sql_...\<close>), and each method to the Go code
  around the statement (\<open>pg_...\<close>). The connection is the parameter \<open>pg_faults\<close>: for each statement to
  come whether it is executed, fails, or is executed and then reports an error (a lost
  acknowledgement); a schedule that has run out means no more faults. Whatever the schedule, a statement
  with a parameter that its column cannot hold is refused. Spans and the connection gauge are left out.
\<close>

section \<open>Tables\<close>

text \<open>
  The table \<open>avatars\<close> is a map from its primary key \<open>user_id\<close> to the other columns; only \<open>error_message\<close>
  is nullable. The table \<open>processed_messages\<close> is a map from \<open>message_id\<close> to \<open>processed_at\<close>. The columns
  \<open>width\<close> and \<open>height\<close> are \<open>INT\<close>, 32 bits; \<open>size_bytes\<close> is \<open>BIGINT\<close>. A \<open>TEXT\<close> parameter must be
  valid UTF-8 without a NUL byte. A \<open>TIMESTAMPTZ\<close> keeps microseconds; how the server rounds to them is
  its own matter, the field \<open>pg_round\<close> of the state, which no statement changes.
\<close>

definition text_ok :: "string \<Rightarrow> bool" where
  "text_ok s \<longleftrightarrow> CHR 0x00 \<notin> set s \<and> utf8_valid s"

record pg_row =
  c_status :: string
  c_staging_key :: string
  c_original_key :: string
  c_thumbnail_key :: string
  c_content_type :: string
  c_size_bytes :: int64
  c_width :: "32 word"
  c_height :: "32 word"
  c_error_message :: "string option"
  c_message_id :: string
  c_created_at :: time
  c_updated_at :: time

datatype fault = NoFault | FailBefore string | FailAfter string

record pg =
  t_avatars :: "(string, pg_row) fmap"
  t_processed :: "(string, time) fmap"
  pg_faults :: "fault list"
  pg_round :: "time \<Rightarrow> time"

text \<open>What is documented of the rounding: to a microsecond, and to a nearest one.\<close>

definition microseconds :: "(time \<Rightarrow> time) \<Rightarrow> bool" where
  "microseconds rnd \<longleftrightarrow> (\<forall>t. 1000 dvd rnd t \<and> \<bar>rnd t - t\<bar> \<le> 500)"

definition round_half_up :: "time \<Rightarrow> time" where
  "round_half_up t = (t + 500) div 1000 * 1000"

lemma round_half_up: "microseconds round_half_up"
proof -
  have "\<bar>(t + 500) div 1000 * 1000 - t\<bar> \<le> 500" for t :: int
    using div_mult_mod_eq [of "t + 500" 1000] pos_mod_bound [of 1000 "t + 500"] pos_mod_sign [of 1000 "t + 500"]
    by linarith
  then show ?thesis by (simp add: microseconds_def round_half_up_def)
qed

text \<open>
  One round trip of the driver: \<open>ok\<close> says whether the parameters of the statement fit their columns. The
  text of the server's error is abbreviated.
\<close>

definition db_run :: "bool \<Rightarrow> (pg \<Rightarrow> 'r \<times> pg) \<Rightarrow> pg \<Rightarrow> (go_error + 'r) \<times> pg" where
  "db_run ok stmt s =
     (if ok then (case stmt s of (r, s') \<Rightarrow> (Inr r, s')) else (Inl (ErrText ''pq: invalid parameter''), s))"

definition db_exec :: "bool \<Rightarrow> (pg \<Rightarrow> 'r \<times> pg) \<Rightarrow> pg \<Rightarrow> (go_error + 'r) \<times> pg" where
  "db_exec ok stmt s =
     (case pg_faults s of
        [] \<Rightarrow> db_run ok stmt s
      | f # fs \<Rightarrow>
          (let s = s\<lparr>pg_faults := fs\<rparr>
           in case f of
                NoFault \<Rightarrow> db_run ok stmt s
              | FailBefore e \<Rightarrow> (Inl (ErrText e), s)
              | FailAfter e \<Rightarrow> (Inl (ErrText e), snd (db_run ok stmt s))))"

definition err_of :: "go_error + 'r \<Rightarrow> go_error option" where
  "err_of r = (case r of Inl e \<Rightarrow> Some e | Inr _ \<Rightarrow> None)"

lemma err_of_simps [simp]: "err_of (Inl e) = Some e" "err_of (Inr r) = None"
  by (simp_all add: err_of_def)

section \<open>Statements\<close>

definition sql_upsert :: "string \<Rightarrow> pg_row \<Rightarrow> pg \<Rightarrow> unit \<times> pg" where
  "sql_upsert user_id new s =
     ((), s\<lparr>t_avatars := fmupd user_id
        (case fmlookup (t_avatars s) user_id of
           None \<Rightarrow> new
         | Some old \<Rightarrow> old\<lparr>c_status := c_status new, c_staging_key := c_staging_key new,
             c_original_key := c_original_key new, c_thumbnail_key := c_thumbnail_key new,
             c_content_type := c_content_type new, c_size_bytes := c_size_bytes new,
             c_width := c_width new, c_height := c_height new,
             c_error_message := c_error_message new, c_message_id := c_message_id new,
             c_updated_at := c_updated_at new\<rparr>)
        (t_avatars s)\<rparr>)"

definition coalesce :: "'a option \<Rightarrow> 'a \<Rightarrow> 'a option" where
  "coalesce c d = (case c of None \<Rightarrow> Some d | Some x \<Rightarrow> Some x)"

definition sql_select :: "string \<Rightarrow> pg \<Rightarrow> (string \<times> pg_row) option \<times> pg" where
  "sql_select user_id s =
     (map_option (\<lambda>r. (user_id, r\<lparr>c_error_message := coalesce (c_error_message r) ''''\<rparr>))
        (fmlookup (t_avatars s) user_id), s)"

definition sql_delete :: "string \<Rightarrow> pg \<Rightarrow> nat \<times> pg" where
  "sql_delete user_id s =
     (if user_id |\<in>| fmdom (t_avatars s) then 1 else 0,
      s\<lparr>t_avatars := fmdrop user_id (t_avatars s)\<rparr>)"

definition sql_update :: "string \<Rightarrow> (pg_row \<Rightarrow> pg_row) \<Rightarrow> pg \<Rightarrow> unit \<times> pg" where
  "sql_update user_id f s =
     ((), case fmlookup (t_avatars s) user_id of
            None \<Rightarrow> s
          | Some r \<Rightarrow> s\<lparr>t_avatars := fmupd user_id (f r) (t_avatars s)\<rparr>)"

definition sql_exists :: "string \<Rightarrow> pg \<Rightarrow> bool \<times> pg" where
  "sql_exists message_id s = (message_id |\<in>| fmdom (t_processed s), s)"

definition sql_insert_processed :: "string \<Rightarrow> time \<Rightarrow> pg \<Rightarrow> unit \<times> pg" where
  "sql_insert_processed message_id t s =
     ((), if message_id |\<in>| fmdom (t_processed s) then s
          else s\<lparr>t_processed := fmupd message_id t (t_processed s)\<rparr>)"

definition sql_sum :: "string \<Rightarrow> pg \<Rightarrow> int \<times> pg" where
  "sql_sum status s =
     ((\<Sum>u \<in> fset (ffilter (\<lambda>u. c_status (the (fmlookup (t_avatars s) u)) = status) (fmdom (t_avatars s))).
         sint (c_size_bytes (the (fmlookup (t_avatars s) u)))), s)"

section \<open>Methods\<close>

definition nullString :: "string \<Rightarrow> string option" where
  "nullString s = (if s = '''' then None else Some s)"

text \<open>
  The caller's struct after the method has stamped it, and the row of its columns, with timestamps as
  the server rounds them.
\<close>

definition pg_stamp :: "time \<Rightarrow> avatar \<Rightarrow> avatar" where
  "pg_stamp now avatar =
     (let avatar = (if IsZero (CreatedAt avatar) then avatar\<lparr>CreatedAt := now\<rparr> else avatar)
      in avatar\<lparr>UpdatedAt := now\<rparr>)"

definition row_of :: "(time \<Rightarrow> time) \<Rightarrow> avatar \<Rightarrow> pg_row" where
  "row_of rnd a =
     \<lparr>c_status = Status a, c_staging_key = StagingKey a,
      c_original_key = OriginalKey a, c_thumbnail_key = ThumbnailKey a,
      c_content_type = ContentType a, c_size_bytes = SizeBytes a, c_width = word_of_int (Width a),
      c_height = word_of_int (Height a), c_error_message = nullString (ErrorMessage a),
      c_message_id = MessageID a, c_created_at = rnd (CreatedAt a), c_updated_at = rnd (UpdatedAt a)\<rparr>"

definition pg_UpsertAvatar :: "time \<Rightarrow> avatar \<Rightarrow> pg \<Rightarrow> go_error option \<times> pg" where
  "pg_UpsertAvatar now avatar s =
     (let avatar = pg_stamp now avatar
      in case db_exec (storable text_ok fits_int32 avatar)
             (sql_upsert (UserID avatar) (row_of (pg_round s) avatar)) s of
           (r, s') \<Rightarrow> (err_of r, s'))"

definition scanAvatar :: "go_error + (string \<times> pg_row) option \<Rightarrow> go_error + avatar option" where
  "scanAvatar res =
     (case res of
        Inr None \<Rightarrow> Inr None
      | Inl err \<Rightarrow> Inl err
      | Inr (Some (user_id, r)) \<Rightarrow>
          (let a = \<lparr>UserID = user_id, Status = c_status r, StagingKey = c_staging_key r,
                    OriginalKey = c_original_key r, ThumbnailKey = c_thumbnail_key r,
                    ContentType = c_content_type r, SizeBytes = c_size_bytes r, Width = sint (c_width r),
                    Height = sint (c_height r), ErrorMessage = '''', MessageID = c_message_id r,
                    CreatedAt = c_created_at r, UpdatedAt = c_updated_at r\<rparr>
           in Inr (Some (case c_error_message r of
                           Some e \<Rightarrow> a\<lparr>ErrorMessage := e\<rparr>
                         | None \<Rightarrow> a))))"

definition pg_GetAvatar :: "string \<Rightarrow> pg \<Rightarrow> (go_error + avatar option) \<times> pg" where
  "pg_GetAvatar userID s = (case db_exec (text_ok userID) (sql_select userID) s of (res, s') \<Rightarrow> (scanAvatar res, s'))"

definition pg_DeleteAvatar :: "string \<Rightarrow> pg \<Rightarrow> go_error option \<times> pg" where
  "pg_DeleteAvatar userID s =
     (case db_exec (text_ok userID) (sql_delete userID) s of
        (Inl err, s') \<Rightarrow> (Some err, s')
      | (Inr n, s') \<Rightarrow> (if n = 0 then Some ErrNotFound else None, s'))"

definition pg_UpdateAvatarStatus ::
  "time \<Rightarrow> string \<Rightarrow> ProcessingStatus \<Rightarrow> string \<Rightarrow> pg \<Rightarrow> go_error option \<times> pg"
where
  "pg_UpdateAvatarStatus now userID status errMsg s =
     (case db_exec (text_ok userID \<and> text_ok status \<and> text_ok errMsg)
          (sql_update userID (\<lambda>r. r\<lparr>c_status := status,
            c_error_message := nullString errMsg, c_updated_at := pg_round s now\<rparr>)) s of
        (r, s') \<Rightarrow> (err_of r, s'))"

definition pg_MarkAvatarReady ::
  "time \<Rightarrow> string \<Rightarrow> string \<Rightarrow> string \<Rightarrow> string \<Rightarrow> int64 \<Rightarrow> int \<Rightarrow> int \<Rightarrow> pg \<Rightarrow> go_error option \<times> pg"
where
  "pg_MarkAvatarReady now userID originalKey thumbKey contentType sizeB width height s =
     (case db_exec (text_ok userID \<and> text_ok originalKey \<and> text_ok thumbKey \<and> text_ok contentType \<and>
            fits_int32 width \<and> fits_int32 height)
          (sql_update userID (\<lambda>r. r\<lparr>c_status := StatusReady, c_original_key := originalKey,
            c_thumbnail_key := thumbKey, c_content_type := contentType, c_size_bytes := sizeB,
            c_width := word_of_int width, c_height := word_of_int height, c_staging_key := '''',
            c_error_message := None, c_updated_at := pg_round s now\<rparr>)) s of
        (r, s') \<Rightarrow> (err_of r, s'))"

definition pg_IsMessageProcessed :: "string \<Rightarrow> pg \<Rightarrow> (go_error + bool) \<times> pg" where
  "pg_IsMessageProcessed messageID s = db_exec (text_ok messageID) (sql_exists messageID) s"

text \<open>
  \<open>SUM\<close> of a \<open>BIGINT\<close> column is a \<open>NUMERIC\<close>; \<open>Scan\<close> into an \<open>int64\<close> reports a value out of its range.
\<close>

definition scan_int64 :: "int \<Rightarrow> go_error + int64" where
  "scan_int64 n = (if fits_int64 n then Inr (int64_of n) else Inl (ErrText ''value out of range''))"

definition pg_TotalStorageBytes :: "pg \<Rightarrow> (go_error + int64) \<times> pg" where
  "pg_TotalStorageBytes s =
     (case db_exec True (sql_sum StatusReady) s of
        (Inl e, s') \<Rightarrow> (Inl e, s')
      | (Inr n, s') \<Rightarrow> (scan_int64 n, s'))"

definition pg_MarkMessageProcessed :: "time \<Rightarrow> string \<Rightarrow> pg \<Rightarrow> go_error option \<times> pg" where
  "pg_MarkMessageProcessed now messageID s =
     (case db_exec (text_ok messageID) (sql_insert_processed messageID (pg_round s now)) s of
        (r, s') \<Rightarrow> (err_of r, s'))"

definition pg_Ping :: "pg \<Rightarrow> go_error option \<times> pg" where
  "pg_Ping s = (case db_exec True (\<lambda>s. ((), s)) s of (r, s') \<Rightarrow> (err_of r, s'))"

definition pg_ops :: "pg storage" where
  "pg_ops =
     \<lparr>UpsertAvatar = pg_UpsertAvatar, GetAvatar = pg_GetAvatar, DeleteAvatar = pg_DeleteAvatar,
      UpdateAvatarStatus = pg_UpdateAvatarStatus, MarkAvatarReady = pg_MarkAvatarReady,
      IsMessageProcessed = pg_IsMessageProcessed, MarkMessageProcessed = pg_MarkMessageProcessed,
      TotalStorageBytes = pg_TotalStorageBytes, Ping = pg_Ping\<rparr>"

lemmas pg_method_defs =
  pg_ops_def pg_UpsertAvatar_def pg_GetAvatar_def pg_DeleteAvatar_def pg_UpdateAvatarStatus_def
  pg_MarkAvatarReady_def pg_IsMessageProcessed_def pg_MarkMessageProcessed_def
  pg_TotalStorageBytes_def pg_Ping_def

section \<open>The view of the tables\<close>

text \<open>The avatar a row scans to.\<close>

definition avatar_of :: "string \<Rightarrow> pg_row \<Rightarrow> avatar" where
  "avatar_of u r =
     \<lparr>UserID = u, Status = c_status r, StagingKey = c_staging_key r,
      OriginalKey = c_original_key r, ThumbnailKey = c_thumbnail_key r,
      ContentType = c_content_type r, SizeBytes = c_size_bytes r, Width = sint (c_width r),
      Height = sint (c_height r), ErrorMessage = (case c_error_message r of None \<Rightarrow> '''' | Some e \<Rightarrow> e),
      MessageID = c_message_id r, CreatedAt = c_created_at r, UpdatedAt = c_updated_at r\<rparr>"

definition pg_view :: "pg \<Rightarrow> db_view" where
  "pg_view s =
     \<lparr>rows = (\<lambda>u. map_option (\<lambda>r. strip_times (avatar_of u r)) (fmlookup (t_avatars s) u)),
      seen = fset (fmdom (t_processed s))\<rparr>"

lemma pg_view_simps [simp]:
  "rows (pg_view s) = (\<lambda>u. map_option (\<lambda>r. strip_times (avatar_of u r)) (fmlookup (t_avatars s) u))"
  "seen (pg_view s) = fset (fmdom (t_processed s))"
  "pg_view (s\<lparr>pg_faults := fs\<rparr>) = pg_view s"
  by (simp_all add: pg_view_def)

lemma scanAvatar_select:
  "scanAvatar (Inr (fst (sql_select u s))) = Inr (map_option (avatar_of u) (fmlookup (t_avatars s) u))"
  by (auto simp: scanAvatar_def sql_select_def avatar_of_def coalesce_def Let_def split: option.splits)

text \<open>
  A row written and read back is the avatar that was written, up to its timestamps: \<open>NULL\<close> and \<open>''\<close>
  coincide.
\<close>

lemma avatar_of_row_of:
  "storable text_ok fits_int32 a \<Longrightarrow>
   avatar_of (UserID a) (row_of rnd a) = a\<lparr>CreatedAt := rnd (CreatedAt a), UpdatedAt := rnd (UpdatedAt a)\<rparr>"
  by (cases a) (simp add: avatar_of_def row_of_def nullString_def storable_def)

lemma strip_times_pg_stamp [simp]: "strip_times (pg_stamp now a) = strip_times a"
  by (simp add: pg_stamp_def Let_def)

lemma pg_stamp_user [simp]: "UserID (pg_stamp now a) = UserID a"
  by (simp add: pg_stamp_def Let_def)

lemma storable_pg_stamp [simp]: "storable str_ok dim_ok (pg_stamp now a) = storable str_ok dim_ok a"
  by (simp add: pg_stamp_def storable_def Let_def)

lemma text_ok_append: "text_ok a \<Longrightarrow> text_ok b \<Longrightarrow> text_ok (a @ b)"
  by (simp add: text_ok_def utf8_append)

lemma text_ok_ascii: "\<forall>c \<in> set s. of_char c \<in> {0 <..< 128 :: nat} \<Longrightarrow> text_ok s"
  by (auto simp: text_ok_def intro!: utf8_ascii)

section \<open>Statements and the view\<close>

lemma db_exec_settles:
  assumes "db_exec ok stmt s = (r, s')"
    and "\<And>fs. ok \<Longrightarrow> pg_view (snd (stmt (s\<lparr>pg_faults := fs\<rparr>))) = after"
  shows "settles (err_of r) (pg_view s) after (pg_view s')"
  using assms(1) assms(2) [of "pg_faults s"] assms(2) [of "tl (pg_faults s)"]
  by (cases ok)
    (auto simp: db_exec_def db_run_def settles_def Let_def split: list.splits fault.splits prod.splits)

lemma db_exec_Inr:
  assumes "db_exec ok stmt s = (Inr r, s')"
  shows "ok \<and> (\<exists>fs. stmt (s\<lparr>pg_faults := fs\<rparr>) = (r, s'))"
proof (cases "pg_faults s")
  case Nil
  with assms have "ok" "stmt s = (r, s')" by (auto simp: db_exec_def db_run_def split: prod.splits if_splits)
  moreover have "s\<lparr>pg_faults := []\<rparr> = s" using Nil by (cases s) simp
  ultimately have "stmt (s\<lparr>pg_faults := []\<rparr>) = (r, s')" by (simp only:)
  with \<open>ok\<close> show ?thesis by blast
next
  case (Cons f fs)
  with assms have "ok" "stmt (s\<lparr>pg_faults := fs\<rparr>) = (r, s')"
    by (auto simp: db_exec_def db_run_def Let_def split: prod.splits fault.splits if_splits)
  then show ?thesis by blast
qed

lemma db_exec_Inl: "db_exec ok stmt s = (Inl e, s') \<Longrightarrow> \<exists>m. e = ErrText m"
  by (auto simp: db_exec_def db_run_def Let_def split: list.splits prod.splits fault.splits if_splits)

lemma db_exec_no_fault [simp]:
  "pg_faults s = [] \<Longrightarrow> db_exec ok stmt s =
     (if ok then (Inr (fst (stmt s)), snd (stmt s)) else (Inl (ErrText ''pq: invalid parameter''), s))"
  by (simp add: db_exec_def db_run_def split: prod.split)

lemma db_exec_read:
  assumes "db_exec ok stmt s = (r, s')" and "\<And>t. snd (stmt t) = t"
  shows "pg_view s' = pg_view s"
  using db_exec_settles [OF assms(1), of "pg_view s"] assms(2) by (auto elim: settles_cases)

lemma sql_faults [simp]:
  "pg_faults (snd (sql_upsert u r s)) = pg_faults s" "pg_faults (snd (sql_select u s)) = pg_faults s"
  "pg_faults (snd (sql_delete u s)) = pg_faults s" "pg_faults (snd (sql_update u f s)) = pg_faults s"
  "pg_faults (snd (sql_exists m s)) = pg_faults s" "pg_faults (snd (sql_sum st s)) = pg_faults s"
  "pg_faults (snd (sql_insert_processed m t s)) = pg_faults s"
  by (simp_all add: sql_upsert_def sql_select_def sql_delete_def sql_update_def sql_exists_def
      sql_sum_def sql_insert_processed_def split: option.split)

lemma view_sql_upsert:
  assumes "storable text_ok fits_int32 a"
  shows "pg_view (snd (sql_upsert (UserID a) (row_of rnd (pg_stamp now a)) s)) = spec_upsert a (pg_view s)"
proof -
  have "strip_times (avatar_of (UserID a) (row_of rnd (pg_stamp now a))) = strip_times a"
    using avatar_of_row_of [of "pg_stamp now a" rnd] assms by simp
  then show ?thesis
    by (auto simp: sql_upsert_def fun_eq_iff avatar_of_def strip_times_def row_of_def
        intro!: db_view.equality split: option.splits)
qed

lemma view_sql_delete: "pg_view (snd (sql_delete u s)) = spec_delete u (pg_view s)"
  by (auto simp: sql_delete_def fun_eq_iff intro!: db_view.equality)

lemma view_sql_update:
  assumes "\<And>r. strip_times (avatar_of u (f r)) = g (strip_times (avatar_of u r))"
  shows "pg_view (snd (sql_update u f s)) = spec_modify g u (pg_view s)"
  using assms by (auto simp: sql_update_def fun_eq_iff intro!: db_view.equality split: option.splits)

lemma view_sql_insert_processed:
  "pg_view (snd (sql_insert_processed m t s)) = spec_mark m (pg_view s)"
  by (auto simp: sql_insert_processed_def intro!: db_view.equality)

lemma view_sql_status:
  "pg_view (snd (sql_update u (\<lambda>r. r\<lparr>c_status := st, c_error_message := nullString e,
     c_updated_at := now\<rparr>) s)) = spec_status st e u (pg_view s)"
  by (rule view_sql_update) (simp add: avatar_of_def strip_times_def set_status_def nullString_def)

lemma view_sql_ready:
  "fits_int32 w \<Longrightarrow> fits_int32 h \<Longrightarrow>
   pg_view (snd (sql_update u (\<lambda>r. r\<lparr>c_status := StatusReady, c_original_key := ok,
      c_thumbnail_key := tk, c_content_type := ct, c_size_bytes := sz, c_width := word_of_int w,
      c_height := word_of_int h, c_staging_key := '''', c_error_message := None, c_updated_at := now\<rparr>) s))
    = spec_ready ok tk ct sz w h u (pg_view s)"
  by (rule view_sql_update)
    (simp add: avatar_of_def strip_times_def set_ready_def)

lemma sql_sum_total: "fst (sql_sum StatusReady s) = ready_total (rows (pg_view s))"
proof -
  let ?m = "t_avatars s"
  have "{u. \<exists>a. rows (pg_view s) u = Some a \<and> Status a = StatusReady}
      = fset (ffilter (\<lambda>u. c_status (the (fmlookup ?m u)) = StatusReady) (fmdom ?m))" (is "?A = ?B")
  proof (rule set_eqI)
    fix u
    show "u \<in> ?A \<longleftrightarrow> u \<in> ?B"
      by (cases "fmlookup ?m u") (auto simp: avatar_of_def fmdomI fmdom_notI)
  qed
  moreover have "c_size_bytes (the (fmlookup ?m u)) = SizeBytes (the (rows (pg_view s) u))"
    if "u \<in> ?B" for u
    using that by (auto simp: avatar_of_def fmlookup_dom_iff)
  ultimately show ?thesis
    by (simp add: sql_sum_def ready_total_def del: pg_view_simps)
qed

lemma sql_sum_ready_bytes:
  "int64_of (fst (sql_sum StatusReady s)) = ready_bytes (rows (pg_view s))"
  by (simp only: sql_sum_total ready_bytes_total)

interpretation pg: healthy_storage pg_ops pg_view "\<lambda>s. pg_faults s = []" text_ok fits_int32
proof unfold_locales
  fix now a s err s'
  assume "UpsertAvatar pg_ops now a s = (err, s')"
  then show "settles err (pg_view s) (spec_upsert a (pg_view s)) (pg_view s')"
    by (auto simp: pg_method_defs view_sql_upsert Let_def intro!: db_exec_settles split: prod.splits)
next
  fix u s r s'
  assume "GetAvatar pg_ops u s = (r, s')"
  then show "pg_view s' = pg_view s"
    by (auto simp: pg_method_defs sql_select_def intro!: db_exec_read split: prod.splits)
next
  fix u s found s'
  assume "GetAvatar pg_ops u s = (Inr found, s')"
  then obtain res where res: "db_exec (text_ok u) (sql_select u) s = (res, s')" and sc: "scanAvatar res = Inr found"
    by (auto simp: pg_method_defs split: prod.splits)
  from sc obtain row where row: "res = Inr row"
    by (cases res) (auto simp: scanAvatar_def)
  from db_exec_Inr [OF res [unfolded row]]
  obtain fs where "sql_select u (s\<lparr>pg_faults := fs\<rparr>) = (row, s')" by blast
  then have "found = map_option (avatar_of u) (fmlookup (t_avatars s) u)"
    using sc row scanAvatar_select [of u "s\<lparr>pg_faults := fs\<rparr>"] by simp
  then show "map_option strip_times found = rows (pg_view s) u"
    by (simp add: option.map_comp comp_def)
next
  fix u s err s'
  assume "DeleteAvatar pg_ops u s = (err, s')"
  then obtain r where r: "db_exec (text_ok u) (sql_delete u) s = (r, s')"
    and err: "err = (case r of Inl e \<Rightarrow> Some e | Inr n \<Rightarrow> if n = 0 then Some ErrNotFound else None)"
    by (auto simp: pg_method_defs split: prod.splits sum.splits)
  have "settles (err_of r) (pg_view s) (spec_delete u (pg_view s)) (pg_view s')"
    using r by (rule db_exec_settles) (simp add: view_sql_delete)
  then show "settles err (pg_view s) (spec_delete u (pg_view s)) (pg_view s')"
    using err by (auto simp: settles_def split: sum.splits)
  show "err \<noteq> None" if "rows (pg_view s) u = None"
  proof (cases r)
    case (Inl e)
    then show ?thesis using err by simp
  next
    case (Inr n)
    from db_exec_Inr [OF r [unfolded Inr]]
    obtain fs where "sql_delete u (s\<lparr>pg_faults := fs\<rparr>) = (n, s')" by blast
    with that Inr err show ?thesis by (auto simp: sql_delete_def fmlookup_dom_iff split: if_splits)
  qed
next
  fix u s s'
  assume "DeleteAvatar pg_ops u s = (Some ErrNotFound, s')"
  then obtain r where r: "db_exec (text_ok u) (sql_delete u) s = (r, s')"
    and err: "Some ErrNotFound = (case r of Inl e \<Rightarrow> Some e | Inr n \<Rightarrow> if n = 0 then Some ErrNotFound else None)"
    by (auto simp: pg_method_defs split: prod.splits sum.splits)
  show "rows (pg_view s) u = None"
  proof (cases r)
    case (Inl e)
    from db_exec_Inl [OF r [unfolded Inl]] obtain m where "e = ErrText m" ..
    with Inl err show ?thesis by simp
  next
    case (Inr n)
    from db_exec_Inr [OF r [unfolded Inr]]
    obtain fs where "sql_delete u (s\<lparr>pg_faults := fs\<rparr>) = (n, s')" by blast
    with Inr err show ?thesis by (auto simp: sql_delete_def fmdom_notD split: if_splits)
  qed
next
  fix now u st e s err s'
  assume "UpdateAvatarStatus pg_ops now u st e s = (err, s')"
  then show "settles err (pg_view s) (spec_status st e u (pg_view s)) (pg_view s')"
    by (auto simp: pg_method_defs view_sql_status intro!: db_exec_settles split: prod.splits)
next
  fix now u ok tk ct sz w h s err s'
  assume "MarkAvatarReady pg_ops now u ok tk ct sz w h s = (err, s')"
  then show "settles err (pg_view s) (spec_ready ok tk ct sz w h u (pg_view s)) (pg_view s')"
    by (auto simp: pg_method_defs view_sql_ready intro!: db_exec_settles split: prod.splits)
next
  fix now m s err s'
  assume "MarkMessageProcessed pg_ops now m s = (err, s')"
  then show "settles err (pg_view s) (spec_mark m (pg_view s)) (pg_view s')"
    by (auto simp: pg_method_defs view_sql_insert_processed intro!: db_exec_settles split: prod.splits)
next
  fix s bytes s'
  assume "TotalStorageBytes pg_ops s = (Inr bytes, s')"
  then obtain n where n: "db_exec True (sql_sum StatusReady) s = (Inr n, s')"
    and bytes: "scan_int64 n = Inr bytes"
    by (auto simp: pg_method_defs split: prod.splits sum.splits)
  from db_exec_Inr [OF n] obtain fs where "sql_sum StatusReady (s\<lparr>pg_faults := fs\<rparr>) = (n, s')" by blast
  then have "int64_of n = ready_bytes (rows (pg_view s))"
    using sql_sum_ready_bytes [of "s\<lparr>pg_faults := fs\<rparr>"] by simp
  with bytes show "bytes = ready_bytes (rows (pg_view s))"
    by (simp add: scan_int64_def split: if_splits)
next
  fix m s b s'
  assume "IsMessageProcessed pg_ops m s = (b, s')"
  then show "pg_view s' = pg_view s"
    by (auto simp: pg_method_defs sql_exists_def intro!: db_exec_read)
next
  fix m s yes s'
  assume "IsMessageProcessed pg_ops m s = (Inr yes, s')"
  then show "yes \<longleftrightarrow> m \<in> seen (pg_view s)"
    by (auto simp: pg_method_defs sql_exists_def dest!: db_exec_Inr)
next
  fix s n s'
  assume "TotalStorageBytes pg_ops s = (n, s')"
  then show "pg_view s' = pg_view s"
    by (auto simp: pg_method_defs sql_sum_def intro!: db_exec_read split: prod.splits sum.splits)
next
  fix s err s'
  assume "Ping pg_ops s = (err, s')"
  then show "pg_view s' = pg_view s"
    by (auto simp: pg_method_defs intro!: db_exec_read split: prod.splits)
next
  fix x y :: string
  assume "text_ok x" "text_ok y"
  then show "text_ok (x @ y)" by (rule text_ok_append)
next
  fix x :: string
  assume "\<forall>c \<in> set x. of_char c \<in> {0 <..< 128 :: nat}"
  then show "text_ok x" by (rule text_ok_ascii)
next
  fix n :: int
  assume "0 \<le> n" "n \<le> 4096"
  then show "fits_int32 n" by (simp add: fits_int32_def)
qed (auto simp: pg_method_defs sql_delete_def sql_select_def scanAvatar_def fmlookup_dom_iff Let_def
      split: prod.splits option.splits if_splits)

text \<open>What a read that succeeds returns, with its timestamps.\<close>

lemma pg_get_exact:
  assumes "GetAvatar pg_ops u s = (Inr found, s')"
  shows "found = map_option (avatar_of u) (fmlookup (t_avatars s) u)"
proof -
  obtain res where res: "db_exec (text_ok u) (sql_select u) s = (res, s')" and sc: "scanAvatar res = Inr found"
    using assms by (auto simp: pg_method_defs split: prod.splits)
  from sc obtain row where row: "res = Inr row" by (cases res) (auto simp: scanAvatar_def)
  from db_exec_Inr [OF res [unfolded row]]
  obtain fs where "sql_select u (s\<lparr>pg_faults := fs\<rparr>) = (row, s')" by blast
  with sc row scanAvatar_select [of u "s\<lparr>pg_faults := fs\<rparr>"] show ?thesis by simp
qed

section \<open>Reading back\<close>

text \<open>The demonstration database: empty, up, rounding to the nearest microsecond.\<close>

definition empty_pg :: pg where
  "empty_pg = \<lparr>t_avatars = fmempty, t_processed = fmempty, pg_faults = [], pg_round = round_half_up\<rparr>"

lemma empty_pg_simps [simp]:
  "t_avatars empty_pg = fmempty" "t_processed empty_pg = fmempty" "pg_faults empty_pg = []"
  "pg_round empty_pg = round_half_up"
  by (simp_all add: empty_pg_def)

text \<open>
  C24: Insert and read back on a connection without faults. An avatar with a string that is no UTF-8
  text, or with a side beyond 32 bits, is refused and changes nothing. Any other is stored, whatever the
  row was before, and \<open>GetAvatar\<close> then returns every field of it, with the time of the call as \<open>UpdatedAt\<close>,
  to the microsecond, and with the \<open>CreatedAt\<close> of the existing row if there was one (the statement does
  not overwrite it), otherwise its own or, where that is zero, the time of the call, to the microsecond.
\<close>

theorem pg_upsert_get:
  assumes "pg_faults s = []" and "microseconds (pg_round s)" and "pg_UpsertAvatar now a s = (err, s')"
  shows "if storable text_ok fits_int32 a
    then err = None \<and> (\<exists>created updated. pg_GetAvatar (UserID a) s' =
        (Inr (Some (a\<lparr>CreatedAt := created, UpdatedAt := updated\<rparr>)), s') \<and>
      1000 dvd updated \<and> \<bar>updated - now\<bar> \<le> 500 \<and>
      (case fmlookup (t_avatars s) (UserID a) of
         Some old \<Rightarrow> created = c_created_at old
       | None \<Rightarrow> 1000 dvd created \<and> \<bar>created - (if IsZero (CreatedAt a) then now else CreatedAt a)\<bar> \<le> 500))
    else err \<noteq> None \<and> s' = s"
proof (cases "storable text_ok fits_int32 a")
  case True
  let ?b = "pg_stamp now a" and ?u = "UserID a"
  let ?created = "case fmlookup (t_avatars s) ?u of Some old \<Rightarrow> c_created_at old | None \<Rightarrow> pg_round s (CreatedAt ?b)"
  have s': "err = None" "s' = snd (sql_upsert ?u (row_of (pg_round s) ?b) s)"
    using assms True by (simp_all add: pg_UpsertAvatar_def Let_def)
  then have f: "pg_faults s' = []" using assms(1) by simp
  have row: "fmlookup (t_avatars s') ?u = Some ((row_of (pg_round s) ?b)\<lparr>c_created_at := ?created\<rparr>)"
    by (auto simp: s'(2) sql_upsert_def row_of_def split: option.split)
  have "avatar_of ?u ((row_of (pg_round s) ?b)\<lparr>c_created_at := ?created\<rparr>) =
      a\<lparr>CreatedAt := ?created, UpdatedAt := pg_round s now\<rparr>"
    using True
    by (cases a) (simp add: avatar_of_def row_of_def nullString_def storable_def pg_stamp_def Let_def)
  moreover have "text_ok ?u" using True by (simp add: storable_def)
  moreover have "snd (sql_select ?u s') = s'" by (simp add: sql_select_def)
  ultimately have "pg_GetAvatar ?u s' = (Inr (Some (a\<lparr>CreatedAt := ?created, UpdatedAt := pg_round s now\<rparr>)), s')"
    using f row by (simp add: pg_GetAvatar_def scanAvatar_select)
  moreover have "CreatedAt ?b = (if IsZero (CreatedAt a) then now else CreatedAt a)"
    by (simp add: pg_stamp_def Let_def)
  ultimately have "\<exists>created updated. pg_GetAvatar ?u s' =
        (Inr (Some (a\<lparr>CreatedAt := created, UpdatedAt := updated\<rparr>)), s') \<and>
      1000 dvd updated \<and> \<bar>updated - now\<bar> \<le> 500 \<and>
      (case fmlookup (t_avatars s) ?u of
         Some old \<Rightarrow> created = c_created_at old
       | None \<Rightarrow> 1000 dvd created \<and> \<bar>created - (if IsZero (CreatedAt a) then now else CreatedAt a)\<bar> \<le> 500)"
    using assms(2) unfolding microseconds_def
    by (intro exI [of _ ?created] exI [of _ "pg_round s now"]) (simp split: option.split)
  with True s'(1) show ?thesis by simp
next
  case False
  with assms show ?thesis by (auto simp: pg_UpsertAvatar_def Let_def)
qed

theorem pg_upsert_get_witness:
  "let a = zero_avatar\<lparr>UserID := ''u'', Status := StatusPending, StagingKey := ''k''\<rparr>
   in \<exists>s'. pg_UpsertAvatar 1499 a empty_pg = (None, s') \<and>
     pg_GetAvatar ''u'' s' = (Inr (Some (a\<lparr>CreatedAt := 1000, UpdatedAt := 1000\<rparr>)), s')"
proof -
  define a where "a = zero_avatar\<lparr>UserID := ''u'', Status := StatusPending, StagingKey := ''k''\<rparr>"
  obtain err s' where u: "pg_UpsertAvatar 1499 a empty_pg = (err, s')" by fastforce
  have a: "storable text_ok fits_int32 a" "UserID a = ''u''" "IsZero (CreatedAt a)"
    by (simp_all add: a_def storable_def zero_avatar_def pg.dim_ok_small IsZero_def)
      (simp_all add: text_ok_def utf8_lead_def)
  have m: "microseconds (pg_round empty_pg)" by (simp add: round_half_up)
  obtain created updated where
    g: "err = None" "pg_GetAvatar ''u'' s' = (Inr (Some (a\<lparr>CreatedAt := created, UpdatedAt := updated\<rparr>)), s')"
    "1000 dvd updated" "\<bar>updated - 1499\<bar> \<le> 500" "1000 dvd created" "\<bar>created - 1499\<bar> \<le> 500"
    using pg_upsert_get [OF empty_pg_simps(3) m u] unfolding if_P [OF a(1)] a(2) if_P [OF a(3)]
      empty_pg_simps fmempty_lookup option.case by blast
  have n: "x = 1000" if "1000 dvd x" "\<bar>x - 1499\<bar> \<le> 500" for x :: int
  proof -
    from that(1) obtain k where k: "x = 1000 * k" by (rule dvdE)
    with that(2) have "k = 1" by linarith
    with k show ?thesis by simp
  qed
  have "created = 1000" "updated = 1000" using n g(3-6) by blast+
  with g(1,2) u show ?thesis unfolding Let_def a_def by blast
qed

end
