(* ===== verification/Storage_Equivalence.thy ===== *)
theory Storage_Equivalence
  imports Mem_Storage Postgres
begin

text \<open>
  The two implementations of \<open>storage.Storage\<close> against each other: what they agree on, and where they
  differ. Both interpret the contract of theory \<open>Storage\<close>; the lemmas here compare the two.
\<close>

lemma pg_refuses:
  assumes "pg_faults s = []" and "\<not> storable_call text_ok fits_int32 c"
  shows "pg_view (snd (store_call pg_ops c s)) = pg_view s"
  using assms by (cases c) (auto simp: pg_method_defs Let_def split: prod.splits)

text \<open>
  C4: \<open>MemStorage\<close>, which the tests use, stands in for \<open>PostgresStorage\<close> on everything that PostgreSQL can
  store. After any sequence of inserts, deletes, status updates, completions and idempotency marks, on a
  connection without faults, \<open>MemStorage\<close> holds the rows (up to timestamps) and processed message ids of
  the abstract specification, and \<open>PostgresStorage\<close> those of the specification for the sequence without
  the calls that have a value which does not fit its column (a string that is no UTF-8 text, a side beyond
  32 bits); so they hold the same if there is no such call.
\<close>

theorem mem_pg_equivalent:
  assumes "pg_faults s = []" and "mem_view m = pg_view s"
  shows "mem_view (run_calls mem_ops cs m) = fold spec_call cs (pg_view s) \<and>
    pg_view (run_calls pg_ops cs s) =
      fold spec_call (filter (storable_call text_ok fits_int32) cs) (pg_view s) \<and>
    (list_all (storable_call text_ok fits_int32) cs \<longrightarrow>
      mem_view (run_calls mem_ops cs m) = pg_view (run_calls pg_ops cs s))"
proof -
  have "mem_view (run_calls mem_ops cs m) = fold spec_call cs (pg_view s)"
    using mem.run_calls_exact [where s = m and cs = cs] assms(2) by simp
  moreover have "pg_view (run_calls pg_ops cs s) =
      fold spec_call (filter (storable_call text_ok fits_int32) cs) (pg_view s)"
    using pg.run_calls_exact [where s = s and cs = cs] assms(1) pg_refuses by blast
  ultimately show ?thesis by (simp add: list_all_iff cong: filter_cong)
qed

theorem mem_pg_equivalent_witness:
  "let cs = [CallUpsert 1 (zero_avatar\<lparr>UserID := ''u''\<rparr>), CallDelete ''w'',
         CallUpsert 2 (zero_avatar\<lparr>UserID := ''v'', Width := 2 ^ 31\<rparr>)]
   in rows (mem_view (run_calls mem_ops cs NewMemStorage)) ''v'' \<noteq> None \<and>
     rows (pg_view (run_calls pg_ops cs empty_pg)) ''v'' = None \<and>
     rows (pg_view (run_calls pg_ops cs empty_pg)) ''u'' \<noteq> None"
proof -
  define a b where "a = zero_avatar\<lparr>UserID := ''u''\<rparr>" and "b = zero_avatar\<lparr>UserID := ''v'', Width := 2 ^ 31\<rparr>"
  let ?cs = "[CallUpsert 1 a, CallDelete ''w'', CallUpsert 2 b]"
  have "storable text_ok fits_int32 a" "\<not> storable text_ok fits_int32 b" "text_ok ''w''"
    and u: "UserID a = ''u''" "UserID b = ''v''"
    by (simp_all add: a_def b_def storable_def zero_avatar_def pg.dim_ok_small text_ok_def utf8_lead_def fits_int32_def)
  then have f: "filter (storable_call text_ok fits_int32) ?cs = [CallUpsert 1 a, CallDelete ''w'']" by simp
  have "mem_view NewMemStorage = pg_view empty_pg"
    by (simp add: NewMemStorage_def mem_view_def pg_view_def)
  from mem_pg_equivalent [OF empty_pg_simps(3) this, of ?cs] have
    "rows (mem_view (run_calls mem_ops ?cs NewMemStorage)) ''v'' \<noteq> None \<and>
     rows (pg_view (run_calls pg_ops ?cs empty_pg)) ''v'' = None \<and>
     rows (pg_view (run_calls pg_ops ?cs empty_pg)) ''u'' \<noteq> None"
    unfolding f by (simp add: u del: pg_view_simps mem_view_simps run_calls.simps) simp
  then show ?thesis unfolding Let_def a_def b_def .
qed

text \<open>
  C25: The total of the sizes. Whatever the order in which Go ranges over the map of \<open>MemStorage\<close>, its
  \<open>TotalStorageBytes\<close> returns the sum of the sizes of the ready rows, wrapped to an \<open>int64\<close>, without an
  error; \<open>PostgresStorage\<close> with the same rows and without a fault returns the same sum where it fits an
  \<open>int64\<close>, and an error where it does not. Neither changes a row.
\<close>

theorem total_storage_bytes:
  assumes "pg_faults s = []" and "mem_view m = pg_view s"
    and "distinct order" and "set order = fset (fmdom (m_avatars m))"
  shows "let total = \<Sum>u \<in> {u. \<exists>a. rows (pg_view s) u = Some a \<and> Status a = StatusReady}.
        sint (SizeBytes (the (rows (pg_view s) u)))
    in mem_total_in_order order m = int64_of total \<and>
      mem_TotalStorageBytes m = (Inr (mem_total_in_order order m), m) \<and>
      snd (pg_TotalStorageBytes s) = s \<and>
      (if fits_int64 total then fst (pg_TotalStorageBytes s) = Inr (int64_of total)
       else isl (fst (pg_TotalStorageBytes s)))"
proof -
  have "mem_total_in_order order m = int64_of (ready_total (rows (pg_view s)))"
    using mem_total_any_order(1) [OF assms(3,4)] by (simp only: assms(2))
  moreover have "pg_TotalStorageBytes s = (scan_int64 (ready_total (rows (pg_view s))), s)"
    using assms(1) sql_sum_total [of s]
    by (simp add: pg_TotalStorageBytes_def sql_sum_def del: pg_view_simps)
  ultimately show ?thesis
    using mem_total_any_order(2) [OF assms(3,4)]
    unfolding Let_def ready_total_def [symmetric] by (simp add: scan_int64_def del: pg_view_simps)
qed

theorem total_storage_bytes_witness:
  "\<exists>m s. mem_view m = pg_view s \<and> mem_TotalStorageBytes m = (Inr (- (2 ^ 63)), m) \<and>
    isl (fst (pg_TotalStorageBytes s))"
proof -
  define a b where "a = zero_avatar\<lparr>UserID := ''a'', Status := StatusReady, SizeBytes := int64_of MaxInt64\<rparr>"
    and "b = zero_avatar\<lparr>UserID := ''b'', Status := StatusReady, SizeBytes := 1\<rparr>"
  have u: "UserID a = ''a''" "UserID b = ''b''" "Status a = StatusReady" "Status b = StatusReady"
    "SizeBytes a = int64_of MaxInt64" "SizeBytes b = 1" by (simp_all add: a_def b_def)
  have ok: "storable text_ok fits_int32 a" "storable text_ok fits_int32 b"
    by (simp_all add: a_def b_def storable_def zero_avatar_def pg.dim_ok_small)
      (simp_all add: text_ok_def utf8_lead_def)
  let ?cs = "[CallUpsert 1 a, CallUpsert 1 b]"
  define m s where "m = run_calls mem_ops ?cs NewMemStorage" and "s = run_calls pg_ops ?cs empty_pg"
  have v0: "mem_view NewMemStorage = pg_view empty_pg" and e: "rows (pg_view empty_pg) = Map.empty"
    by (simp_all add: NewMemStorage_def mem_view_def pg_view_def)
  have vm: "mem_view m = spec_upsert b (spec_upsert a (pg_view empty_pg))"
    using mem.run_calls_exact [where s = NewMemStorage and cs = ?cs] v0 by (simp add: m_def del: run_calls.simps)
  have vs: "pg_view s = spec_upsert b (spec_upsert a (pg_view empty_pg))" and f: "pg_faults s = []"
    using pg.run_calls_exact [where s = empty_pg and cs = ?cs] ok pg_refuses
    by (simp_all add: s_def del: run_calls.simps)
  have r: "rows (pg_view s) = [''a'' \<mapsto> strip_times a, ''b'' \<mapsto> strip_times b]"
    by (simp add: vs e u del: pg_view_simps)
  have "{v. \<exists>x. rows (pg_view s) v = Some x \<and> Status x = StatusReady} = {''a'', ''b''}"
    by (auto simp: r u simp del: pg_view_simps split: if_splits)
  then have tot: "(\<Sum>v \<in> {v. \<exists>x. rows (pg_view s) v = Some x \<and> Status x = StatusReady}.
      sint (SizeBytes (the (rows (pg_view s) v)))) = 2 ^ 63"
    by (simp add: r u sint_int64_of fits_int64_def del: pg_view_simps)
  have "mem_view m = pg_view s" by (simp add: vm vs)
  from total_storage_bytes [OF f this distinct_sorted_keys [of "fmdom (m_avatars m)"]]
  have "mem_TotalStorageBytes m = (Inr (int64_of (2 ^ 63)), m)" "isl (fst (pg_TotalStorageBytes s))"
    unfolding tot Let_def by (simp_all add: fits_int64_def)
  moreover have "int64_of (2 ^ 63) = - (2 ^ 63)" by simp
  ultimately show ?thesis using \<open>mem_view m = pg_view s\<close> by metis
qed

text \<open>
  The two differ in what they report: an update of a missing row is \<open>ErrNotFound\<close> for
  \<open>MemStorage\<close>, and success for \<open>PostgresStorage\<close>, whose \<open>UPDATE\<close> then touches no row. A worker
  that processes a message of a deleted user sees no error from the database.
\<close>

lemma status_of_missing_row:
  assumes "fmlookup (m_avatars m) u = None" and "fmlookup (t_avatars s) u = None" and "pg_faults s = []"
    and "storable_call text_ok fits_int32 (CallStatus now u st e)"
    and "storable_call text_ok fits_int32 (CallReady now u ok tk ct sz w h)"
  shows "mem_UpdateAvatarStatus now u st e m = (Some ErrNotFound, m) \<and>
    pg_UpdateAvatarStatus now u st e s = (None, s) \<and>
    mem_MarkAvatarReady now u ok tk ct sz w h m = (Some ErrNotFound, m) \<and>
    pg_MarkAvatarReady now u ok tk ct sz w h s = (None, s)"
  using assms
  by (simp add: mem_UpdateAvatarStatus_def pg_UpdateAvatarStatus_def mem_MarkAvatarReady_def
      pg_MarkAvatarReady_def sql_update_def)

end
