(* ===== verification/Consumer.thy ===== *)
theory Consumer
  imports Amqp Storage_Equivalence
begin

text \<open>
  The consumer of \<open>internal/queue/consumer.go\<close>: the idempotency check, the handling of one delivery,
  and the receive loop. A delivery is settled once, by \<open>Ack(false)\<close> or by \<open>Nack(false, requeue)\<close>; their
  errors are ignored by the code and so are not modelled. The state is the storage, whatever else the
  handler works on, and the AMQP channel. Extracting the trace context only changes the Go context.
\<close>

datatype settlement = Ack | Nack bool

definition IsProcessed :: "'s storage \<Rightarrow> string \<Rightarrow> 's \<Rightarrow> (go_error + bool) \<times> 's" where
  "IsProcessed ops messageID s = IsMessageProcessed ops messageID s"

definition MarkProcessed :: "'s storage \<Rightarrow> time \<Rightarrow> string \<Rightarrow> 's \<Rightarrow> go_error option \<times> 's" where
  "MarkProcessed ops now messageID s = MarkMessageProcessed ops now messageID s"

type_synonym ('s, 'x) DeliveryHandler =
  "AvatarProcessMessage \<Rightarrow> delivery \<Rightarrow> 's \<times> 'x \<Rightarrow> go_error option \<times> 's \<times> 'x"

text \<open>The message of a delivery: an empty id in the body is replaced by the AMQP property.\<close>

definition with_id :: "delivery \<Rightarrow> AvatarProcessMessage \<Rightarrow> AvatarProcessMessage" where
  "with_id d msg = (if msg_MessageID msg = '''' then msg\<lparr>msg_MessageID := d_MessageId d\<rparr> else msg)"

definition handleDelivery ::
  "json_lib \<Rightarrow> 's storage \<Rightarrow> 'c channel \<Rightarrow> ('s, 'x) DeliveryHandler \<Rightarrow> time \<Rightarrow> delivery \<Rightarrow> 's \<times> 'x \<times> 'c
    \<Rightarrow> settlement \<times> 's \<times> 'x \<times> 'c"
where
  "handleDelivery json ops ch handler now d st =
     (case st of (s, x, c) \<Rightarrow>
        case json_Unmarshal json (d_Body d) of
          Inl _ \<Rightarrow> (Nack False, s, x, c)
        | Inr msg \<Rightarrow>
          (let msg = with_id d msg
           in case IsProcessed ops (msg_MessageID msg) s of
                (Inl _, s) \<Rightarrow> (Nack True, s, x, c)
              | (Inr processed, s) \<Rightarrow>
                (if processed then (Ack, s, x, c)
                 else case handler msg d (s, x) of
                   (Some _, s, x) \<Rightarrow>
                     (let retry = RetryCount (d_Headers d) + 1
                      in case SendToRetry ch (d_Body d) retry c of
                           (Some _, c) \<Rightarrow> (Nack True, s, x, c)
                         | (None, c) \<Rightarrow> (Ack, s, x, c))
                 | (None, s, x) \<Rightarrow>
                     (case MarkProcessed ops now (msg_MessageID msg) s of
                        (Some _, s) \<Rightarrow> (Nack True, s, x, c)
                      | (None, s) \<Rightarrow> (Ack, s, x, c)))))"

text \<open>
  The receive loop: the events that \<open>select\<close> sees, a cancelled context with its error, a delivery with
  the time at which it is marked, or the closed Go channel. The result is the value \<open>Consume\<close> returns,
  or \<open>None\<close> while it waits for the next event.
\<close>

datatype loop_event = CtxDone go_error | Delivered delivery time | Closed

fun consume_loop ::
  "json_lib \<Rightarrow> 's storage \<Rightarrow> 'c channel \<Rightarrow> ('s, 'x) DeliveryHandler \<Rightarrow> loop_event list \<Rightarrow> 's \<times> 'x \<times> 'c
    \<Rightarrow> go_error option option \<times> settlement list \<times> 's \<times> 'x \<times> 'c"
where
  "consume_loop json ops ch handler [] st = (None, [], st)"
| "consume_loop json ops ch handler (CtxDone err # _) st = (Some (Some err), [], st)"
| "consume_loop json ops ch handler (Closed # _) st = (Some None, [], st)"
| "consume_loop json ops ch handler (Delivered d now # es) st =
     (case handleDelivery json ops ch handler now d st of
        (a, st) \<Rightarrow>
          (case consume_loop json ops ch handler es st of
             (r, as, st) \<Rightarrow> (r, a # as, st)))"

definition Consume ::
  "json_lib \<Rightarrow> 's storage \<Rightarrow> 'c channel \<Rightarrow> ('s, 'x) DeliveryHandler \<Rightarrow> loop_event list \<Rightarrow> 's \<times> 'x \<times> 'c
    \<Rightarrow> go_error option option \<times> settlement list \<times> 's \<times> 'x \<times> 'c"
where
  "Consume json ops ch handler es st =
     (case st of (s, x, c) \<Rightarrow>
        case Qos ch 1 0 False c of
          (Some err, c) \<Rightarrow> (Some (Some (Wrapped ''qos'' err)), [], s, x, c)
        | (None, c) \<Rightarrow>
          (case ConsumeQueue ch QueueProcessing ''avatars-worker'' False False False False c of
             (Some err, c) \<Rightarrow> (Some (Some (Wrapped ''consume'' err)), [], s, x, c)
           | (None, c) \<Rightarrow> consume_loop json ops ch handler es (s, x, c)))"

section \<open>The channel contract\<close>

text \<open>A channel with a log of what was published: an error means that it was published or not.\<close>

locale channel_contract =
  fixes ch :: "'c channel" and published :: "'c \<Rightarrow> (string \<times> string \<times> publishing) list"
  assumes publish_done: "Publish ch ex key mand imm p c = (None, c') \<Longrightarrow>
      published c' = published c @ [(ex, key, p)]"
    and publish_failed: "Publish ch ex key mand imm p c = (Some e, c') \<Longrightarrow>
      published c' = published c \<or> published c' = published c @ [(ex, key, p)]"

section \<open>One delivery\<close>

text \<open>Whether a delivery is decodable, and under which id the consumer knows it.\<close>

definition delivery_msg :: "json_lib \<Rightarrow> delivery \<Rightarrow> AvatarProcessMessage option" where
  "delivery_msg json d =
     (case json_Unmarshal json (d_Body d) of Inl _ \<Rightarrow> None | Inr msg \<Rightarrow> Some (with_id d msg))"

text \<open>The five ways \<open>handleDelivery\<close> ends, with what happened on the way.\<close>

lemma handleDelivery_cases:
  assumes "handleDelivery json ops ch handler now d (s, x, c) = (a, s', x', c')"
  obtains (undecodable) "delivery_msg json d = None" "a = Nack False" "s' = s" "x' = x" "c' = c"
  | (check_failed) msg e where "delivery_msg json d = Some msg"
      "IsMessageProcessed ops (msg_MessageID msg) s = (Inl e, s')" "a = Nack True" "x' = x" "c' = c"
  | (duplicate) msg where "delivery_msg json d = Some msg"
      "IsMessageProcessed ops (msg_MessageID msg) s = (Inr True, s')" "a = Ack" "x' = x" "c' = c"
  | (failed) msg s1 e err where "delivery_msg json d = Some msg"
      "IsMessageProcessed ops (msg_MessageID msg) s = (Inr False, s1)"
      "handler msg d (s1, x) = (Some e, s', x')"
      "SendToRetry ch (d_Body d) (RetryCount (d_Headers d) + 1) c = (err, c')"
      "a = (if err = None then Ack else Nack True)"
  | (handled) msg s1 s2 err where "delivery_msg json d = Some msg"
      "IsMessageProcessed ops (msg_MessageID msg) s = (Inr False, s1)"
      "handler msg d (s1, x) = (None, s2, x')"
      "MarkMessageProcessed ops now (msg_MessageID msg) s2 = (err, s')"
      "a = (if err = None then Ack else Nack True)" "c' = c"
proof (cases "json_Unmarshal json (d_Body d)")
  case (Inl e)
  with assms show thesis
    by (intro undecodable) (auto simp: handleDelivery_def delivery_msg_def)
next
  case (Inr m)
  define msg where "msg = with_id d m"
  have msg: "delivery_msg json d = Some msg" by (simp add: delivery_msg_def msg_def Inr)
  obtain r s1 where r: "IsMessageProcessed ops (msg_MessageID msg) s = (r, s1)"
    by (cases "IsMessageProcessed ops (msg_MessageID msg) s")
  have eq: "(a, s', x', c') =
      (case r of Inl _ \<Rightarrow> (Nack True, s1, x, c)
       | Inr processed \<Rightarrow> if processed then (Ack, s1, x, c)
         else case handler msg d (s1, x) of
           (Some _, s, x) \<Rightarrow>
             (case SendToRetry ch (d_Body d) (RetryCount (d_Headers d) + 1) c of
                (Some _, c) \<Rightarrow> (Nack True, s, x, c) | (None, c) \<Rightarrow> (Ack, s, x, c))
         | (None, s, x) \<Rightarrow>
             (case MarkMessageProcessed ops now (msg_MessageID msg) s of
                (Some _, s) \<Rightarrow> (Nack True, s, x, c) | (None, s) \<Rightarrow> (Ack, s, x, c)))"
    unfolding assms [symmetric] handleDelivery_def IsProcessed_def MarkProcessed_def Let_def msg_def
    using r [unfolded msg_def] by (cases r) (simp_all add: Inr)
  show thesis
  proof (cases r)
    case (Inl e)
    with eq r msg show thesis by (intro check_failed [of msg e]) auto
  next
    case (Inr processed)
    show thesis
    proof (cases processed)
      case True
      with eq r msg Inr show thesis by (intro duplicate [of msg]) auto
    next
      case False
      obtain h s2 x2 where h: "handler msg d (s1, x) = (h, s2, x2)"
        by (cases "handler msg d (s1, x)") auto
      show thesis
      proof (cases h)
        case None
        obtain err s3 where "MarkMessageProcessed ops now (msg_MessageID msg) s2 = (err, s3)"
          by (cases "MarkMessageProcessed ops now (msg_MessageID msg) s2")
        with eq r msg Inr False h None show thesis
          by (intro handled [of msg s1 s2 err]) (auto split: option.splits)
      next
        case (Some e)
        obtain err c2 where "SendToRetry ch (d_Body d) (RetryCount (d_Headers d) + 1) c = (err, c2)"
          by (cases "SendToRetry ch (d_Body d) (RetryCount (d_Headers d) + 1) c")
        with eq r msg Inr False h Some show thesis
          by (intro failed [of msg s1 e err]) (auto split: option.splits)
      qed
    qed
  qed
qed

context storage_contract begin

lemma handle_duplicate:
  assumes "delivery_msg json d = Some msg" and "msg_MessageID msg \<in> seen (view s)"
    and "handleDelivery json ops ch handler now d (s, x, c) = (a, s', x', c')"
  shows "a \<in> {Ack, Nack True} \<and> x' = x \<and> c' = c \<and> view s' = view s"
  using assms(3)
proof (cases rule: handleDelivery_cases)
  case (check_failed m e)
  then show ?thesis using assms is_processed by fastforce
next
  case (duplicate m)
  then show ?thesis using assms is_processed by fastforce
next
  case (failed m s1 e err)
  then show ?thesis using assms is_processed_seen [of "msg_MessageID m" s False s1] by simp
next
  case (handled m s1 s2 err)
  then show ?thesis using assms is_processed_seen [of "msg_MessageID m" s False s1] by simp
qed (use assms in simp)

text \<open>A run of the loop over deliveries whose ids are all recorded.\<close>

lemma loop_duplicates:
  assumes "consume_loop json ops ch handler es (s, x, c) = (r, acks, s', x', c')"
    and "\<And>d now. Delivered d now \<in> set es \<Longrightarrow>
      \<exists>msg. delivery_msg json d = Some msg \<and> msg_MessageID msg \<in> seen (view s)"
  shows "x' = x \<and> c' = c \<and> view s' = view s \<and> set acks \<subseteq> {Ack, Nack True}"
  using assms
proof (induction es arbitrary: s r acks s' x' c')
  case (Cons e es)
  show ?case
  proof (cases e)
    case (Delivered d now)
    obtain a s1 x1 c1 where h: "handleDelivery json ops ch handler now d (s, x, c) = (a, s1, x1, c1)"
      by (metis prod_cases4)
    obtain msg where "delivery_msg json d = Some msg" "msg_MessageID msg \<in> seen (view s)"
      using Cons.prems(2) Delivered by (metis list.set_intros(1))
    from handle_duplicate [OF this h]
    have d: "a \<in> {Ack, Nack True}" "x1 = x" "c1 = c" "view s1 = view s" by auto
    obtain r' acks' s2 x2 c2
      where l: "consume_loop json ops ch handler es (s1, x, c) = (r', acks', s2, x2, c2)"
      by (metis prod_cases5)
    from Cons.IH [OF l] Cons.prems(2) have "x2 = x \<and> c2 = c \<and> view s2 = view s \<and> set acks' \<subseteq> {Ack, Nack True}"
      by (simp add: d(4)) (metis list.set_intros(2))
    with Cons.prems(1) h l d Delivered show ?thesis by auto
  qed (use Cons.prems in auto)
qed simp

end

locale consumer_env = storage_contract ops view + channel_contract ch published
  for ops :: "'s storage" and view :: "'s \<Rightarrow> db_view"
    and ch :: "'c channel" and published :: "'c \<Rightarrow> (string \<times> string \<times> publishing) list"
begin

text \<open>
  A delivery is only acknowledged where its id is recorded as processed, or where its body has
  been published again; it is only dropped where it cannot be decoded.
\<close>

lemma handleDelivery_settles:
  assumes "handleDelivery json ops ch handler now d (s, x, c) = (a, s', x', c')"
  shows "case a of
      Nack False \<Rightarrow> delivery_msg json d = None \<and> s' = s \<and> x' = x \<and> c' = c
    | Nack True \<Rightarrow> delivery_msg json d \<noteq> None
    | Ack \<Rightarrow>
        (\<exists>msg. delivery_msg json d = Some msg \<and>
          (msg_MessageID msg \<in> seen (view s') \<and> c' = c \<or>
           published c' = published c @ [retry_publishing (d_Body d) (RetryCount (d_Headers d) + 1)]))"
  using assms
proof (cases rule: handleDelivery_cases)
  case (duplicate msg)
  then show ?thesis using is_processed is_processed_seen by fastforce
next
  case (failed msg s1 e err)
  then show ?thesis
    using publish_done by (cases err) (auto simp: SendToRetry_eq split: prod.splits)
next
  case (handled msg s1 s2 err)
  then show ?thesis using mark [OF handled(4)] by (cases err) auto
qed auto

end

end
