(* ===== verification/Object_Store.thy ===== *)
theory Object_Store
  imports Prelude
begin

text \<open>
  Object storage: the contract of the \<open>ObjectStore\<close> interfaces that the handler and the worker declare,
  and the \<open>Client\<close> of \<open>internal/objectstore/client.go\<close> that implements them over S3. The S3 service and
  the SDK are not part of the repository: they are the parameter \<open>api\<close>, a record of the calls the client
  makes, with what the client relies on stated in the locale \<open>s3_service\<close>. \<open>net/url\<close> is the parameter
  \<open>url\<close>. The test double \<open>fakeObjects\<close> of \<open>internal/worker/service_test.go\<close> is modelled too.
\<close>

section \<open>The contract\<close>

text \<open>An \<open>io.Reader\<close> that is read to its end: the bytes, or the error of the read.\<close>

type_synonym reader = "go_error + bytes"

definition NewReader :: "bytes \<Rightarrow> reader" where
  "NewReader data = Inr data"

locale object_store =
  fixes upload :: "string \<Rightarrow> reader \<Rightarrow> string \<Rightarrow> 'o \<Rightarrow> go_error option \<times> 'o"
    and delete :: "string list \<Rightarrow> 'o \<Rightarrow> go_error option \<times> 'o"
    and content :: "'o \<Rightarrow> string \<Rightarrow> bytes option"
  assumes upload_done: "upload k (Inr data) ct s = (None, s') \<Longrightarrow> content s' = (content s)(k \<mapsto> data)"
    and upload_failed: "upload k (Inr data) ct s = (Some e, s') \<Longrightarrow>
      content s' = content s \<or> content s' = (content s)(k \<mapsto> data)"
    and upload_unread: "upload k (Inl e) ct s = (err, s') \<Longrightarrow> err \<noteq> None \<and> content s' = content s"
    and delete_done: "delete ks s = (None, s') \<Longrightarrow> k \<noteq> '''' \<Longrightarrow>
      content s' k = (if k \<in> set ks then None else content s k)"
    and delete_failed: "delete ks s = (err, s') \<Longrightarrow> k \<noteq> '''' \<Longrightarrow>
      content s' k = content s k \<or> k \<in> set ks \<and> content s' k = None"
begin

text \<open>An upload changes one key at most, and a delete never creates an object.\<close>

lemma upload_frame:
  assumes "upload k r ct s = (err, s')" and "k' \<noteq> k"
  shows "content s' k' = content s k'"
proof (cases r)
  case (Inl e)
  then show ?thesis using assms upload_unread by simp
next
  case (Inr data)
  then show ?thesis
    using assms upload_done [of k data ct s s'] upload_failed [of k data ct s _ s']
    by (cases err) auto
qed

lemma delete_frame:
  assumes "delete ks s = (err, s')" and "k \<noteq> ''''" and "k \<notin> set ks"
  shows "content s' k = content s k"
  using delete_failed [OF assms(1,2)] assms(3) by auto

end

locale object_reader = object_store upload delete content
  for upload :: "string \<Rightarrow> reader \<Rightarrow> string \<Rightarrow> 'o \<Rightarrow> go_error option \<times> 'o"
    and delete :: "string list \<Rightarrow> 'o \<Rightarrow> go_error option \<times> 'o"
    and content :: "'o \<Rightarrow> string \<Rightarrow> bytes option" +
  fixes download :: "string \<Rightarrow> 'o \<Rightarrow> (go_error + bytes) \<times> 'o"
  assumes download_same: "download k s = (r, s') \<Longrightarrow> content s' = content s"
    and download_data: "download k s = (Inr d, s') \<Longrightarrow> content s k = Some d"

text \<open>A store with a notion of being healthy: no call fails, apart from reading a missing object.\<close>

locale healthy_objects = object_reader +
  fixes ok :: "'a \<Rightarrow> bool"
  assumes upload_ok: "ok s \<Longrightarrow> upload k (Inr data) ct s = (err, s') \<Longrightarrow> err = None \<and> ok s'"
    and delete_ok: "ok s \<Longrightarrow> delete ks s = (err, s') \<Longrightarrow> err = None \<and> ok s'"
    and download_ok: "ok s \<Longrightarrow> content s k = Some d \<Longrightarrow> download k s = (r, s') \<Longrightarrow>
      r = Inr d \<and> ok s'"
    and download_missing: "ok s \<Longrightarrow> content s k = None \<Longrightarrow> download k s = (r, s') \<Longrightarrow>
      isl r \<and> ok s'"

section \<open>The client\<close>

text \<open>
  The calls of the SDK: \<open>GetObject\<close> gives a response whose body may fail to be read; presigning is
  local to the SDK and depends on no remote state.
\<close>

record 'b s3_api =
  PutObject :: "string \<Rightarrow> string \<Rightarrow> bytes \<Rightarrow> string \<Rightarrow> 'b \<Rightarrow> go_error option \<times> 'b"
  GetObject :: "string \<Rightarrow> string \<Rightarrow> 'b \<Rightarrow> (go_error + (go_error + bytes)) \<times> 'b"
  DeleteObject :: "string \<Rightarrow> string \<Rightarrow> 'b \<Rightarrow> go_error option \<times> 'b"
  HeadBucket :: "string \<Rightarrow> 'b \<Rightarrow> go_error option \<times> 'b"
  CreateBucket :: "string \<Rightarrow> 'b \<Rightarrow> go_error option \<times> 'b"
  Presign :: "string \<Rightarrow> string \<Rightarrow> duration \<Rightarrow> go_error + string"

text \<open>\<open>net/url\<close>: parsing, the two fields that are copied, and printing.\<close>

record 'u url_lib =
  url_Parse :: "string \<Rightarrow> 'u option"
  url_Scheme :: "'u \<Rightarrow> string"
  url_Host :: "'u \<Rightarrow> string"
  url_set :: "string \<Rightarrow> string \<Rightarrow> 'u \<Rightarrow> 'u"
  url_String :: "'u \<Rightarrow> string"

record client =
  bucket :: string
  publicEndpoint :: string

definition client_Upload ::
  "'b s3_api \<Rightarrow> client \<Rightarrow> string \<Rightarrow> reader \<Rightarrow> string \<Rightarrow> 'b \<Rightarrow> go_error option \<times> 'b"
where
  "client_Upload api c key reader contentType s =
     (case reader of
        Inl err \<Rightarrow> (Some (Wrapped ''read upload body'' err), s)
      | Inr data \<Rightarrow>
          (case PutObject api (bucket c) key data contentType s of
             (Some err, s') \<Rightarrow> (Some (Wrapped ''upload object'' err), s')
           | (None, s') \<Rightarrow> (None, s')))"

definition client_Download ::
  "'b s3_api \<Rightarrow> client \<Rightarrow> string \<Rightarrow> 'b \<Rightarrow> (go_error + bytes) \<times> 'b"
where
  "client_Download api c key s =
     (case GetObject api (bucket c) key s of
        (Inl err, s') \<Rightarrow> (Inl (Wrapped ''download object'' err), s')
      | (Inr (Inl err), s') \<Rightarrow> (Inl (Wrapped ''read object'' err), s')
      | (Inr (Inr data), s') \<Rightarrow> (Inr data, s'))"

fun client_Delete :: "'b s3_api \<Rightarrow> client \<Rightarrow> string list \<Rightarrow> 'b \<Rightarrow> go_error option \<times> 'b" where
  "client_Delete api c [] s = (None, s)"
| "client_Delete api c (key # keys) s =
     (if key = '''' then client_Delete api c keys s
      else case DeleteObject api (bucket c) key s of
             (Some err, s') \<Rightarrow> (Some (Wrapped (''delete object '' @ key) err), s')
           | (None, s') \<Rightarrow> client_Delete api c keys s')"

definition replaceURLHost :: "'u url_lib \<Rightarrow> string \<Rightarrow> string \<Rightarrow> string" where
  "replaceURLHost url raw pubEndpoint =
     (case url_Parse url raw of
        None \<Rightarrow> raw
      | Some parsed \<Rightarrow>
          (case url_Parse url pubEndpoint of
             None \<Rightarrow> raw
           | Some pub \<Rightarrow> url_String url (url_set url (url_Scheme url pub) (url_Host url pub) parsed)))"

definition client_PresignedURL ::
  "'u url_lib \<Rightarrow> 'b s3_api \<Rightarrow> client \<Rightarrow> string \<Rightarrow> duration \<Rightarrow> go_error + string"
where
  "client_PresignedURL url api c key expiry =
     (if key = '''' then Inr ''''
      else case Presign api (bucket c) key expiry of
             Inl err \<Rightarrow> Inl (Wrapped ''presign url'' err)
           | Inr u \<Rightarrow> Inr (if publicEndpoint c \<noteq> '''' then replaceURLHost url u (publicEndpoint c) else u))"

definition EnsureBucket :: "'b s3_api \<Rightarrow> client \<Rightarrow> 'b \<Rightarrow> go_error option \<times> 'b" where
  "EnsureBucket api c s =
     (case HeadBucket api (bucket c) s of
        (None, s') \<Rightarrow> (None, s')
      | (Some _, s') \<Rightarrow>
          (case CreateBucket api (bucket c) s' of
             (Some err, s'') \<Rightarrow> (Some (Wrapped ''create bucket'' err), s'')
           | (None, s'') \<Rightarrow> (None, s'')))"

section \<open>What the client relies on\<close>

text \<open>
  The documented behaviour of the object operations of S3, on the objects \<open>stored\<close> per bucket and key:
  a call that reports an error has its effect or none.
\<close>

locale s3_service =
  fixes api :: "'b s3_api"
    and stored :: "'b \<Rightarrow> string \<Rightarrow> string \<Rightarrow> bytes option"
    and buckets :: "'b \<Rightarrow> string set"
  assumes put_done: "PutObject api bk k d ct s = (None, s') \<Longrightarrow>
      stored s' bk = (stored s bk)(k \<mapsto> d)"
    and put_failed: "PutObject api bk k d ct s = (Some e, s') \<Longrightarrow>
      stored s' bk = stored s bk \<or> stored s' bk = (stored s bk)(k \<mapsto> d)"
    and get_same: "GetObject api bk k s = (r, s') \<Longrightarrow> stored s' = stored s"
    and get_data: "GetObject api bk k s = (Inr (Inr data), s') \<Longrightarrow> stored s bk k = Some data"
    and del_done: "DeleteObject api bk k s = (None, s') \<Longrightarrow> stored s' bk = (stored s bk)(k := None)"
    and del_failed: "DeleteObject api bk k s = (Some e, s') \<Longrightarrow>
      stored s' bk = stored s bk \<or> stored s' bk = (stored s bk)(k := None)"
    and head_bucket: "HeadBucket api bk s = (err, s') \<Longrightarrow>
      (err = None \<longrightarrow> bk \<in> buckets s') \<and> buckets s' = buckets s"
    and create_bucket: "CreateBucket api bk s = (None, s') \<Longrightarrow> bk \<in> buckets s'"
begin

lemma ensure_bucket: "EnsureBucket api c s = (None, s') \<Longrightarrow> bucket c \<in> buckets s'"
  using head_bucket create_bucket
  by (fastforce simp: EnsureBucket_def split: prod.splits option.splits)

lemma client_delete_failed:
  "client_Delete api c ks s = (err, s') \<Longrightarrow> k \<noteq> '''' \<Longrightarrow>
   stored s' (bucket c) k = stored s (bucket c) k \<or> k \<in> set ks \<and> stored s' (bucket c) k = None"
proof (induction ks arbitrary: s)
  case Nil
  then show ?case by simp
next
  case (Cons key ks)
  show ?case
  proof (cases "key = ''''")
    case True
    with Cons show ?thesis by auto
  next
    case False
    obtain r t where d: "DeleteObject api (bucket c) key s = (r, t)"
      by (cases "DeleteObject api (bucket c) key s")
    then have t: "stored t (bucket c) = stored s (bucket c) \<or>
        stored t (bucket c) = (stored s (bucket c))(key := None)"
      using del_done del_failed by (cases r) auto
    show ?thesis
    proof (cases r)
      case None
      with False d Cons.prems have "client_Delete api c ks t = (err, s')" by simp
      from Cons.IH [OF this Cons.prems(2)] t show ?thesis by (auto split: if_splits)
    next
      case (Some e)
      with False d Cons.prems t show ?thesis by (auto split: if_splits)
    qed
  qed
qed

lemma client_delete_done:
  "client_Delete api c ks s = (None, s') \<Longrightarrow> k \<noteq> '''' \<Longrightarrow>
   stored s' (bucket c) k = (if k \<in> set ks then None else stored s (bucket c) k)"
proof (induction ks arbitrary: s)
  case Nil
  then show ?case by simp
next
  case (Cons key ks)
  then show ?case
    using del_done by (fastforce split: if_splits prod.splits option.splits)
qed

end

text \<open>Over such a service, the client with a bucket satisfies the contract.\<close>

locale s3_client = s3_service api stored buckets
  for api :: "'b s3_api" and stored :: "'b \<Rightarrow> string \<Rightarrow> string \<Rightarrow> bytes option"
    and buckets :: "'b \<Rightarrow> string set" +
  fixes c :: client

sublocale s3_client \<subseteq> client: object_reader "client_Upload api c" "client_Delete api c"
  "\<lambda>s. stored s (bucket c)" "client_Download api c"
proof unfold_locales
  fix ks s s' and k :: string
  assume "client_Delete api c ks s = (None, s')" and "k \<noteq> ''''"
  then show "stored s' (bucket c) k = (if k \<in> set ks then None else stored s (bucket c) k)"
    by (rule client_delete_done)
next
  fix ks s err s' and k :: string
  assume "client_Delete api c ks s = (err, s')" and "k \<noteq> ''''"
  then show "stored s' (bucket c) k = stored s (bucket c) k \<or>
      k \<in> set ks \<and> stored s' (bucket c) k = None"
    by (rule client_delete_failed)
qed (use put_done put_failed get_same get_data in
    \<open>fastforce simp: client_Upload_def client_Download_def split: prod.splits option.splits sum.splits\<close>)+

context s3_client begin

lemma client_reader: "object_reader (client_Upload api c) (client_Delete api c)
    (\<lambda>s. stored s (bucket c)) (client_Download api c)"
  by unfold_locales

end

text \<open>A service that is up: no call fails, apart from reading a missing object.\<close>

locale healthy_s3 = s3_service api stored buckets
  for api :: "'b s3_api" and stored :: "'b \<Rightarrow> string \<Rightarrow> string \<Rightarrow> bytes option"
    and buckets :: "'b \<Rightarrow> string set" +
  fixes up :: "'b \<Rightarrow> bool"
  assumes put_up: "up s \<Longrightarrow> PutObject api bk k d ct s = (err, s') \<Longrightarrow> err = None \<and> up s'"
    and get_up: "up s \<Longrightarrow> GetObject api bk k s = (r, s') \<Longrightarrow>
      (case stored s bk k of None \<Rightarrow> isl r | Some d \<Rightarrow> r = Inr (Inr d)) \<and> up s'"
    and del_up: "up s \<Longrightarrow> DeleteObject api bk k s = (err, s') \<Longrightarrow> err = None \<and> up s'"
begin

lemma client_delete_up: "up s \<Longrightarrow> client_Delete api c ks s = (err, s') \<Longrightarrow> err = None \<and> up s'"
proof (induction ks arbitrary: s)
  case (Cons k ks)
  then show ?case using del_up by (fastforce split: if_splits prod.splits option.splits)
qed simp

lemma healthy_client:
  "healthy_objects (client_Upload api c) (client_Delete api c) (\<lambda>s. stored s (bucket c))
     (client_Download api c) up"
proof (rule healthy_objects.intro)
  show "object_reader (client_Upload api c) (client_Delete api c) (\<lambda>s. stored s (bucket c))
      (client_Download api c)"
    using s3_client.client_reader [of api stored buckets c]
    by (simp add: s3_client_def s3_service_axioms)
  show "healthy_objects_axioms (client_Upload api c) (client_Delete api c) (\<lambda>s. stored s (bucket c))
      (client_Download api c) up"
  proof
    fix s k data ct err s'
    assume "up s" and "client_Upload api c k (Inr data) ct s = (err, s')"
    then show "err = None \<and> up s'"
      using put_up by (fastforce simp: client_Upload_def split: prod.splits option.splits)
  next
    fix s ks err s'
    assume "up s" and "client_Delete api c ks s = (err, s')"
    then show "err = None \<and> up s'" by (rule client_delete_up)
  next
    fix s k d r s'
    assume "up s" "stored s (bucket c) k = Some d" "client_Download api c k s = (r, s')"
    then show "r = Inr d \<and> up s'"
      using get_up [of s "bucket c" k "fst (GetObject api (bucket c) k s)" "snd (GetObject api (bucket c) k s)"]
      by (auto simp: client_Download_def split: prod.splits sum.splits)
  next
    fix s k r s'
    assume "up s" "stored s (bucket c) k = None" "client_Download api c k s = (r, s')"
    then show "isl r \<and> up s'"
      using get_up [of s "bucket c" k "fst (GetObject api (bucket c) k s)" "snd (GetObject api (bucket c) k s)"]
      by (auto simp: client_Download_def split: prod.splits sum.splits)
  qed
qed

end

section \<open>A service with a schedule of faults\<close>

text \<open>
  A concrete service for the hypotheses of \<open>s3_service\<close>: objects in a map, and for each call to come
  whether it succeeds, fails, or is carried out and reported as failed.
\<close>

datatype s3_fault = S3Ok | S3Fail string | S3Lost string

record s3_state =
  s3_objects :: "string \<Rightarrow> string \<Rightarrow> bytes option"
  s3_buckets :: "string set"
  s3_faults :: "s3_fault list"

definition s3_try :: "(s3_state \<Rightarrow> s3_state) \<Rightarrow> s3_state \<Rightarrow> go_error option \<times> s3_state" where
  "s3_try f s =
     (let s' = s\<lparr>s3_faults := tl (s3_faults s)\<rparr>
      in case s3_faults s of
           S3Fail e # _ \<Rightarrow> (Some (ErrText e), s')
         | S3Lost e # _ \<Rightarrow> (Some (ErrText e), f s')
         | _ \<Rightarrow> (None, f s'))"

definition s3_put :: "string \<Rightarrow> string \<Rightarrow> bytes option \<Rightarrow> s3_state \<Rightarrow> s3_state" where
  "s3_put bk k d s = s\<lparr>s3_objects := (s3_objects s)(bk := (s3_objects s bk)(k := d))\<rparr>"

definition scheduled_api :: "s3_state s3_api" where
  "scheduled_api =
     \<lparr>PutObject = (\<lambda>bk k d ct. s3_try (s3_put bk k (Some d))),
      GetObject = (\<lambda>bk k s. case s3_try (\<lambda>s. s) s of
         (Some e, s') \<Rightarrow> (Inl e, s')
       | (None, s') \<Rightarrow>
           (case s3_objects s bk k of
              None \<Rightarrow> (Inl (ErrText ''NoSuchKey''), s')
            | Some d \<Rightarrow> (Inr (Inr d), s'))),
      DeleteObject = (\<lambda>bk k. s3_try (s3_put bk k None)),
      HeadBucket = (\<lambda>bk s. case s3_try (\<lambda>s. s) s of
         (Some e, s') \<Rightarrow> (Some e, s')
       | (None, s') \<Rightarrow> (if bk \<in> s3_buckets s then None else Some (ErrText ''NotFound''), s')),
      CreateBucket = (\<lambda>bk. s3_try (\<lambda>s. s\<lparr>s3_buckets := insert bk (s3_buckets s)\<rparr>)),
      Presign = (\<lambda>bk k exp. Inr (''http://s3/'' @ bk @ ''/'' @ k))\<rparr>"

lemma s3_put_objects [simp]:
  "s3_objects (s3_put bk k d s) bk = (s3_objects s bk)(k := d)"
  "s3_faults (s3_put bk k d s) = s3_faults s" "s3_buckets (s3_put bk k d s) = s3_buckets s"
  by (simp_all add: s3_put_def)

lemma s3_try_cases:
  assumes "s3_try f s = (err, s')"
  obtains "s' = f (s\<lparr>s3_faults := tl (s3_faults s)\<rparr>)"
  | "err \<noteq> None" and "s' = s\<lparr>s3_faults := tl (s3_faults s)\<rparr>"
  using assms by (auto simp: s3_try_def Let_def split: list.splits s3_fault.splits)

lemma s3_try_None: "s3_try f s = (None, s') \<Longrightarrow> s' = f (s\<lparr>s3_faults := tl (s3_faults s)\<rparr>)"
  by (auto elim: s3_try_cases)

interpretation scheduled: s3_service scheduled_api s3_objects s3_buckets
proof unfold_locales
  fix bk k d ct s e s'
  assume "PutObject scheduled_api bk k d ct s = (Some e, s')"
  then show "s3_objects s' bk = s3_objects s bk \<or> s3_objects s' bk = (s3_objects s bk)(k \<mapsto> d)"
    by (auto simp: scheduled_api_def elim: s3_try_cases)
next
  fix bk k s e s'
  assume "DeleteObject scheduled_api bk k s = (Some e, s')"
  then show "s3_objects s' bk = s3_objects s bk \<or> s3_objects s' bk = (s3_objects s bk)(k := None)"
    by (auto simp: scheduled_api_def elim: s3_try_cases)
next
  fix bk k s r s'
  assume "GetObject scheduled_api bk k s = (r, s')"
  then show "s3_objects s' = s3_objects s"
    by (auto simp: scheduled_api_def elim: s3_try_cases split: prod.splits option.splits)
next
  fix bk k s data s'
  assume "GetObject scheduled_api bk k s = (Inr (Inr data), s')"
  then show "s3_objects s bk k = Some data"
    by (auto simp: scheduled_api_def split: prod.splits option.splits)
next
  fix bk s err s'
  assume "HeadBucket scheduled_api bk s = (err, s')"
  then show "(err = None \<longrightarrow> bk \<in> s3_buckets s') \<and> s3_buckets s' = s3_buckets s"
    by (auto simp: scheduled_api_def elim: s3_try_cases split: prod.splits option.splits if_splits)
qed (auto simp: scheduled_api_def dest: s3_try_None)

interpretation scheduled_up: healthy_s3 scheduled_api s3_objects s3_buckets "\<lambda>s. s3_faults s = []"
  by unfold_locales
    (auto simp: scheduled_api_def s3_try_def Let_def split: prod.splits option.splits)

interpretation scheduled_client: s3_client scheduled_api s3_objects s3_buckets c for c
  by unfold_locales

section \<open>The test double\<close>

text \<open>\<open>fakeObjects\<close> of the worker's tests: a Go map of files.\<close>

type_synonym fake_objects = "string \<Rightarrow> bytes option"

definition fake_Upload :: "string \<Rightarrow> reader \<Rightarrow> string \<Rightarrow> fake_objects \<Rightarrow> go_error option \<times> fake_objects" where
  "fake_Upload key reader ct f =
     (case reader of
        Inl err \<Rightarrow> (Some err, f)
      | Inr data \<Rightarrow> (None, f(key \<mapsto> data)))"

definition fake_Download :: "string \<Rightarrow> fake_objects \<Rightarrow> (go_error + bytes) \<times> fake_objects" where
  "fake_Download key f =
     (case f key of
        None \<Rightarrow> (Inl (ErrText ''EOF''), f)
      | Some data \<Rightarrow> (Inr data, f))"

fun fake_Delete :: "string list \<Rightarrow> fake_objects \<Rightarrow> go_error option \<times> fake_objects" where
  "fake_Delete [] f = (None, f)"
| "fake_Delete (key # keys) f = fake_Delete keys (f(key := None))"

lemma fake_Delete_eq: "fake_Delete ks f = (None, \<lambda>k. if k \<in> set ks then None else f k)"
  by (induction ks arbitrary: f) (auto simp: fun_eq_iff)

interpretation fake: healthy_objects fake_Upload fake_Delete "\<lambda>f. f" fake_Download "\<lambda>_. True"
  by unfold_locales
    (auto simp: fake_Upload_def fake_Download_def fake_Delete_eq split: sum.splits option.splits)

section \<open>Properties of the client\<close>

text \<open>
  C23: Over any S3 service with the documented behaviour, what the client uploaded is what a later
  successful download returns, and a successful \<open>Delete\<close> of a list of keys removes exactly the
  non-empty keys of the list; one that stops at an error has removed some of them and touched no other
  object.
\<close>

theorem client_roundtrip:
  assumes "s3_service api stored buckets"
    and "client_Upload api c k (NewReader data) ct s = (None, s1)"
    and "client_Download api c k s1 = (Inr data', s2)"
    and "client_Delete api c ks s2 = (err, s3)" and "k' \<noteq> ''''"
  shows "data' = data \<and> (stored s3 (bucket c) k' = stored s2 (bucket c) k' \<or>
      k' \<in> set ks \<and> stored s3 (bucket c) k' = None) \<and>
    (err = None \<longrightarrow> k' \<in> set ks \<longrightarrow> stored s3 (bucket c) k' = None)"
proof -
  have r: "object_reader (client_Upload api c) (client_Delete api c)
      (\<lambda>s. stored s (bucket c)) (client_Download api c)"
    using assms(1) by (intro s3_client.client_reader s3_client.intro)
  then have o: "object_store (client_Upload api c) (client_Delete api c) (\<lambda>s. stored s (bucket c))"
    by (rule object_reader.axioms)
  have "stored s1 (bucket c) k = Some data"
    using object_store.upload_done [OF o assms(2) [unfolded NewReader_def]] by simp
  moreover have "stored s1 (bucket c) k = Some data'"
    by (rule object_reader.download_data [OF r assms(3)])
  ultimately show ?thesis
    using object_store.delete_failed [OF o assms(4,5)] object_store.delete_done [OF o _ assms(5)] assms(4)
    by auto
qed

theorem client_roundtrip_witness:
  "let c = \<lparr>bucket = ''avatars'', publicEndpoint = ''''\<rparr>;
       s = \<lparr>s3_objects = \<lambda>_ _. None, s3_buckets = {}, s3_faults = [S3Ok, S3Ok, S3Fail ''down'']\<rparr>;
       s1 = snd (client_Upload scheduled_api c ''k'' (NewReader [1, 2]) ''image/png'' s);
       s2 = snd (client_Download scheduled_api c ''k'' s1);
       s3 = snd (client_Delete scheduled_api c [''k''] s2)
   in s3_objects s3 ''avatars'' ''k'' = Some [1, 2] \<and> s3_faults s3 = []"
proof -
  let ?c = "\<lparr>bucket = ''avatars'', publicEndpoint = ''''\<rparr>"
  let ?s = "\<lparr>s3_objects = \<lambda>_ _. None, s3_buckets = {}, s3_faults = [S3Ok, S3Ok, S3Fail ''down'']\<rparr>"
  let ?s1 = "snd (client_Upload scheduled_api ?c ''k'' (NewReader [1, 2]) ''image/png'' ?s)"
  let ?s2 = "snd (client_Download scheduled_api ?c ''k'' ?s1)"
  let ?s3 = "snd (client_Delete scheduled_api ?c [''k''] ?s2)"
  have up: "client_Upload scheduled_api ?c ''k'' (NewReader [1, 2]) ''image/png'' ?s = (None, ?s1)"
    by (simp add: client_Upload_def NewReader_def scheduled_api_def s3_try_def Let_def)
  have down: "client_Download scheduled_api ?c ''k'' ?s1 = (Inr [1, 2], ?s2)"
    by (simp add: client_Upload_def client_Download_def NewReader_def scheduled_api_def s3_try_def
        s3_put_def Let_def)
  have del: "client_Delete scheduled_api ?c [''k''] ?s2
      = (Some (Wrapped ''delete object k'' (ErrText ''down'')), ?s3)"
    by (simp add: client_Upload_def client_Download_def NewReader_def scheduled_api_def s3_try_def
        s3_put_def Let_def)
  have "s3_objects ?s3 ''avatars'' ''k'' = Some [1, 2] \<and> s3_faults ?s3 = []"
    by (simp add: client_Upload_def client_Download_def NewReader_def scheduled_api_def s3_try_def
        s3_put_def Let_def)
  with client_roundtrip [OF scheduled.s3_service_axioms up down del, of "''k''"]
  show ?thesis unfolding Let_def by blast
qed

end
