(* ===== verification/Processor.thy ===== *)
theory Processor
  imports Object_Store "HOL-Library.Signed_Division"
begin

text \<open>
  Image processing, \<open>internal/processor/image.go\<close>. An image is its bounds and its pixels; the decoders,
  the PNG encoder and the resampling kernel are the parameter \<open>codec\<close>. The sides of an image are
  integers; the products of the resizing wrap around as those of Go's 64-bit \<open>int\<close>, and its division
  truncates. Lemma \<open>resize_no_overflow\<close> shows that no product wraps for an image that \<open>Process\<close> admits.
\<close>

definition MaxOriginalSize :: int where "MaxOriginalSize = 512"
definition ThumbSize :: int where "ThumbSize = 128"
definition MaxDimension :: int where "MaxDimension = 4096"

lemmas size_consts = MaxOriginalSize_def ThumbSize_def MaxDimension_def

text \<open>\<open>image.Rectangle\<close> and \<open>image.Image\<close>; \<open>Dx\<close> and \<open>Dy\<close> are its width and height.\<close>

record 'px image =
  min_x :: int
  min_y :: int
  max_x :: int
  max_y :: int
  pixels :: 'px

definition Dx :: "('px, 'z) image_scheme \<Rightarrow> int" where "Dx img = max_x img - min_x img"
definition Dy :: "('px, 'z) image_scheme \<Rightarrow> int" where "Dy img = max_y img - min_y img"

text \<open>
  The parameters: \<open>jpeg.Decode\<close>, \<open>png.Decode\<close>, \<open>image.Decode\<close> (with the name of the registered format
  that recognised the data), \<open>draw.CatmullRom.Scale\<close> of a source image onto a new image of a given
  width and height, and \<open>png.Encode\<close>.
\<close>

record 'px codec =
  jpeg_Decode :: "bytes \<Rightarrow> go_error + 'px image"
  png_Decode :: "bytes \<Rightarrow> go_error + 'px image"
  image_Decode :: "bytes \<Rightarrow> go_error + ('px image \<times> string)"
  CatmullRom_Scale :: "int \<Rightarrow> int \<Rightarrow> 'px image \<Rightarrow> 'px"
  png_Encode :: "'px image \<Rightarrow> go_error + bytes"

record ProcessedImage =
  OriginalPNG :: bytes
  ThumbnailPNG :: bytes
  img_Width :: int
  img_Height :: int
  img_ContentType :: string
  img_SizeBytes :: int64

definition decodeImage :: "'px codec \<Rightarrow> bytes \<Rightarrow> go_error + (string \<times> 'px image)" where
  "decodeImage codec data =
     (if length data \<ge> 3 \<and> data ! 0 = 0xFF \<and> data ! 1 = 0xD8 \<and> data ! 2 = 0xFF then
        (case jpeg_Decode codec data of Inl err \<Rightarrow> Inl err | Inr img \<Rightarrow> Inr (''image/jpeg'', img))
      else if length data \<ge> 8 \<and> data ! 0 = 0x89 \<and> data ! 1 = 0x50 \<and> data ! 2 = 0x4E \<and> data ! 3 = 0x47 then
        (case png_Decode codec data of Inl err \<Rightarrow> Inl err | Inr img \<Rightarrow> Inr (''image/png'', img))
      else
        (case image_Decode codec data of
           Inl err \<Rightarrow> Inl (ErrText ''unsupported or invalid image format'')
         | Inr (img, format) \<Rightarrow>
             (if format = ''jpeg'' \<or> format = ''png'' \<or> format = ''webp''
              then Inr (''image/'' @ format, img)
              else Inl (ErrText (''unsupported image format: '' @ format)))))"

text \<open>The size an image is scaled to, where it is scaled.\<close>

definition scaled_size :: "int \<Rightarrow> int \<Rightarrow> int \<Rightarrow> int \<times> int" where
  "scaled_size width height maxSize =
     (if width \<ge> height then
        (let newW = maxSize;
             newH = int_mul height maxSize sdiv width;
             newH = (if newH < 1 then 1 else newH)
         in (newW, newH))
      else
        (let newH = maxSize;
             newW = int_mul width maxSize sdiv height;
             newW = (if newW < 1 then 1 else newW)
         in (newW, newH)))"

definition resizeImage :: "'px codec \<Rightarrow> 'px image \<Rightarrow> int \<Rightarrow> 'px image" where
  "resizeImage codec src maxSize =
     (let width = Dx src; height = Dy src
      in if width \<le> maxSize \<and> height \<le> maxSize then src
         else case scaled_size width height maxSize of
           (newW, newH) \<Rightarrow>
             \<lparr>min_x = 0, min_y = 0, max_x = newW, max_y = newH,
              pixels = CatmullRom_Scale codec newW newH src\<rparr>)"

definition encodePNG :: "'px codec \<Rightarrow> 'px image \<Rightarrow> go_error + bytes" where
  "encodePNG codec img =
     (case png_Encode codec img of
        Inl err \<Rightarrow> Inl (Wrapped ''encode png'' err)
      | Inr buf \<Rightarrow> Inr buf)"

definition Process :: "'px codec \<Rightarrow> reader \<Rightarrow> go_error + ProcessedImage" where
  "Process codec reader =
     (case reader of
        Inl err \<Rightarrow> Inl (Wrapped ''read image'' err)
      | Inr data \<Rightarrow>
        if length data = 0 then Inl (ErrText ''empty image'')
        else case decodeImage codec data of
          Inl err \<Rightarrow> Inl err
        | Inr (contentType, img) \<Rightarrow>
          (let width = Dx img; height = Dy img
           in if width > MaxDimension \<or> height > MaxDimension
              then Inl (ErrText ''image dimensions exceed maximum 4096'')
              else if width < 1 \<or> height < 1 then Inl (ErrText ''invalid image dimensions'')
              else
                (let original = resizeImage codec img MaxOriginalSize;
                     thumb = resizeImage codec img ThumbSize
                 in case encodePNG codec original of
                      Inl err \<Rightarrow> Inl err
                    | Inr originalPNG \<Rightarrow>
                      (case encodePNG codec thumb of
                         Inl err \<Rightarrow> Inl err
                       | Inr thumbPNG \<Rightarrow>
                         Inr \<lparr>OriginalPNG = originalPNG, ThumbnailPNG = thumbPNG,
                              img_Width = Dx original, img_Height = Dy original,
                              img_ContentType = contentType,
                              img_SizeBytes = int64_of (int (length originalPNG))\<rparr>))))"

section \<open>Dimensions after resizing\<close>

lemma sdiv_pos: "0 \<le> a \<Longrightarrow> 0 < b \<Longrightarrow> a sdiv b = a div (b :: int)"
  by (cases "a = 0") (simp_all add: signed_divide_int_def)

lemma div_bounds: "0 \<le> a \<Longrightarrow> 1 \<le> b \<Longrightarrow> 0 \<le> a div b \<and> a div b \<le> (a :: int)"
  using zdiv_mono2 [of a 1 b] by (simp add: pos_imp_zdiv_nonneg_iff)

text \<open>The reference: the longer side becomes the limit, the shorter keeps the ratio, rounded down, at least 1.\<close>

definition fit :: "int \<Rightarrow> int \<Rightarrow> int \<Rightarrow> int \<times> int" where
  "fit maxSize width height =
     (let longer = max width height
      in if longer \<le> maxSize then (width, height)
         else (max 1 (width * maxSize div longer), max 1 (height * maxSize div longer)))"

lemma resize_dims:
  assumes "1 \<le> Dx src" "1 \<le> Dy src" "1 \<le> m" "Dx src * m \<le> MaxInt64" "Dy src * m \<le> MaxInt64"
  shows "(Dx (resizeImage codec src m), Dy (resizeImage codec src m)) = fit m (Dx src) (Dy src)"
proof -
  have "0 \<le> Dx src * m" "0 \<le> Dy src * m" using assms by simp_all
  then have "fits_int64 (Dx src * m)" "fits_int64 (Dy src * m)" using assms(4,5) by (auto simp: fits_int64_def)
  then have mul: "int_mul (Dx src) m = Dx src * m" "int_mul (Dy src) m = Dy src * m"
    by (simp_all add: int_mul_fits)
  show ?thesis
  proof (cases "Dx src \<ge> Dy src")
    case True
    with assms have "max (Dx src) (Dy src) = Dx src" "Dx src * m div Dx src = m"
        "(Dy src * m) sdiv Dx src = Dy src * m div Dx src"
      by (auto simp: sdiv_pos)
    with True assms mul show ?thesis
      by (auto simp: resizeImage_def scaled_size_def fit_def Let_def Dx_def Dy_def)
  next
    case False
    with assms have "max (Dx src) (Dy src) = Dy src" "Dy src * m div Dy src = m"
        "(Dx src * m) sdiv Dy src = Dx src * m div Dy src"
      by (auto simp: sdiv_pos)
    with False assms mul show ?thesis
      by (auto simp: resizeImage_def scaled_size_def fit_def Let_def Dx_def Dy_def)
  qed
qed

text \<open>
  No product of the resizing wraps around for the sides that \<open>Process\<close> admits (1 to \<open>MaxDimension\<close>) and
  both limits: they are at most \<open>2^21\<close>, and so fit a 32-bit \<open>int\<close>, too.
\<close>

lemma resize_no_overflow:
  assumes "1 \<le> x" "x \<le> MaxDimension" and "m \<in> {MaxOriginalSize, ThumbSize}"
  shows "0 < x * m" "x * m \<le> 2 ^ 21" "int_mul x m = x * m"
proof -
  have m: "0 < m" "m \<le> 512" using assms(3) by (auto simp: size_consts)
  then have "x * m \<le> 4096 * 512" using assms by (intro mult_mono) (auto simp: size_consts)
  moreover show "0 < x * m" using assms m by auto
  ultimately show "x * m \<le> 2 ^ 21" "int_mul x m = x * m"
    by (simp_all add: int_mul_fits fits_int64_def)
qed

lemma fit_bounds:
  assumes "1 \<le> w" "1 \<le> h" "1 \<le> m" and "fit m w h = (w', h')"
  shows "1 \<le> w'" "w' \<le> m" "w' \<le> w" "1 \<le> h'" "h' \<le> m" "h' \<le> h"
proof -
  have le: "x * m div longer \<le> m" "x * m div longer \<le> x"
    if "x \<le> longer" "1 \<le> x" "m \<le> longer" for x longer
  proof -
    have pos: "0 < longer" using that by simp
    have "x * m div longer \<le> longer * m div longer"
      using that assms pos by (intro zdiv_mono1) (simp_all add: mult_right_mono)
    with pos show "x * m div longer \<le> m" by simp
    have "x * m div longer \<le> x * longer div longer"
      using that assms pos by (intro zdiv_mono1) simp_all
    with pos show "x * m div longer \<le> x" by simp
  qed
  have "1 \<le> w' \<and> w' \<le> m \<and> w' \<le> w \<and> 1 \<le> h' \<and> h' \<le> m \<and> h' \<le> h"
  proof (cases "max w h \<le> m")
    case True
    then have "w' = w" "h' = h" using assms(4) by (simp_all add: fit_def Let_def)
    with True assms show ?thesis by simp
  next
    case False
    then have "w' = max 1 (w * m div max w h)" "h' = max 1 (h * m div max w h)"
      using assms(4) by (simp_all add: fit_def Let_def del: max.bounded_iff)
    moreover from False have "m \<le> max w h" by linarith
    ultimately show ?thesis using assms le [of w "max w h"] le [of h "max w h"] by simp
  qed
  then show "1 \<le> w'" "w' \<le> m" "w' \<le> w" "1 \<le> h'" "h' \<le> m" "h' \<le> h" by simp_all
qed

lemma fit_id: "max w h \<le> m \<Longrightarrow> fit m w h = (w, h)"
  by (simp add: fit_def Let_def)

text \<open>
  C22: Resizing. For an image with at least one pixel on each side, whose products with the limit fit an
  \<open>int64\<close> (as they do for every image that \<open>Process\<close> admits), the resized image has the size of the
  reference \<open>fit\<close>: unchanged within the limit, else the longer side is exactly the limit and the shorter
  is scaled in proportion, rounded down, never below 1. It never grows on either side, fits the limit on
  both, and resizing it again is the identity.
\<close>

theorem resize_fits:
  assumes "1 \<le> Dx src" and "1 \<le> Dy src" and "1 \<le> m"
    and "Dx src * m \<le> MaxInt64" and "Dy src * m \<le> MaxInt64"
  shows "(Dx (resizeImage codec src m), Dy (resizeImage codec src m)) = fit m (Dx src) (Dy src) \<and>
    1 \<le> Dx (resizeImage codec src m) \<and> Dx (resizeImage codec src m) \<le> min m (Dx src) \<and>
    1 \<le> Dy (resizeImage codec src m) \<and> Dy (resizeImage codec src m) \<le> min m (Dy src) \<and>
    resizeImage codec (resizeImage codec src m) m = resizeImage codec src m"
proof -
  note d = resize_dims [OF assms, of codec]
  note b = fit_bounds [OF assms(1-3) d [symmetric]]
  have "resizeImage codec (resizeImage codec src m) m = resizeImage codec src m"
    unfolding resizeImage_def [of codec "resizeImage codec src m"] using b by (simp add: Let_def)
  with d b show ?thesis by simp
qed

definition flat_codec :: "unit codec" where
  "flat_codec =
     \<lparr>jpeg_Decode = (\<lambda>_. Inl (ErrText ''bad jpeg'')),
      png_Decode = (\<lambda>d. Inr \<lparr>min_x = 0, min_y = 0, max_x = 200, max_y = 100, pixels = ()\<rparr>),
      image_Decode = (\<lambda>d. if d = [9] then Inr (\<lparr>min_x = 0, min_y = 0, max_x = 5000, max_y = 1, pixels = ()\<rparr>, ''webp'')
                          else Inl (ErrText ''unknown format'')),
      CatmullRom_Scale = (\<lambda>_ _ _. ()),
      png_Encode = (\<lambda>img. Inr [word_of_int (Dx img), word_of_int (Dy img)])\<rparr>"

theorem resize_fits_witness:
  "let src = \<lparr>min_x = 10, min_y = 10, max_x = 1034, max_y = 11, pixels = ()\<rparr>
   in Dx (resizeImage flat_codec src 512) = 512 \<and> Dy (resizeImage flat_codec src 512) = 1"
  using resize_fits [of "\<lparr>min_x = 10, min_y = 10, max_x = 1034, max_y = 11, pixels = ()\<rparr>" 512 flat_codec]
  by (simp add: Dx_def Dy_def fit_def Let_def)

section \<open>What \<open>Process\<close> accepts and produces\<close>

lemma decodeImage_type:
  "decodeImage codec data = Inr (ct, img) \<Longrightarrow> ct \<in> {''image/jpeg'', ''image/png'', ''image/webp''}"
  by (auto simp: decodeImage_def split: if_splits sum.splits)

lemma Process_Inr:
  assumes "Process codec r = Inr p"
  obtains data ct img where "r = Inr data" "data \<noteq> []" "decodeImage codec data = Inr (ct, img)"
    "1 \<le> Dx img" "Dx img \<le> MaxDimension" "1 \<le> Dy img" "Dy img \<le> MaxDimension"
    "encodePNG codec (resizeImage codec img MaxOriginalSize) = Inr (OriginalPNG p)"
    "encodePNG codec (resizeImage codec img ThumbSize) = Inr (ThumbnailPNG p)"
    "img_Width p = Dx (resizeImage codec img MaxOriginalSize)"
    "img_Height p = Dy (resizeImage codec img MaxOriginalSize)"
    "img_ContentType p = ct" "img_SizeBytes p = int64_of (int (length (OriginalPNG p)))"
  using assms by (auto simp: Process_def Let_def split: sum.splits if_splits prod.splits)

lemma Process_fields:
  assumes "Process codec r = Inr p"
  shows "img_ContentType p \<in> {''image/jpeg'', ''image/png'', ''image/webp''} \<and>
    0 \<le> img_Width p \<and> img_Width p \<le> 4096 \<and> 0 \<le> img_Height p \<and> img_Height p \<le> 4096"
  using assms
proof (rule Process_Inr)
  fix data ct img
  assume a: "decodeImage codec data = Inr (ct, img)"
    "1 \<le> Dx img" "Dx img \<le> MaxDimension" "1 \<le> Dy img" "Dy img \<le> MaxDimension"
    "img_Width p = Dx (resizeImage codec img MaxOriginalSize)"
    "img_Height p = Dy (resizeImage codec img MaxOriginalSize)" "img_ContentType p = ct"
  have fit: "(img_Width p, img_Height p) = fit 512 (Dx img) (Dy img)"
    using resize_dims [of img 512 codec] a resize_no_overflow(2) [of "Dx img" 512]
      resize_no_overflow(2) [of "Dy img" 512] by (simp add: size_consts)
  show ?thesis using fit_bounds [OF a(2,4) _ fit [symmetric]] decodeImage_type [OF a(1)] a(8) by simp
qed

text \<open>
  C21: What \<open>Process\<close> produces. On success the input was a non-empty image of one of the three
  supported types with sides from 1 to 4096; the stored image is the PNG of the source resized to at
  most 512 pixels and the thumbnail the PNG of the source (not of the stored image) resized to at most
  128; the reported width, height and size are those of the stored image, and the reported content
  type is that of the source.
\<close>

theorem Process_result:
  assumes "Process codec r = Inr p"
  shows "\<exists>data ct img. r = Inr data \<and> data \<noteq> [] \<and> decodeImage codec data = Inr (ct, img) \<and>
    1 \<le> Dx img \<and> Dx img \<le> 4096 \<and> 1 \<le> Dy img \<and> Dy img \<le> 4096 \<and>
    img_ContentType p = ct \<and> ct \<in> {''image/jpeg'', ''image/png'', ''image/webp''} \<and>
    png_Encode codec (resizeImage codec img 512) = Inr (OriginalPNG p) \<and>
    png_Encode codec (resizeImage codec img 128) = Inr (ThumbnailPNG p) \<and>
    (img_Width p, img_Height p) = fit 512 (Dx img) (Dy img) \<and>
    1 \<le> img_Width p \<and> img_Width p \<le> 512 \<and> 1 \<le> img_Height p \<and> img_Height p \<le> 512 \<and>
    img_SizeBytes p = int64_of (int (length (OriginalPNG p)))"
  using assms
proof (rule Process_Inr)
  fix data ct img
  assume a: "r = Inr data" "data \<noteq> []" "decodeImage codec data = Inr (ct, img)"
    "1 \<le> Dx img" "Dx img \<le> MaxDimension" "1 \<le> Dy img" "Dy img \<le> MaxDimension"
    "encodePNG codec (resizeImage codec img MaxOriginalSize) = Inr (OriginalPNG p)"
    "encodePNG codec (resizeImage codec img ThumbSize) = Inr (ThumbnailPNG p)"
    "img_Width p = Dx (resizeImage codec img MaxOriginalSize)"
    "img_Height p = Dy (resizeImage codec img MaxOriginalSize)"
    "img_ContentType p = ct" "img_SizeBytes p = int64_of (int (length (OriginalPNG p)))"
  have fit: "(img_Width p, img_Height p) = fit 512 (Dx img) (Dy img)"
    using resize_dims [of img 512 codec] a resize_no_overflow(2) [of "Dx img" 512]
      resize_no_overflow(2) [of "Dy img" 512] by (simp add: size_consts)
  show ?thesis
    using a fit fit_bounds [OF a(4,6) _ fit [symmetric]] decodeImage_type [OF a(3)]
    by (intro exI [of _ data] exI [of _ ct] exI [of _ img])
      (auto simp: size_consts encodePNG_def split: sum.splits)
qed

theorem Process_result_witness:
  "\<exists>data ct img. (Inr [0x89, 0x50, 0x4E, 0x47, 0, 0, 0, 0] :: reader) = Inr data \<and>
     decodeImage flat_codec data = Inr (ct, img) \<and> (200, 100) = fit 512 (Dx img) (Dy img)"
proof -
  have "Process flat_codec (Inr [0x89, 0x50, 0x4E, 0x47, 0, 0, 0, 0])
      = Inr \<lparr>OriginalPNG = [200, 100], ThumbnailPNG = [128, 64], img_Width = 200, img_Height = 100,
             img_ContentType = ''image/png'', img_SizeBytes = 2\<rparr>"
    by (simp add: Process_def decodeImage_def flat_codec_def resizeImage_def encodePNG_def
        scaled_size_def int_mul_def signed_divide_int_def size_consts Dx_def Dy_def Let_def)
  from Process_result [OF this] show ?thesis by auto
qed

end
