(* ===== verification/Worker.thy ===== *)
theory Worker
  imports Consumer Processor
begin

text \<open>
  The worker's handler of one message, \<open>Service.Handle\<close> of \<open>internal/worker/service.go\<close>, on the storage
  and the object store. The \<open>i\<close>-th reading of the clock by the storage during the call is \<open>clk i\<close>.
  Errors of the calls written \<open>_ = ...\<close> in Go are dropped, their effects are not.
\<close>

section \<open>Object keys\<close>

definition original_key :: "string \<Rightarrow> string" where [key_defs]:
  "original_key u = ''avatars/'' @ u @ ''/original.png''"

definition thumb_key :: "string \<Rightarrow> string" where [key_defs]:
  "thumb_key u = ''avatars/'' @ u @ ''/thumb.png''"

definition staging_key :: "string \<Rightarrow> string \<Rightarrow> string" where [key_defs]:
  "staging_key u messageID = ''staging/'' @ u @ ''/'' @ messageID"

lemma key_nonempty [simp]:
  "original_key u \<noteq> ''''" "thumb_key u \<noteq> ''''" "staging_key u m \<noteq> ''''"
  "'''' \<noteq> original_key u" "'''' \<noteq> thumb_key u" "'''' \<noteq> staging_key u m"
  by (simp_all add: key_defs)

lemma key_inj [simp]:
  "original_key u = original_key u' \<longleftrightarrow> u = u'" "thumb_key u = thumb_key u' \<longleftrightarrow> u = u'"
  by (auto simp: key_defs)

lemma staging_vs_final [simp]:
  "staging_key u m \<noteq> original_key u'" "staging_key u m \<noteq> thumb_key u'"
  "original_key u' \<noteq> staging_key u m" "thumb_key u' \<noteq> staging_key u m"
  by (simp_all add: key_defs)

lemma original_vs_thumb [simp]: "original_key u \<noteq> thumb_key u'" "thumb_key u' \<noteq> original_key u"
proof -
  have "rev (original_key u) \<noteq> rev (thumb_key u')" by (simp add: key_defs)
  then show "original_key u \<noteq> thumb_key u'" "thumb_key u' \<noteq> original_key u" by metis+
qed

lemma staging_key_inj:
  assumes "staging_key u m = staging_key u' m'" and "length m = length m'"
  shows "u = u' \<and> m = m'"
  using assms by (auto simp: key_defs)

section \<open>The handler\<close>

record 'o worker_objects =
  w_Upload :: "string \<Rightarrow> reader \<Rightarrow> string \<Rightarrow> 'o \<Rightarrow> go_error option \<times> 'o"
  w_Download :: "string \<Rightarrow> 'o \<Rightarrow> (go_error + bytes) \<times> 'o"
  w_Delete :: "string list \<Rightarrow> 'o \<Rightarrow> go_error option \<times> 'o"

text \<open>The error exits after a status update: the row is marked failed with the error's text.\<close>

definition fail_with ::
  "'s storage \<Rightarrow> time \<Rightarrow> string \<Rightarrow> go_error \<Rightarrow> 's \<times> 'o \<Rightarrow> go_error option \<times> 's \<times> 'o"
where
  "fail_with store now userID err st =
     (case st of (s, o') \<Rightarrow>
        case UpdateAvatarStatus store now userID StatusFailed (error_text err) s of
          (_, s) \<Rightarrow> (Some err, s, o'))"

definition Handle ::
  "'s storage \<Rightarrow> 'o worker_objects \<Rightarrow> 'px codec \<Rightarrow> (nat \<Rightarrow> time) \<Rightarrow> AvatarProcessMessage \<Rightarrow> 's \<times> 'o
    \<Rightarrow> go_error option \<times> 's \<times> 'o"
where
  "Handle store objs codec clk msg st =
     (case st of (s, ob) \<Rightarrow>
        case UpdateAvatarStatus store (clk 0) (msg_UserID msg) StatusProcessing '''' s of
          (Some err, s) \<Rightarrow> (Some (Wrapped ''update status'' err), s, ob)
        | (None, s) \<Rightarrow>
          (case w_Download objs (msg_StagingKey msg) ob of
             (Inl err, ob) \<Rightarrow> fail_with store (clk 1) (msg_UserID msg) err (s, ob)
           | (Inr data, ob) \<Rightarrow>
             (case Process codec (NewReader data) of
                Inl err \<Rightarrow> fail_with store (clk 1) (msg_UserID msg) err (s, ob)
              | Inr processed \<Rightarrow>
                (let originalKey = original_key (msg_UserID msg);
                     thumbKey = thumb_key (msg_UserID msg)
                 in case w_Upload objs originalKey (NewReader (OriginalPNG processed)) ''image/png'' ob of
                      (Some err, ob) \<Rightarrow> fail_with store (clk 1) (msg_UserID msg) err (s, ob)
                    | (None, ob) \<Rightarrow>
                      (case w_Upload objs thumbKey (NewReader (ThumbnailPNG processed)) ''image/png'' ob of
                         (Some err, ob) \<Rightarrow> fail_with store (clk 1) (msg_UserID msg) err (s, ob)
                       | (None, ob) \<Rightarrow>
                         (case MarkAvatarReady store (clk 1) (msg_UserID msg) originalKey thumbKey
                                 (img_ContentType processed) (img_SizeBytes processed)
                                 (img_Width processed) (img_Height processed) s of
                            (Some err, s) \<Rightarrow> (Some err, s, ob)
                          | (None, s) \<Rightarrow>
                            (case w_Delete objs [msg_StagingKey msg] ob of
                               (_, ob) \<Rightarrow> (None, s, ob))))))))"

text \<open>The handler as the consumer calls it; the delivery itself is not used.\<close>

definition service_handler ::
  "'s storage \<Rightarrow> 'o worker_objects \<Rightarrow> 'px codec \<Rightarrow> (nat \<Rightarrow> time) \<Rightarrow> ('s, 'o) DeliveryHandler"
where
  "service_handler store objs codec clk msg d st = Handle store objs codec clk msg st"

section \<open>What it does\<close>

text \<open>
  The exits of \<open>Handle\<close>, with the calls made on the way. \<open>fail_exit\<close> is the status update of the error
  exits, whatever it reports.
\<close>

definition fail_exit :: "'s storage \<Rightarrow> time \<Rightarrow> string \<Rightarrow> go_error \<Rightarrow> 's \<Rightarrow> 's \<Rightarrow> bool" where
  "fail_exit store now u e s s' \<longleftrightarrow> snd (UpdateAvatarStatus store now u StatusFailed (error_text e) s) = s'"

lemma fail_with_eq:
  "fail_with store now u e (s, ob) = (r, s', ob') \<longleftrightarrow> r = Some e \<and> ob' = ob \<and> fail_exit store now u e s s'"
  by (auto simp: fail_with_def fail_exit_def split: prod.split)

lemma Handle_cases:
  assumes "Handle store objs codec clk msg (s, ob) = (r, s', ob')"
  obtains (not_started) e where
      "UpdateAvatarStatus store (clk 0) (msg_UserID msg) StatusProcessing '''' s = (Some e, s')"
      "r = Some (Wrapped ''update status'' e)" "ob' = ob"
  | (no_input) s1 e where
      "UpdateAvatarStatus store (clk 0) (msg_UserID msg) StatusProcessing '''' s = (None, s1)"
      "w_Download objs (msg_StagingKey msg) ob = (Inl e, ob')"
      "r = Some e" "fail_exit store (clk 1) (msg_UserID msg) e s1 s'"
  | (bad_input) s1 data e where
      "UpdateAvatarStatus store (clk 0) (msg_UserID msg) StatusProcessing '''' s = (None, s1)"
      "w_Download objs (msg_StagingKey msg) ob = (Inr data, ob')" "Process codec (NewReader data) = Inl e"
      "r = Some e" "fail_exit store (clk 1) (msg_UserID msg) e s1 s'"
  | (no_original) s1 data ob1 p e where
      "UpdateAvatarStatus store (clk 0) (msg_UserID msg) StatusProcessing '''' s = (None, s1)"
      "w_Download objs (msg_StagingKey msg) ob = (Inr data, ob1)" "Process codec (NewReader data) = Inr p"
      "w_Upload objs (original_key (msg_UserID msg)) (NewReader (OriginalPNG p)) ''image/png'' ob1
        = (Some e, ob')"
      "r = Some e" "fail_exit store (clk 1) (msg_UserID msg) e s1 s'"
  | (no_thumb) s1 data ob1 p ob2 e where
      "UpdateAvatarStatus store (clk 0) (msg_UserID msg) StatusProcessing '''' s = (None, s1)"
      "w_Download objs (msg_StagingKey msg) ob = (Inr data, ob1)" "Process codec (NewReader data) = Inr p"
      "w_Upload objs (original_key (msg_UserID msg)) (NewReader (OriginalPNG p)) ''image/png'' ob1
        = (None, ob2)"
      "w_Upload objs (thumb_key (msg_UserID msg)) (NewReader (ThumbnailPNG p)) ''image/png'' ob2
        = (Some e, ob')"
      "r = Some e" "fail_exit store (clk 1) (msg_UserID msg) e s1 s'"
  | (stored) s1 data ob1 p ob2 ob3 where
      "UpdateAvatarStatus store (clk 0) (msg_UserID msg) StatusProcessing '''' s = (None, s1)"
      "w_Download objs (msg_StagingKey msg) ob = (Inr data, ob1)" "Process codec (NewReader data) = Inr p"
      "w_Upload objs (original_key (msg_UserID msg)) (NewReader (OriginalPNG p)) ''image/png'' ob1
        = (None, ob2)"
      "w_Upload objs (thumb_key (msg_UserID msg)) (NewReader (ThumbnailPNG p)) ''image/png'' ob2
        = (None, ob3)"
      "MarkAvatarReady store (clk 1) (msg_UserID msg) (original_key (msg_UserID msg))
        (thumb_key (msg_UserID msg)) (img_ContentType p) (img_SizeBytes p) (img_Width p) (img_Height p) s1
        = (r, s')"
      "if r = None then snd (w_Delete objs [msg_StagingKey msg] ob3) = ob' else ob' = ob3"
  using assms unfolding Handle_def Let_def
  by (clarsimp simp: fail_with_eq split: prod.splits option.splits sum.splits) (blast+)?

text \<open>The storage and the objects the worker runs on.\<close>

locale worker_env = st: storage_contract store view +
    ob: object_reader "w_Upload objs" "w_Delete objs" content "w_Download objs"
  for store :: "'s storage" and view :: "'s \<Rightarrow> db_view"
    and objs :: "'o worker_objects" and content :: "'o \<Rightarrow> string \<Rightarrow> bytes option"
begin

lemma fail_exit_frame:
  assumes "fail_exit store now u e s s'"
  shows "seen (view s') = seen (view s) \<and> (u' \<noteq> u \<longrightarrow> rows (view s') u' = rows (view s) u') \<and>
    (rows (view s') u = None) = (rows (view s) u = None) \<and>
    view s' \<in> {view s, spec_status StatusFailed (error_text e) u (view s)}"
proof -
  obtain r where r: "UpdateAvatarStatus store now u StatusFailed (error_text e) s = (r, s')"
    using assms unfolding fail_exit_def by (metis prod.collapse)
  show ?thesis using st.status_frame [OF r] st.status [OF r] by (auto elim: settles_cases)
qed

text \<open>
  Whatever fails on the way, a message touches its own user's row and its own objects only, neither
  creates nor deletes a row, and does not touch the idempotency keys.
\<close>

lemma Handle_frame:
  assumes "Handle store objs codec clk msg (s, ob) = (r, s', ob')"
  shows "seen (view s') = seen (view s) \<and>
    (u' \<noteq> msg_UserID msg \<longrightarrow> rows (view s') u' = rows (view s) u') \<and>
    (rows (view s') u' = None) = (rows (view s) u' = None)"
  using assms
proof (cases rule: Handle_cases)
  case (not_started e)
  then show ?thesis using st.status_frame [OF not_started(1)] by (cases "u' = msg_UserID msg") auto
next
  case (no_input s1 e)
  then show ?thesis using st.status_frame [OF no_input(1)] fail_exit_frame [OF no_input(4)]
    by (cases "u' = msg_UserID msg") auto
next
  case (bad_input s1 data e)
  then show ?thesis using st.status_frame [OF bad_input(1)] fail_exit_frame [OF bad_input(5)]
    by (cases "u' = msg_UserID msg") auto
next
  case (no_original s1 data ob1 p e)
  then show ?thesis using st.status_frame [OF no_original(1)] fail_exit_frame [OF no_original(6)]
    by (cases "u' = msg_UserID msg") auto
next
  case (no_thumb s1 data ob1 p ob2 e)
  then show ?thesis using st.status_frame [OF no_thumb(1)] fail_exit_frame [OF no_thumb(7)]
    by (cases "u' = msg_UserID msg") auto
next
  case (stored s1 data ob1 p ob2 ob3)
  then show ?thesis using st.status_frame [OF stored(1)] st.ready_frame [OF stored(6)]
    by (cases "u' = msg_UserID msg") auto
qed

lemma upload_frame2:
  assumes "w_Upload objs k1 r1 t1 o1 = (e1, o2)" and "w_Upload objs k2 r2 t2 o2 = (e2, o3)"
    and "k \<noteq> k1" and "k \<noteq> k2"
  shows "content o3 k = content o1 k"
  using ob.upload_frame [OF assms(1,3)] ob.upload_frame [OF assms(2,4)] by simp

lemma Handle_objects:
  assumes "Handle store objs codec clk msg (s, ob) = (r, s', ob')"
    and "k \<notin> {'''', original_key (msg_UserID msg), thumb_key (msg_UserID msg)}"
    and "k = msg_StagingKey msg \<longrightarrow> r \<noteq> None"
  shows "content ob' k = content ob k"
  using assms(1)
proof (cases rule: Handle_cases)
  case (no_original s1 data ob1 p e)
  then show ?thesis using assms ob.download_same ob.upload_frame [OF no_original(4), of k] by auto
next
  case (no_thumb s1 data ob1 p ob2 e)
  then show ?thesis using assms ob.download_same upload_frame2 [OF no_thumb(4,5), of k] by auto
next
  case (stored s1 data ob1 p ob2 ob3)
  have "content ob3 k = content ob k"
    using assms stored ob.download_same upload_frame2 [OF stored(4,5), of k] by auto
  moreover have "content ob' k = content ob3 k"
  proof (cases r)
    case None
    then obtain e where "w_Delete objs [msg_StagingKey msg] ob3 = (e, ob')"
      using stored(7) by (metis prod.collapse)
    then show ?thesis using ob.delete_frame [of "[msg_StagingKey msg]" ob3 e ob' k] None assms by auto
  next
    case (Some e)
    then show ?thesis using stored(7) by simp
  qed
  ultimately show ?thesis by simp
qed (use assms ob.download_same in auto)

text \<open>What it means that \<open>Handle\<close> reports success.\<close>

lemma Handle_success:
  assumes "Handle store objs codec clk msg (s, ob) = (None, s', ob')"
    and "msg_StagingKey msg \<notin> {original_key (msg_UserID msg), thumb_key (msg_UserID msg)}"
  shows "\<exists>data p. content ob (msg_StagingKey msg) = Some data \<and> Process codec (NewReader data) = Inr p \<and>
    view s' = spec_ready (original_key (msg_UserID msg)) (thumb_key (msg_UserID msg))
      (img_ContentType p) (img_SizeBytes p) (img_Width p) (img_Height p) (msg_UserID msg) (view s) \<and>
    content ob' (original_key (msg_UserID msg)) = Some (OriginalPNG p) \<and>
    content ob' (thumb_key (msg_UserID msg)) = Some (ThumbnailPNG p)"
  using assms(1)
proof (cases rule: Handle_cases)
  case (stored s1 data ob1 p ob2 ob3)
  let ?u = "msg_UserID msg"
  have v1: "view s1 = spec_status StatusProcessing '''' ?u (view s)"
    using st.status [OF stored(1)] by simp
  have v: "view s' = spec_ready (original_key ?u) (thumb_key ?u) (img_ContentType p) (img_SizeBytes p)
      (img_Width p) (img_Height p) ?u (view s)"
    using st.ready [OF stored(6)] by (simp add: v1)
  have c3: "content ob3 (original_key ?u) = Some (OriginalPNG p)"
    "content ob3 (thumb_key ?u) = Some (ThumbnailPNG p)"
    using ob.upload_done [OF stored(4) [unfolded NewReader_def]]
      ob.upload_done [OF stored(5) [unfolded NewReader_def]] by simp_all
  obtain e where d: "w_Delete objs [msg_StagingKey msg] ob3 = (e, ob')"
    using stored(7) by (metis prod.collapse)
  have "content ob' k = content ob3 k" if "k \<in> {original_key ?u, thumb_key ?u}" for k
    using ob.delete_frame [OF d, of k] assms(2) that by auto
  with v c3 ob.download_data [OF stored(2)] stored(3) show ?thesis by auto
qed (use assms in auto)

text \<open>What a reported failure leaves in the row.\<close>

lemma Handle_failure:
  assumes "Handle store objs codec clk msg (s, ob) = (Some e, s', ob')"
    and "rows (view s) (msg_UserID msg) = Some a"
  shows "\<exists>a' \<in> {a, set_status StatusProcessing '''' a, set_status StatusFailed (error_text e) a}.
      rows (view s') (msg_UserID msg) = Some a' \<or>
    (\<exists>ct sz w h. rows (view s') (msg_UserID msg) =
       Some (set_ready (original_key (msg_UserID msg)) (thumb_key (msg_UserID msg)) ct sz w h a))"
proof -
  let ?u = "msg_UserID msg"
  have fe: "rows (view s') ?u \<in> {Some (set_status StatusProcessing '''' a),
      Some (set_status StatusFailed (error_text e) a)}"
    if "UpdateAvatarStatus store (clk 0) ?u StatusProcessing '''' s = (None, s1)"
      and "fail_exit store (clk 1) ?u e s1 s'" for s1
    using st.status [OF that(1)] fail_exit_frame [OF that(2), of ?u] assms(2)
    by (auto simp: set_status_def)
  show ?thesis
    using assms(1)
  proof (cases rule: Handle_cases)
    case (not_started e')
    then show ?thesis using st.status [OF not_started(1)] assms(2) by (auto elim!: settles_cases)
  next
    case (stored s1 data ob1 p ob2 ob3)
    have "view s1 = spec_status StatusProcessing '''' ?u (view s)"
      using st.status [OF stored(1)] by simp
    then show ?thesis
      using st.ready [OF stored(6)] assms(2)
      by (elim settles_cases) (auto simp: set_ready_def set_status_def)
  qed (use fe in auto)
qed

end

text \<open>Whatever the object store does, \<open>Handle\<close> leaves a healthy storage healthy.\<close>

context healthy_storage begin

lemma Handle_keeps_healthy:
  assumes "Handle ops objs codec clk msg (s, ob) = (r, s', ob')" and "healthy s"
  shows "healthy s'"
proof -
  have fail: "healthy s2" if "fail_exit ops now u e s1 s2" "healthy s1" for now u e s1 s2
  proof -
    have "snd (UpdateAvatarStatus ops now u StatusFailed (error_text e) s1) = s2"
      using that(1) by (simp add: fail_exit_def)
    then obtain x where "UpdateAvatarStatus ops now u StatusFailed (error_text e) s1 = (x, s2)"
      by (metis prod.collapse)
    from status_ok [OF that(2) this] show ?thesis by simp
  qed
  from assms(1) show ?thesis
  proof (cases rule: Handle_cases)
    case (not_started e)
    with status_ok [OF assms(2) not_started(1)] show ?thesis by simp
  next
    case (no_input s1 e)
    with status_ok [OF assms(2) no_input(1)] fail show ?thesis by blast
  next
    case (bad_input s1 data e)
    with status_ok [OF assms(2) bad_input(1)] fail show ?thesis by blast
  next
    case (no_original s1 data ob1 p e)
    with status_ok [OF assms(2) no_original(1)] fail show ?thesis by blast
  next
    case (no_thumb s1 data ob1 p ob2 e)
    with status_ok [OF assms(2) no_thumb(1)] fail show ?thesis by blast
  next
    case (stored s1 data ob1 p ob2 ob3)
    with status_ok [OF assms(2) stored(1)] ready_ok [OF _ stored(6)] show ?thesis by blast
  qed
qed

end

text \<open>The same on a storage and an object store that do not fail.\<close>

locale healthy_worker_env = hs: healthy_storage store view healthy str_ok dim_ok +
    ho: healthy_objects "w_Upload objs" "w_Delete objs" content "w_Download objs" ok
  for store :: "'s storage" and view :: "'s \<Rightarrow> db_view" and healthy :: "'s \<Rightarrow> bool"
    and str_ok :: "string \<Rightarrow> bool" and dim_ok :: "int \<Rightarrow> bool"
    and objs :: "'o worker_objects" and content :: "'o \<Rightarrow> string \<Rightarrow> bytes option" and ok :: "'o \<Rightarrow> bool"

sublocale healthy_worker_env \<subseteq> worker_env store view objs content
  by unfold_locales

context healthy_worker_env begin

text \<open>Whatever \<open>Handle\<close> writes into the row can be stored if the user id can.\<close>

lemma str_ok_keys: "str_ok u \<Longrightarrow> str_ok (original_key u) \<and> str_ok (thumb_key u)"
  unfolding key_defs
  by (intro conjI hs.str_ok_append) (simp_all add: hs.str_ok_ascii)

lemma storable_processed:
  assumes "Process codec r = Inr p"
  shows "str_ok (img_ContentType p)" and "dim_ok (img_Width p)" and "dim_ok (img_Height p)"
  using Process_fields [OF assms] by (auto intro!: hs.str_ok_ascii hs.dim_ok_small)

text \<open>On a healthy system a row with a staged upload that can be processed becomes ready.\<close>

lemma Handle_succeeds:
  assumes "healthy s" "ok ob" "rows (view s) (msg_UserID msg) \<noteq> None"
    and "content ob (msg_StagingKey msg) = Some data" "Process codec (NewReader data) = Inr p"
    and "Handle store objs codec clk msg (s, ob) = (r, s', ob')" and "str_ok (msg_UserID msg)"
  shows "r = None \<and> healthy s' \<and> ok ob' \<and>
    (msg_StagingKey msg \<noteq> '''' \<longrightarrow> content ob' (msg_StagingKey msg) = None)"
  using assms(6)
proof (cases rule: Handle_cases)
  case (not_started e)
  then show ?thesis using hs.status_ok [OF assms(1) not_started(1)] assms(3,7) by simp
next
  case (no_input s1 e)
  then show ?thesis using ho.download_ok [OF assms(2,4) no_input(2)] by simp
next
  case (bad_input s1 data' e)
  then show ?thesis using ho.download_ok [OF assms(2,4) bad_input(2)] assms(5) by simp
next
  case (no_original s1 data' ob1 p' e)
  then have "ok ob1" using ho.download_ok [OF assms(2,4) no_original(2)] by simp
  then show ?thesis using ho.upload_ok [OF _ no_original(4) [unfolded NewReader_def]] by simp
next
  case (no_thumb s1 data' ob1 p' ob2 e)
  then have "ok ob1" using ho.download_ok [OF assms(2,4) no_thumb(2)] by simp
  then have "ok ob2" using ho.upload_ok [OF _ no_thumb(4) [unfolded NewReader_def]] by simp
  then show ?thesis using ho.upload_ok [OF _ no_thumb(5) [unfolded NewReader_def]] by simp
next
  case (stored s1 data' ob1 p' ob2 ob3)
  have "ok ob1" using ho.download_ok [OF assms(2,4) stored(2)] by simp
  then have "ok ob2" using ho.upload_ok [OF _ stored(4) [unfolded NewReader_def]] by simp
  then have ok3: "ok ob3" using ho.upload_ok [OF _ stored(5) [unfolded NewReader_def]] by simp
  have "healthy s1" using hs.status_ok [OF assms(1) stored(1)] by simp
  moreover have "rows (view s1) (msg_UserID msg) \<noteq> None"
    using hs.status_frame(3) [OF stored(1)] assms(3) by simp
  moreover have "p' = p" using ho.download_ok [OF assms(2,4) stored(2)] stored(3) assms(5) by simp
  ultimately have r: "r = None" "healthy s'"
    using hs.ready_ok [OF _ stored(6)] assms(7) str_ok_keys storable_processed [OF assms(5)] by auto
  obtain e where d: "w_Delete objs [msg_StagingKey msg] ob3 = (e, ob')"
    using stored(7) r by (metis prod.collapse)
  have "e = None" "ok ob'" using ho.delete_ok [OF ok3 d] by simp_all
  with r d ho.delete_done [of "[msg_StagingKey msg]" ob3 ob' "msg_StagingKey msg"] show ?thesis by simp
qed

end

section \<open>The worker of the program\<close>

text \<open>The worker runs on PostgreSQL and S3; its tests run on \<open>MemStorage\<close> and \<open>fakeObjects\<close>.\<close>

definition client_worker_objects :: "'b s3_api \<Rightarrow> client \<Rightarrow> 'b worker_objects" where
  "client_worker_objects api c =
     \<lparr>w_Upload = client_Upload api c, w_Download = client_Download api c, w_Delete = client_Delete api c\<rparr>"

definition fake_worker_objects :: "fake_objects worker_objects" where
  "fake_worker_objects = \<lparr>w_Upload = fake_Upload, w_Download = fake_Download, w_Delete = fake_Delete\<rparr>"

interpretation test_worker:
  healthy_worker_env mem_ops mem_view "\<lambda>_. True" "\<lambda>_. True" "\<lambda>_. True" fake_worker_objects "\<lambda>f. f" "\<lambda>_. True"
  by (rule healthy_worker_env.intro)
    (use mem.healthy_storage_axioms fake.healthy_objects_axioms in \<open>simp_all add: fake_worker_objects_def\<close>)

lemma client_worker_env:
  assumes "s3_service api stored buckets"
  shows "worker_env pg_ops pg_view (client_worker_objects api c) (\<lambda>s. stored s (bucket c))"
  using s3_client.client_reader [of api stored buckets c] assms pg.storage_contract_axioms
  by (simp add: worker_env_def client_worker_objects_def s3_client_def)

lemma healthy_client_worker_env:
  assumes "healthy_s3 api stored buckets up"
  shows "healthy_worker_env pg_ops pg_view (\<lambda>s. pg_faults s = []) text_ok fits_int32 (client_worker_objects api c)
    (\<lambda>s. stored s (bucket c)) up"
  using healthy_s3.healthy_client [OF assms] pg.healthy_storage_axioms
  by (simp add: healthy_worker_env_def client_worker_objects_def)

text \<open>A message and a world for the witnesses: a pending row of user \<open>u\<close> with a staged PNG.\<close>

definition demo_client :: client where "demo_client = \<lparr>bucket = ''avatars'', publicEndpoint = ''''\<rparr>"

definition demo_msg :: AvatarProcessMessage where
  "demo_msg = \<lparr>msg_MessageID = ''m1'', msg_UserID = ''u'', msg_StagingKey = staging_key ''u'' ''m1''\<rparr>"

definition demo_png :: bytes where "demo_png = [0x89, 0x50, 0x4E, 0x47, 0, 0, 0, 0]"

definition demo_pg :: "fault list \<Rightarrow> pg" where
  "demo_pg fs =
     snd (pg_UpsertAvatar 1
       (zero_avatar\<lparr>UserID := ''u'', Status := StatusPending, StagingKey := staging_key ''u'' ''m1'',
          MessageID := ''m1''\<rparr>)
       (empty_pg\<lparr>pg_faults := NoFault # fs\<rparr>))"

definition demo_s3 :: "s3_fault list \<Rightarrow> s3_state" where
  "demo_s3 fs =
     \<lparr>s3_objects = (\<lambda>_. [staging_key ''u'' ''m1'' \<mapsto> demo_png]), s3_buckets = {''avatars''},
      s3_faults = fs\<rparr>"

definition demo_processed :: ProcessedImage where
  "demo_processed =
     \<lparr>OriginalPNG = [200, 100], ThumbnailPNG = [128, 64], img_Width = 200, img_Height = 100,
      img_ContentType = ''image/png'', img_SizeBytes = 2\<rparr>"

lemma demo_Process [simp]: "Process flat_codec (NewReader demo_png) = Inr demo_processed"
  by (simp add: Process_def decodeImage_def flat_codec_def resizeImage_def encodePNG_def demo_png_def
      scaled_size_def int_mul_def signed_divide_int_def size_consts Dx_def Dy_def Let_def NewReader_def
      demo_processed_def)

lemmas demo_defs = demo_client_def demo_msg_def demo_pg_def demo_s3_def

lemma demo_ids: "text_ok ''u''" "text_ok ''m1''" "text_ok ''m2''"
  by (simp_all add: text_ok_def utf8_lead_def)

lemma demo_storable:
  "m = ''m1'' \<or> m = ''m2'' \<Longrightarrow> storable text_ok fits_int32
     (zero_avatar\<lparr>UserID := ''u'', Status := StatusPending, StagingKey := staging_key ''u'' m, MessageID := m\<rparr>)"
  by (elim disjE; simp add: storable_def zero_avatar_def pg.dim_ok_small demo_ids)
    (simp_all add: key_defs text_ok_def utf8_lead_def)

lemma demo_pg_state:
  "demo_pg fs = snd (sql_upsert ''u'' (row_of round_half_up (pg_stamp 1
     (zero_avatar\<lparr>UserID := ''u'', Status := StatusPending, StagingKey := staging_key ''u'' ''m1'',
        MessageID := ''m1''\<rparr>))) (empty_pg\<lparr>pg_faults := fs\<rparr>))"
  using demo_storable [of "''m1''"]
  by (simp add: demo_pg_def pg_UpsertAvatar_def db_exec_def db_run_def Let_def split: prod.split)

lemma demo_pg_faults [simp]: "pg_faults (demo_pg fs) = fs"
  by (simp add: demo_pg_state)

lemma demo_pg_row:
  "rows (pg_view (demo_pg fs)) ''u'' = Some (zero_avatar\<lparr>UserID := ''u'', Status := StatusPending,
     StagingKey := staging_key ''u'' ''m1'', MessageID := ''m1''\<rparr>)"
proof -
  let ?a = "zero_avatar\<lparr>UserID := ''u'', Status := StatusPending, StagingKey := staging_key ''u'' ''m1'',
    MessageID := ''m1''\<rparr>"
  have "UserID ?a = ''u''" "strip_times ?a = ?a" by (simp_all add: strip_times_def zero_avatar_def)
  with view_sql_upsert [of ?a round_half_up 1 "empty_pg\<lparr>pg_faults := fs\<rparr>"] demo_storable [of "''m1''"]
  have "pg_view (demo_pg fs) = spec_upsert ?a (pg_view (empty_pg\<lparr>pg_faults := fs\<rparr>))"
    unfolding demo_pg_state by simp
  then show ?thesis using \<open>UserID ?a = ''u''\<close> \<open>strip_times ?a = ?a\<close> by (simp del: pg_view_simps)
qed

lemma demo_row: "msg_UserID demo_msg |\<in>| fmdom (t_avatars (demo_pg fs))"
  and demo_pg_healthy: "pg_faults (demo_pg []) = []"
  and demo_staged: "s3_objects (demo_s3 fs') (bucket demo_client) (msg_StagingKey demo_msg) = Some demo_png"
  and demo_up: "s3_faults (demo_s3 []) = []"
  and demo_staging: "msg_StagingKey demo_msg = staging_key ''u'' ''m1''"
  and demo_text: "text_ok (msg_UserID demo_msg)"
  by (simp_all add: demo_pg_state sql_upsert_def demo_client_def demo_msg_def demo_s3_def demo_ids)


lemma demo_runs:
  "\<exists>s' ob'. Handle pg_ops (client_worker_objects scheduled_api demo_client) flat_codec (\<lambda>i. int i) demo_msg
     (demo_pg [], demo_s3 []) = (None, s', ob')"
proof -
  obtain r s' ob' where h: "Handle pg_ops (client_worker_objects scheduled_api demo_client) flat_codec
      (\<lambda>i. int i) demo_msg (demo_pg [], demo_s3 []) = (r, s', ob')"
    by (metis prod_cases3)
  have "rows (pg_view (demo_pg [])) (msg_UserID demo_msg) \<noteq> None"
    using demo_row by (simp add: fmlookup_dom_iff)
  from healthy_worker_env.Handle_succeeds
      [OF healthy_client_worker_env [OF scheduled_up.healthy_s3_axioms] demo_pg_healthy demo_up this
        demo_staged demo_Process h demo_text] h
  show ?thesis by blast
qed

text \<open>
  C6: Isolation of the worker. Whatever fails on the way, processing a message changes no row but
  that of the message's user, creates and deletes no row, changes no idempotency key, and touches no
  object but that user's two final objects and the message's staged upload; and as long as it reports
  an error it leaves the staged upload in place, so that a retry sees the same input.
\<close>

theorem worker_isolation:
  assumes "s3_service api stored buckets"
    and "Handle pg_ops (client_worker_objects api c) codec clk msg (s, ob) = (r, s', ob')"
    and "k \<notin> {'''', original_key (msg_UserID msg), thumb_key (msg_UserID msg)}"
  shows "seen (pg_view s') = seen (pg_view s) \<and>
    (u' \<noteq> msg_UserID msg \<longrightarrow> rows (pg_view s') u' = rows (pg_view s) u') \<and>
    (rows (pg_view s') u' = None) = (rows (pg_view s) u' = None) \<and>
    (k = msg_StagingKey msg \<longrightarrow> r \<noteq> None \<longrightarrow> stored ob' (bucket c) k = stored ob (bucket c) k) \<and>
    (k \<noteq> msg_StagingKey msg \<longrightarrow> stored ob' (bucket c) k = stored ob (bucket c) k)"
  using worker_env.Handle_frame [OF client_worker_env [OF assms(1)] assms(2), of u']
    worker_env.Handle_objects [OF client_worker_env [OF assms(1)] assms(2,3)]
  by blast

theorem worker_isolation_witness:
  "\<exists>r s' ob'. Handle pg_ops (client_worker_objects scheduled_api demo_client) flat_codec (\<lambda>i. int i) demo_msg
      (demo_pg [NoFault, FailBefore ''down''], demo_s3 [S3Ok, S3Lost ''timeout'']) = (r, s', ob') \<and>
    rows (pg_view s') ''v'' = rows (pg_view (demo_pg [NoFault, FailBefore ''down''])) ''v'' \<and>
    s3_objects ob' (bucket demo_client) ''k'' = s3_objects (demo_s3 [S3Ok, S3Lost ''timeout'']) (bucket demo_client) ''k''"
proof -
  let ?s = "demo_pg [NoFault, FailBefore ''down'']" and ?o = "demo_s3 [S3Ok, S3Lost ''timeout'']"
  obtain r s' ob' where h: "Handle pg_ops (client_worker_objects scheduled_api demo_client) flat_codec
      (\<lambda>i. int i) demo_msg (?s, ?o) = (r, s', ob')"
    by (metis prod_cases3)
  have "''k'' \<notin> {'''', original_key (msg_UserID demo_msg), thumb_key (msg_UserID demo_msg)}"
    and "''k'' \<noteq> msg_StagingKey demo_msg" and "''v'' \<noteq> msg_UserID demo_msg"
    by (simp_all add: demo_msg_def key_defs)
  with worker_isolation [OF scheduled.s3_service_axioms h, of "''k''" "''v''"] h show ?thesis by blast
qed

text \<open>
  C5: Success is complete. If processing a staged upload reports success, the staged object could be
  read and processed, both final objects hold the PNGs of that result, and the user's row, if there is
  one, is ready with the keys of the final objects, the type, size, width and height of the result, no
  staging key and no error, everything else in the row being kept.
\<close>

theorem worker_success:
  assumes "s3_service api stored buckets"
    and "Handle pg_ops (client_worker_objects api c) codec clk msg (s, ob) = (None, s', ob')"
    and "msg_StagingKey msg = staging_key u m"
  shows "\<exists>data p. stored ob (bucket c) (msg_StagingKey msg) = Some data \<and>
    Process codec (NewReader data) = Inr p \<and>
    stored ob' (bucket c) (original_key (msg_UserID msg)) = Some (OriginalPNG p) \<and>
    stored ob' (bucket c) (thumb_key (msg_UserID msg)) = Some (ThumbnailPNG p) \<and>
    rows (pg_view s') (msg_UserID msg) =
      map_option (set_ready (original_key (msg_UserID msg)) (thumb_key (msg_UserID msg))
        (img_ContentType p) (img_SizeBytes p) (img_Width p) (img_Height p))
      (rows (pg_view s) (msg_UserID msg))"
proof -
  have "msg_StagingKey msg \<notin> {original_key (msg_UserID msg), thumb_key (msg_UserID msg)}"
    using assms(3) by simp
  from worker_env.Handle_success [OF client_worker_env [OF assms(1)] assms(2) this]
  show ?thesis by (auto simp del: pg_view_simps)
qed

theorem worker_success_witness:
  "\<exists>s' ob' data p. Handle pg_ops (client_worker_objects scheduled_api demo_client) flat_codec (\<lambda>i. int i)
      demo_msg (demo_pg [], demo_s3 []) = (None, s', ob') \<and>
    s3_objects (demo_s3 []) (bucket demo_client) (msg_StagingKey demo_msg) = Some data \<and>
    Process flat_codec (NewReader data) = Inr p \<and>
    s3_objects ob' (bucket demo_client) (original_key (msg_UserID demo_msg)) = Some (OriginalPNG p)"
proof -
  obtain s' ob' where h: "Handle pg_ops (client_worker_objects scheduled_api demo_client) flat_codec
      (\<lambda>i. int i) demo_msg (demo_pg [], demo_s3 []) = (None, s', ob')"
    using demo_runs by blast
  from worker_success [OF scheduled.s3_service_axioms h demo_staging] h show ?thesis by blast
qed

text \<open>
  C7: Processing works. Where the database and S3 do not fail, a message whose user has a row and an id that
  PostgreSQL can take as text, and whose staged upload can be processed, is processed without an error, and
  its staged upload is removed.
\<close>

theorem worker_completes:
  assumes "healthy_s3 api stored buckets up" and "up ob" and "pg_faults s = []"
    and "msg_UserID msg |\<in>| fmdom (t_avatars s)" and "text_ok (msg_UserID msg)"
    and "stored ob (bucket c) (msg_StagingKey msg) = Some data" and "Process codec (NewReader data) = Inr p"
    and "msg_StagingKey msg \<noteq> ''''"
  shows "\<exists>s' ob'. Handle pg_ops (client_worker_objects api c) codec clk msg (s, ob) = (None, s', ob') \<and>
    pg_faults s' = [] \<and> up ob' \<and> stored ob' (bucket c) (msg_StagingKey msg) = None"
proof -
  obtain r s' ob' where h: "Handle pg_ops (client_worker_objects api c) codec clk msg (s, ob) = (r, s', ob')"
    by (cases "Handle pg_ops (client_worker_objects api c) codec clk msg (s, ob)")
  have "rows (pg_view s) (msg_UserID msg) \<noteq> None"
    using assms(4) by (simp add: fmlookup_dom_iff)
  from healthy_worker_env.Handle_succeeds [OF healthy_client_worker_env [OF assms(1)] assms(3,2) this
      assms(6,7) h assms(5)] h assms(8)
  show ?thesis by auto
qed

theorem worker_completes_witness:
  "\<exists>s' ob'. Handle pg_ops (client_worker_objects scheduled_api demo_client) flat_codec (\<lambda>i. int i)
      demo_msg (demo_pg [], demo_s3 []) = (None, s', ob') \<and> pg_faults s' = []"
  using worker_completes [OF scheduled_up.healthy_s3_axioms demo_up demo_pg_healthy demo_row demo_text demo_staged
      demo_Process, of "\<lambda>i. int i"]
  by (auto simp: demo_staging)



end
