(* ===== verification/Breaker.thy ===== *)
theory Breaker
  imports Prelude
begin

text \<open>
  The circuit breaker of \<open>internal/resilience/breaker.go\<close>. \<open>Call\<close> holds the mutex twice, once to decide
  whether the call is admitted (\<open>Call_enter\<close>) and once to record its outcome (\<open>Call_exit\<close>); the guarded
  function runs in between, without the mutex. \<open>Call\<close> composes the two for one caller;
  \<open>breaker_step\<close> interleaves the critical sections of any number of callers with the clock.
\<close>

section \<open>State and operations\<close>

record breaker =
  maxFailures :: int
  cooldown :: duration
  failures :: int
  openUntil :: time

definition NewBreaker :: "int \<Rightarrow> duration \<Rightarrow> breaker" where
  "NewBreaker mx cd =
     (let mx = (if mx \<le> 0 then 5 else mx);
          cd = (if cd \<le> 0 then 30 * Second else cd)
      in \<lparr>maxFailures = mx, cooldown = cd, failures = 0, openUntil = 0\<rparr>)"

text \<open>The first critical section: \<open>False\<close> is the early return of \<open>ErrOpen\<close>.\<close>

definition Call_enter :: "breaker \<Rightarrow> time \<Rightarrow> bool" where
  "Call_enter b now \<longleftrightarrow> \<not> now < openUntil b"

text \<open>The second critical section; \<open>now\<close> is only read where the breaker trips.\<close>

definition Call_exit :: "breaker \<Rightarrow> go_error option \<Rightarrow> time \<Rightarrow> breaker" where
  "Call_exit b err now =
     (case err of
        Some e \<Rightarrow>
          (let b = b\<lparr>failures := failures b + 1\<rparr>
           in if failures b \<ge> maxFailures b
              then b\<lparr>openUntil := now + cooldown b, failures := 0\<rparr>
              else b)
      | None \<Rightarrow> b\<lparr>failures := 0\<rparr>)"

definition Call ::
  "breaker \<Rightarrow> time \<Rightarrow> time \<Rightarrow> ('s \<Rightarrow> go_error option \<times> 's) \<Rightarrow> 's \<Rightarrow> go_error option \<times> breaker \<times> 's"
where
  "Call b now now' fn s =
     (if \<not> Call_enter b now then (Some ErrOpen, b, s)
      else case fn s of (err, s') \<Rightarrow> (err, Call_exit b err now', s'))"

section \<open>Invariant\<close>

definition breaker_ok :: "breaker \<Rightarrow> bool" where
  "breaker_ok b \<longleftrightarrow> 0 < maxFailures b \<and> 0 < cooldown b \<and> 0 \<le> failures b \<and> failures b < maxFailures b"

lemma NewBreaker_ok [simp]: "breaker_ok (NewBreaker mx cd)"
  by (simp add: NewBreaker_def breaker_ok_def Let_def)

lemma Call_exit_ok [simp]: "breaker_ok b \<Longrightarrow> breaker_ok (Call_exit b err now)"
  by (auto simp: Call_exit_def breaker_ok_def Let_def split: option.split)

lemma Call_exit_params [simp]:
  "maxFailures (Call_exit b err now) = maxFailures b"
  "cooldown (Call_exit b err now) = cooldown b"
  by (auto simp: Call_exit_def Let_def split: option.split)

lemma Call_exit_success [simp]:
  "failures (Call_exit b None now) = 0" "openUntil (Call_exit b None now) = openUntil b"
  by (simp_all add: Call_exit_def)

lemma Call_exit_openUntil:
  "openUntil (Call_exit b err now) = openUntil b \<or>
   openUntil (Call_exit b err now) = now + cooldown b"
  by (auto simp: Call_exit_def Let_def split: option.split)

section \<open>Runs of failures\<close>

text \<open>Outcomes recorded one after another, each with the time of its recording.\<close>

fun record_all :: "breaker \<Rightarrow> (go_error option \<times> time) list \<Rightarrow> breaker" where
  "record_all b [] = b"
| "record_all b ((err, now) # es) = record_all (Call_exit b err now) es"

lemma record_all_append: "record_all b (xs @ ys) = record_all (record_all b xs) ys"
  by (induction b xs rule: record_all.induct) auto

lemma record_all_ok: "breaker_ok b \<Longrightarrow> breaker_ok (record_all b es)"
  by (induction b es rule: record_all.induct) auto

lemma record_all_params [simp]:
  "maxFailures (record_all b es) = maxFailures b" "cooldown (record_all b es) = cooldown b"
  by (induction b es rule: record_all.induct) auto

text \<open>Fewer than \<open>maxFailures\<close> failures in a row are only counted.\<close>

lemma record_all_below:
  "failures b + int (length es) < maxFailures b \<Longrightarrow> list_all (\<lambda>(err, _). err \<noteq> None) es \<Longrightarrow>
   record_all b es = b\<lparr>failures := failures b + int (length es)\<rparr>"
proof (induction b es rule: record_all.induct)
  case (1 b)
  then show ?case by simp
next
  case (2 b err now es)
  then have "Call_exit b err now = b\<lparr>failures := failures b + 1\<rparr>"
    by (auto simp: Call_exit_def Let_def)
  with 2 show ?case by (simp add: algebra_simps)
qed

text \<open>
  C15: Trip point. From a breaker with no counted failure, \<open>maxFailures\<close> failures in a row open it for
  exactly one cooldown after the last of them and clear the count, and no shorter run of failures
  changes when it is open.
\<close>

theorem breaker_trips_after_max_failures:
  assumes "breaker_ok b" and "failures b = 0"
    and "list_all (\<lambda>(err, _). err \<noteq> None) es" and "int (length es) + 1 = maxFailures b"
  shows "record_all b (es @ [(Some e, now)]) = b\<lparr>openUntil := now + cooldown b, failures := 0\<rparr> \<and>
    (\<forall>k \<le> length es. openUntil (record_all b (take k es)) = openUntil b)"
proof (intro conjI allI impI)
  have "record_all b es = b\<lparr>failures := int (length es)\<rparr>"
    using assms record_all_below [of b es] by (simp add: breaker_ok_def)
  then show "record_all b (es @ [(Some e, now)]) = b\<lparr>openUntil := now + cooldown b, failures := 0\<rparr>"
    using assms by (simp add: record_all_append Call_exit_def Let_def)
  fix k
  assume "k \<le> length es"
  moreover have "list_all (\<lambda>(err, _). err \<noteq> None) (take k es)"
    using assms(3) by (auto simp: list_all_iff dest: in_set_takeD)
  ultimately have "record_all b (take k es) = b\<lparr>failures := int k\<rparr>"
    using assms record_all_below [of b "take k es"] by (simp add: breaker_ok_def min_def)
  then show "openUntil (record_all b (take k es)) = openUntil b" by simp
qed

theorem breaker_trips_after_max_failures_witness:
  "record_all (NewBreaker 2 Minute) ([(Some ErrNotFound, 10)] @ [(Some (ErrText ''x''), 20)])
     = (NewBreaker 2 Minute)\<lparr>openUntil := 20 + Minute, failures := 0\<rparr>"
  using breaker_trips_after_max_failures
    [of "NewBreaker 2 Minute" "[(Some ErrNotFound, 10)]" "ErrText ''x''" 20]
  by (simp add: NewBreaker_def breaker_ok_def Let_def)

section \<open>Callers in parallel\<close>

record breaker_sys =
  brk :: breaker
  clk :: time
  inflight :: nat

inductive breaker_step :: "breaker_sys \<Rightarrow> breaker_sys \<Rightarrow> bool" where
  tick: "clk s \<le> t \<Longrightarrow> breaker_step s (s\<lparr>clk := t\<rparr>)"
| admit: "Call_enter (brk s) (clk s) \<Longrightarrow> breaker_step s (s\<lparr>inflight := Suc (inflight s)\<rparr>)"
| complete: "inflight s = Suc n \<Longrightarrow>
    breaker_step s (s\<lparr>inflight := n, brk := Call_exit (brk s) err (clk s)\<rparr>)"

inductive breaker_reach :: "breaker \<Rightarrow> breaker_sys \<Rightarrow> bool" for b where
  start: "0 \<le> t \<Longrightarrow> breaker_reach b \<lparr>brk = b, clk = t, inflight = 0\<rparr>"
| step: "breaker_reach b s \<Longrightarrow> breaker_step s s' \<Longrightarrow> breaker_reach b s'"

inductive_cases breaker_stepE: "breaker_step s s'"

definition breaker_inv :: "breaker \<Rightarrow> breaker_sys \<Rightarrow> bool" where
  "breaker_inv b s \<longleftrightarrow>
     breaker_ok (brk s) \<and> maxFailures (brk s) = maxFailures b \<and> cooldown (brk s) = cooldown b \<and>
     openUntil (brk s) \<le> clk s + cooldown b"

lemma breaker_step_inv: "breaker_step s s' \<Longrightarrow> breaker_inv b s \<Longrightarrow> breaker_inv b s'"
proof (induction rule: breaker_step.induct)
  case (complete s n err)
  then show ?case
    using Call_exit_openUntil [of "brk s" err "clk s"] by (auto simp: breaker_inv_def)
qed (auto simp: breaker_inv_def)

lemma breaker_reach_inv: "breaker_reach (NewBreaker mx cd) s \<Longrightarrow> breaker_inv (NewBreaker mx cd) s"
proof (induction rule: breaker_reach.induct)
  case (start t)
  have "0 < cooldown (NewBreaker mx cd)" "openUntil (NewBreaker mx cd) = 0"
    by (simp_all add: NewBreaker_def Let_def)
  with start show ?case by (simp add: breaker_inv_def)
next
  case (step s s')
  then show ?case by (blast intro: breaker_step_inv)
qed

text \<open>
  C16: However the critical sections of concurrent callers interleave, a breaker made by
  \<open>NewBreaker\<close> never counts up to its limit, and it never refuses calls for longer than one cooldown:
  once the clock is a cooldown past any reachable state, with no call completed in between, a call
  is admitted.
\<close>

theorem breaker_never_blocks_past_cooldown:
  assumes "breaker_reach (NewBreaker mx cd) s"
    and "clk s + cooldown (NewBreaker mx cd) \<le> t"
  shows "0 \<le> failures (brk s) \<and> failures (brk s) < maxFailures (NewBreaker mx cd) \<and>
    Call_enter (brk s) t"
  using breaker_reach_inv [OF assms(1)] assms(2) by (auto simp: breaker_inv_def breaker_ok_def Call_enter_def)

theorem breaker_never_blocks_past_cooldown_witness:
  "breaker_reach (NewBreaker 1 5) \<lparr>brk = (NewBreaker 1 5)\<lparr>openUntil := 8\<rparr>, clk = 3, inflight = 0\<rparr>
   \<and> Call_enter ((NewBreaker 1 5)\<lparr>openUntil := 8\<rparr>) 8 \<and> \<not> Call_enter ((NewBreaker 1 5)\<lparr>openUntil := 8\<rparr>) 7"
proof -
  let ?b = "NewBreaker 1 5"
  have a: "breaker_reach ?b \<lparr>brk = ?b, clk = 3, inflight = 0\<rparr>" by (rule breaker_reach.start) simp
  have b: "breaker_reach ?b \<lparr>brk = ?b, clk = 3, inflight = 1\<rparr>"
    using breaker_reach.step [OF a breaker_step.admit]
    by (simp add: Call_enter_def NewBreaker_def Let_def)
  have c: "breaker_reach ?b \<lparr>brk = ?b\<lparr>openUntil := 8\<rparr>, clk = 3, inflight = 0\<rparr>"
    using breaker_reach.step [OF b breaker_step.complete [of _ 0 "Some ErrOpen"]]
    by (simp add: Call_exit_def NewBreaker_def Let_def)
  then show ?thesis
    using breaker_never_blocks_past_cooldown [OF c, of 8]
    by (simp add: Call_enter_def NewBreaker_def Let_def)
qed

section \<open>One caller\<close>

text \<open>
  \<open>Call\<close> of one caller on every branch. While the breaker is open the guarded function is not run
  and the breaker is not touched; otherwise the function runs once, its result is returned, and a
  success clears the failure count without changing when the breaker is open.
\<close>

lemma Call_branches:
  "Call b now now' fn s =
     (if now < openUntil b then (Some ErrOpen, b, s)
      else case fn s of
        (None, s') \<Rightarrow> (None, b\<lparr>failures := 0\<rparr>, s')
      | (Some e, s') \<Rightarrow>
          (Some e,
           (if failures b + 1 < maxFailures b then b\<lparr>failures := failures b + 1\<rparr>
            else b\<lparr>openUntil := now' + cooldown b, failures := 0\<rparr>), s'))"
  by (auto simp: Call_def Call_enter_def Call_exit_def Let_def split: option.split prod.split)

end
