(* ===== verification/Handler.thy ===== *)
theory Handler
  imports Worker Breaker
begin

text \<open>
  The HTTP handlers of \<open>internal/handler/handler.go\<close>. A handler maps a request and the state, that is the
  storage, the object store and the publisher, to the response and the new state; the \<open>i\<close>-th reading of
  the clock is \<open>ti i\<close>. Parsing of multipart forms (\<open>mime/multipart\<close>) and the UUID generator are
  parameters; the readers the code wraps around the body are modelled.
\<close>

section \<open>Requests and responses\<close>

text \<open>A reader: the bytes it yields and the error it ends with, \<open>None\<close> being \<open>io.EOF\<close>.\<close>

datatype read_error = MaxBytesError | ReadError string

datatype stream = Stream (stream_bytes: bytes) (stream_end: "read_error option")

definition MaxBytesReader :: "int64 \<Rightarrow> stream \<Rightarrow> stream" where
  "MaxBytesReader n r =
     (let n = (if n <s 0 then 0 else nat (sint n))
      in if length (stream_bytes r) > n then Stream (take n (stream_bytes r)) (Some MaxBytesError) else r)"

definition LimitReader :: "int64 \<Rightarrow> stream \<Rightarrow> stream" where
  "LimitReader n r =
     (if n \<le>s 0 then Stream [] None
      else if length (stream_bytes r) \<ge> nat (sint n) then Stream (take (nat (sint n)) (stream_bytes r)) None
      else r)"

definition ReadAll :: "stream \<Rightarrow> read_error + bytes" where
  "ReadAll r = (case stream_end r of None \<Rightarrow> Inr (stream_bytes r) | Some e \<Rightarrow> Inl e)"

record request =
  req_Method :: string
  req_Path :: string
  req_EscapedPath :: string
  req_user_id :: string
  req_Header :: string
  req_Body :: stream

text \<open>A parsed form: the file of a field, with its name.\<close>

type_synonym form = "string \<Rightarrow> (string \<times> stream) option"

text \<open>\<open>ParseMultipartForm\<close> on the headers of a request, its body and the memory limit.\<close>

type_synonym form_parser = "string \<Rightarrow> stream \<Rightarrow> int64 \<Rightarrow> read_error + form"

record avatarResponse =
  resp_UserID :: string
  resp_Status :: ProcessingStatus
  resp_ContentType :: string
  resp_SizeBytes :: int64
  resp_Width :: int
  resp_Height :: int
  resp_ErrorMessage :: string
  resp_OriginalURL :: string
  resp_ThumbnailURL :: string
  resp_CreatedAt :: time
  resp_UpdatedAt :: time

datatype resp_body =
    errorResponse string
  | uploadResponse string ProcessingStatus string
  | AvatarJSON avatarResponse
  | Text string
  | NoBody

record response =
  resp_code :: int
  resp_type :: "string option"
  resp_body :: resp_body

definition writeJSON :: "int \<Rightarrow> resp_body \<Rightarrow> response" where
  "writeJSON status v = \<lparr>resp_code = status, resp_type = Some ''application/json'', resp_body = v\<rparr>"

abbreviation write_error :: "int \<Rightarrow> string \<Rightarrow> response" where
  "write_error status e \<equiv> writeJSON status (errorResponse e)"

section \<open>The handler\<close>

record 'o handler_objects =
  h_Upload :: "string \<Rightarrow> reader \<Rightarrow> string \<Rightarrow> 'o \<Rightarrow> go_error option \<times> 'o"
  h_Delete :: "string list \<Rightarrow> 'o \<Rightarrow> go_error option \<times> 'o"
  h_PresignedURL :: "string \<Rightarrow> duration \<Rightarrow> go_error + string"

record ('s, 'o, 'p) Handler =
  h_store :: "'s storage"
  h_objects :: "'o handler_objects"
  h_publish :: "AvatarProcessMessage \<Rightarrow> 'p \<Rightarrow> go_error option \<times> 'p"
  maxUpload :: int64
  urlExpiry :: duration
  dbBreaker :: breaker

definition NewHandler ::
  "'s storage \<Rightarrow> 'o handler_objects \<Rightarrow> (AvatarProcessMessage \<Rightarrow> 'p \<Rightarrow> go_error option \<times> 'p) \<Rightarrow> int64
    \<Rightarrow> ('s, 'o, 'p) Handler"
where
  "NewHandler store objects publisher mx =
     (let mx = (if mx \<le>s 0 then 5 * 1024 * 1024 else mx)
      in \<lparr>h_store = store, h_objects = objects, h_publish = publisher, maxUpload = mx,
          urlExpiry = 15 * Minute, dbBreaker = NewBreaker 5 (30 * Second)\<rparr>)"

definition allowedExtension :: "string \<Rightarrow> bool" where
  "allowedExtension filename =
     (let ext = to_lower (path_ext filename)
      in if ext = ''.jpg'' \<or> ext = ''.jpeg'' \<or> ext = ''.png'' \<or> ext = ''.webp'' then True else False)"

definition detectContentType :: "bytes \<Rightarrow> string \<Rightarrow> string" where
  "detectContentType data filename =
     (if length data \<ge> 3 \<and> data ! 0 = 0xFF \<and> data ! 1 = 0xD8 then ''image/jpeg''
      else if length data \<ge> 8 \<and> data ! 0 = 0x89 \<and> data ! 1 = 0x50 then ''image/png''
      else let ext = to_lower (path_ext filename)
           in if ext = ''.jpg'' \<or> ext = ''.jpeg'' then ''image/jpeg''
              else if ext = ''.png'' then ''image/png''
              else if ext = ''.webp'' then ''image/webp''
              else ''application/octet-stream'')"

definition multipartOverhead :: int64 where "multipartOverhead = 1024"

text \<open>
  The part of \<open>UploadAvatar\<close> before the first call that changes state: the user, the file's bytes and its
  name, or the response that ends the request.
\<close>

definition upload_input ::
  "form_parser \<Rightarrow> ('s, 'o, 'p) Handler \<Rightarrow> request \<Rightarrow> response + string \<times> bytes \<times> string"
where
  "upload_input ParseMultipartForm h r =
     (let userID = trim_space (req_user_id r)
      in if userID = '''' then Inl (write_error 400 ''user_id required'')
      else let body = MaxBytesReader (maxUpload h + multipartOverhead) (req_Body r)
      in case ParseMultipartForm (req_Header r) body (maxUpload h) of
           Inl err \<Rightarrow>
             (if err = MaxBytesError then Inl (write_error 413 ''request too large'')
              else Inl (write_error 400 ''invalid multipart form''))
         | Inr form \<Rightarrow>
           (case form ''file'' of
              None \<Rightarrow> Inl (write_error 400 ''file field required'')
            | Some (filename, file) \<Rightarrow>
              (case ReadAll (LimitReader (maxUpload h + 1) file) of
                 Inl _ \<Rightarrow> Inl (write_error 400 ''failed to read file'')
               | Inr data \<Rightarrow>
                 (if length data = 0 then Inl (write_error 400 ''empty file'')
                  else if maxUpload h <s word_of_nat (length data) then Inl (write_error 413 ''file too large'')
                  else if \<not> allowedExtension filename then Inl (write_error 400 ''unsupported file extension'')
                  else Inr (userID, data, filename)))))"

text \<open>\<open>UploadAvatar\<close>: the response, the label of the upload metrics, and the new state.\<close>

definition UploadAvatar ::
  "form_parser \<Rightarrow> string \<Rightarrow> (nat \<Rightarrow> time) \<Rightarrow> ('s, 'o, 'p) Handler \<Rightarrow> request \<Rightarrow> 's \<times> 'o \<times> 'p
    \<Rightarrow> response \<times> string \<times> 's \<times> 'o \<times> 'p"
where
  "UploadAvatar ParseMultipartForm messageID ti h r st =
     (case st of (s, ob, p) \<Rightarrow>
        case upload_input ParseMultipartForm h r of
          Inl resp \<Rightarrow> (resp, ''error'', s, ob, p)
        | Inr (userID, data, filename) \<Rightarrow>
          (let stagingKey = ''staging/'' @ userID @ ''/'' @ messageID;
               contentType = detectContentType data filename
           in case h_Upload (h_objects h) stagingKey (NewReader data) contentType ob of
                (Some _, ob) \<Rightarrow> (write_error 500 ''failed to store upload'', ''error'', s, ob, p)
              | (None, ob) \<Rightarrow>
                (let avatar = zero_avatar\<lparr>UserID := userID, Status := StatusPending,
                       StagingKey := stagingKey, MessageID := messageID\<rparr>
                 in case UpsertAvatar (h_store h) (ti 0) avatar s of
                      (Some _, s) \<Rightarrow>
                        (case h_Delete (h_objects h) [stagingKey] ob of
                           (_, ob) \<Rightarrow> (write_error 500 ''failed to save metadata'', ''error'', s, ob, p))
                    | (None, s) \<Rightarrow>
                      (let msg = \<lparr>msg_MessageID = messageID, msg_UserID = userID, msg_StagingKey = stagingKey\<rparr>
                       in case h_publish h msg p of
                            (Some _, p) \<Rightarrow>
                              (case h_Delete (h_objects h) [stagingKey] ob of
                                 (_, ob) \<Rightarrow>
                                   (case UpdateAvatarStatus (h_store h) (ti 1) userID StatusFailed
                                           ''failed to enqueue processing'' s of
                                      (_, s) \<Rightarrow>
                                        (write_error 500 ''failed to enqueue processing'', ''error'', s, ob, p)))
                          | (None, p) \<Rightarrow>
                              (writeJSON 202 (uploadResponse userID StatusPending messageID),
                               ''success'', s, ob, p)))))"

definition toResponse :: "('s, 'o, 'p) Handler \<Rightarrow> avatar \<Rightarrow> go_error + avatarResponse" where
  "toResponse h a =
     (let resp = \<lparr>resp_UserID = UserID a, resp_Status = Status a, resp_ContentType = ContentType a,
            resp_SizeBytes = SizeBytes a, resp_Width = Width a, resp_Height = Height a,
            resp_ErrorMessage = ErrorMessage a, resp_OriginalURL = '''', resp_ThumbnailURL = '''',
            resp_CreatedAt = CreatedAt a, resp_UpdatedAt = UpdatedAt a\<rparr>
      in if Status a = StatusReady
         then case h_PresignedURL (h_objects h) (OriginalKey a) (urlExpiry h) of
                Inl err \<Rightarrow> Inl err
              | Inr originalURL \<Rightarrow>
                (case h_PresignedURL (h_objects h) (ThumbnailKey a) (urlExpiry h) of
                   Inl err \<Rightarrow> Inl err
                 | Inr thumbURL \<Rightarrow>
                     Inr (resp\<lparr>resp_OriginalURL := originalURL, resp_ThumbnailURL := thumbURL\<rparr>))
         else Inr resp)"

definition handler_GetAvatar :: "('s, 'o, 'p) Handler \<Rightarrow> request \<Rightarrow> 's \<Rightarrow> response \<times> 's" where
  "handler_GetAvatar h r s =
     (let userID = trim_space (req_user_id r)
      in if userID = '''' then (write_error 400 ''user_id required'', s)
      else case GetAvatar (h_store h) userID s of
             (Inl _, s) \<Rightarrow> (write_error 500 ''failed to get avatar'', s)
           | (Inr None, s) \<Rightarrow> (write_error 404 ''avatar not found'', s)
           | (Inr (Some avatar), s) \<Rightarrow>
             (case toResponse h avatar of
                Inl _ \<Rightarrow> (write_error 500 ''failed to build response'', s)
              | Inr resp \<Rightarrow> (writeJSON 200 (AvatarJSON resp), s)))"

definition handler_DeleteAvatar ::
  "('s, 'o, 'p) Handler \<Rightarrow> request \<Rightarrow> 's \<times> 'o \<Rightarrow> response \<times> 's \<times> 'o"
where
  "handler_DeleteAvatar h r st =
     (case st of (s, ob) \<Rightarrow>
        let userID = trim_space (req_user_id r)
        in if userID = '''' then (write_error 400 ''user_id required'', s, ob)
        else case GetAvatar (h_store h) userID s of
               (Inl _, s) \<Rightarrow> (write_error 500 ''failed to get avatar'', s, ob)
             | (Inr None, s) \<Rightarrow> (write_error 404 ''avatar not found'', s, ob)
             | (Inr (Some avatar), s) \<Rightarrow>
               (case h_Delete (h_objects h) [StagingKey avatar, OriginalKey avatar, ThumbnailKey avatar] ob of
                  (Some _, ob) \<Rightarrow> (write_error 500 ''failed to delete files'', s, ob)
                | (None, ob) \<Rightarrow>
                  (case DeleteAvatar (h_store h) userID s of
                     (Some err, s) \<Rightarrow>
                       (if err = ErrNotFound then (write_error 404 ''avatar not found'', s, ob)
                        else (write_error 500 ''failed to delete metadata'', s, ob))
                   | (None, s) \<Rightarrow> (\<lparr>resp_code = 204, resp_type = None, resp_body = NoBody\<rparr>, s, ob))))"

text \<open>\<open>Ping\<close>: the readings of the clock are those of the breaker, before and after the storage's ping.\<close>

definition handler_Ping ::
  "('s, 'o, 'p) Handler \<Rightarrow> time \<Rightarrow> time \<Rightarrow> 's \<Rightarrow> response \<times> ('s, 'o, 'p) Handler \<times> 's"
where
  "handler_Ping h now now' s =
     (case Call (dbBreaker h) now now' (Ping (h_store h)) s of
        (err, b, s) \<Rightarrow>
          (let h = h\<lparr>dbBreaker := b\<rparr>
           in case err of
                Some e \<Rightarrow>
                  (if errors_is e ErrOpen then (write_error 503 ''database circuit open'', h, s)
                   else (write_error 500 ''database unavailable'', h, s))
              | None \<Rightarrow> (\<lparr>resp_code = 200, resp_type = None, resp_body = Text ''ok''\<rparr>, h, s)))"

section \<open>The limits\<close>

lemma NewHandler_limit: "0 <s maxUpload (NewHandler store objects publisher mx)"
  by (auto simp: NewHandler_def Let_def not_le word_sless_alt word_sle_eq)

lemma NewHandler_simps [simp]:
  "h_store (NewHandler store objects publisher mx) = store"
  "h_objects (NewHandler store objects publisher mx) = objects"
  "h_publish (NewHandler store objects publisher mx) = publisher"
  "urlExpiry (NewHandler store objects publisher mx) = 15 * Minute"
  "dbBreaker (NewHandler store objects publisher mx) = NewBreaker 5 (30 * Second)"
  by (simp_all add: NewHandler_def Let_def)

lemma limit_plus:
  fixes m :: int64
  assumes "0 <s m"
  shows "0 <s m + 1 \<Longrightarrow> nat (sint (m + 1)) = Suc (nat (sint m))"
    and "MaxInt64 - 1024 < sint m \<Longrightarrow> m + 1024 <s 0"
proof -
  have m: "0 < sint m" using assms by (simp add: word_sless_alt)
  show "nat (sint (m + 1)) = Suc (nat (sint m))" if "0 <s m + 1"
    using that m sint_add_nonneg [of m 1] sint_lt [of m]
    by (simp add: word_sless_alt split: if_splits)
  show "m + 1024 <s 0" if "MaxInt64 - 1024 < sint m"
    using that m sint_add_nonneg [of m 1024] sint_lt [of m] by (simp add: word_sless_alt)
qed

lemma ReadAll_limited:
  assumes "0 <s m" and "ReadAll (LimitReader (m + 1) file) = Inr data" and "data \<noteq> []"
    and "\<not> m <s word_of_nat (length data)"
  shows "int (length data) \<le> sint m \<and> file = Stream data None"
proof -
  have m: "0 < sint m" "sint m < 2 ^ 63" using assms(1) sint_lt [of m] by (simp_all add: word_sless_alt)
  have pos: "0 <s m + 1"
    using assms(2,3) by (auto simp: LimitReader_def ReadAll_def word_sless_alt word_sle_eq split: if_splits)
  note n = limit_plus(1) [OF assms(1) pos]
  have le: "length data \<le> Suc (nat (sint m))"
    using assms(2) pos n by (auto simp: LimitReader_def ReadAll_def word_sless_alt word_sle_eq
        split: if_splits option.splits)
  moreover have "sint (m + 1) \<le> MaxInt64" using sint_lt [of "m + 1"] by simp
  ultimately have "int (length data) \<le> MaxInt64"
    using n m pos by (simp add: word_sless_alt)
  then have "sint (word_of_nat (length data) :: int64) = int (length data)"
    using sint_int64_of [of "int (length data)"] by (simp add: fits_int64_def)
  then have l: "int (length data) \<le> sint m" using assms(4) by (simp add: word_sless_alt)
  have "length (stream_bytes file) < nat (sint (m + 1))"
    using assms(2) pos n l m by (auto simp: LimitReader_def ReadAll_def word_sless_alt word_sle_eq
        split: if_splits option.splits)
  then have "ReadAll file = Inr data"
    using assms(2) pos by (simp add: LimitReader_def word_sless_alt word_sle_eq)
  with l show ?thesis by (cases "file") (auto simp: ReadAll_def split: option.splits)
qed

text \<open>What an upload that is let through looks like.\<close>

lemma upload_input_Inr:
  assumes "0 <s maxUpload h" and "upload_input parse h r = Inr (u, data, filename)"
  shows "u = trim_space (req_user_id r) \<and> u \<noteq> '''' \<and> data \<noteq> [] \<and>
    int (length data) \<le> sint (maxUpload h) \<and> allowedExtension filename \<and>
    (\<exists>form. parse (req_Header r) (MaxBytesReader (maxUpload h + multipartOverhead) (req_Body r)) (maxUpload h)
       = Inr form \<and> form ''file'' = Some (filename, Stream data None))"
  using assms(2) ReadAll_limited [OF assms(1), of _ data]
  by (auto simp: upload_input_def Let_def split: if_splits sum.splits option.splits prod.splits)

lemma upload_input_Inl:
  assumes "upload_input parse h r = Inl resp"
  shows "\<exists>code e. resp = write_error code e \<and> (code = 400 \<or> code = 413)"
  using assms by (auto simp: upload_input_def Let_def split: if_splits sum.splits option.splits prod.splits)

section \<open>What an upload does\<close>

definition new_row :: "string \<Rightarrow> string \<Rightarrow> avatar" where
  "new_row u m = zero_avatar\<lparr>UserID := u, Status := StatusPending, StagingKey := staging_key u m, MessageID := m\<rparr>"

definition upload_msg :: "string \<Rightarrow> string \<Rightarrow> AvatarProcessMessage" where
  "upload_msg u m = \<lparr>msg_MessageID = m, msg_UserID = u, msg_StagingKey = staging_key u m\<rparr>"

lemma new_row_simps [simp]:
  "UserID (new_row u m) = u" "Status (new_row u m) = StatusPending" "StagingKey (new_row u m) = staging_key u m"
  "MessageID (new_row u m) = m" "OriginalKey (new_row u m) = ''''" "ThumbnailKey (new_row u m) = ''''"
  "strip_times (new_row u m) = new_row u m"
  by (simp_all add: new_row_def zero_avatar_def strip_times_def)

lemma UploadAvatar_cases:
  assumes "UploadAvatar parse m ti h r (s, ob, p) = (resp, label, s', ob', p')"
  obtains (refused) "upload_input parse h r = Inl resp" "label = ''error''" "s' = s" "ob' = ob" "p' = p"
  | (not_stored) u data f e where "upload_input parse h r = Inr (u, data, f)"
      "h_Upload (h_objects h) (staging_key u m) (NewReader data) (detectContentType data f) ob = (Some e, ob')"
      "resp = write_error 500 ''failed to store upload''" "label = ''error''" "s' = s" "p' = p"
  | (not_saved) u data f ob1 e where "upload_input parse h r = Inr (u, data, f)"
      "h_Upload (h_objects h) (staging_key u m) (NewReader data) (detectContentType data f) ob = (None, ob1)"
      "UpsertAvatar (h_store h) (ti 0) (new_row u m) s = (Some e, s')"
      "snd (h_Delete (h_objects h) [staging_key u m] ob1) = ob'"
      "resp = write_error 500 ''failed to save metadata''" "label = ''error''" "p' = p"
  | (not_enqueued) u data f ob1 s1 e where "upload_input parse h r = Inr (u, data, f)"
      "h_Upload (h_objects h) (staging_key u m) (NewReader data) (detectContentType data f) ob = (None, ob1)"
      "UpsertAvatar (h_store h) (ti 0) (new_row u m) s = (None, s1)"
      "h_publish h (upload_msg u m) p = (Some e, p')"
      "snd (h_Delete (h_objects h) [staging_key u m] ob1) = ob'"
      "snd (UpdateAvatarStatus (h_store h) (ti 1) u StatusFailed ''failed to enqueue processing'' s1) = s'"
      "resp = write_error 500 ''failed to enqueue processing''" "label = ''error''"
  | (accepted) u data f where "upload_input parse h r = Inr (u, data, f)"
      "h_Upload (h_objects h) (staging_key u m) (NewReader data) (detectContentType data f) ob = (None, ob')"
      "UpsertAvatar (h_store h) (ti 0) (new_row u m) s = (None, s')"
      "h_publish h (upload_msg u m) p = (None, p')"
      "resp = writeJSON 202 (uploadResponse u StatusPending m)" "label = ''success''"
proof (cases "upload_input parse h r")
  case (Inl x)
  with assms show thesis by (intro refused) (auto simp: UploadAvatar_def)
next
  case (Inr udf)
  obtain u data f where i: "upload_input parse h r = Inr (u, data, f)" using Inr by (cases udf) auto
  note A = assms [unfolded UploadAvatar_def Let_def staging_key_def [symmetric] prod.case i sum.case
      new_row_def [symmetric] upload_msg_def [symmetric]]
  show thesis
  proof (cases "h_Upload (h_objects h) (staging_key u m) (NewReader data) (detectContentType data f) ob")
    case up: (Pair e ob1)
    show thesis
    proof (cases e)
      case (Some x)
      with A up i show thesis by (intro not_stored [of u data f x]) auto
    next
      case None
      note up = up [unfolded None]
      obtain e2 s1 where ins: "UpsertAvatar (h_store h) (ti 0) (new_row u m) s = (e2, s1)" by fastforce
      show thesis
      proof (cases e2)
        case (Some x)
        with A up i ins show thesis by (intro not_saved [of u data f ob1 x]) (auto split: prod.splits)
      next
        case None
        note ins = ins [unfolded None]
        obtain e3 p1 where pub: "h_publish h (upload_msg u m) p = (e3, p1)" by fastforce
        show thesis
        proof (cases e3)
          case (Some x)
          with A up i ins pub show thesis
            by (intro not_enqueued [of u data f ob1 s1 x]) (auto split: prod.splits)
        next
          case None
          with A up i ins pub show thesis by (intro accepted [of u data f]) auto
        qed
      qed
    qed
  qed
qed

text \<open>The publisher: a log of entries, one for each message; an error may come after the publishing.\<close>

locale publisher_contract =
  fixes publish :: "AvatarProcessMessage \<Rightarrow> 'p \<Rightarrow> go_error option \<times> 'p"
    and log :: "'p \<Rightarrow> 'e list" and entry :: "AvatarProcessMessage \<Rightarrow> 'e"
  assumes published: "publish msg p = (None, p') \<Longrightarrow> log p' = log p @ [entry msg]"
    and not_published: "publish msg p = (Some e, p') \<Longrightarrow> log p' = log p \<or> log p' = log p @ [entry msg]"

locale api_env = st: storage_contract "h_store h" view +
    ob: object_store "h_Upload (h_objects h)" "h_Delete (h_objects h)" content +
    pub: publisher_contract "h_publish h" log entry
  for h :: "('s, 'o, 'p) Handler" and view :: "'s \<Rightarrow> db_view"
    and content :: "'o \<Rightarrow> string \<Rightarrow> bytes option" and log :: "'p \<Rightarrow> 'e list"
    and entry :: "AvatarProcessMessage \<Rightarrow> 'e" +
  assumes limit: "0 <s maxUpload h"
begin

lemma Upload_accepted:
  assumes "UploadAvatar parse m ti h r (s, ob, p) = (resp, ''success'', s', ob', p')"
  shows "\<exists>u data f. upload_input parse h r = Inr (u, data, f) \<and>
    resp = writeJSON 202 (uploadResponse u StatusPending m) \<and>
    view s' = spec_upsert (new_row u m) (view s) \<and>
    content ob' = (content ob)(staging_key u m \<mapsto> data) \<and> log p' = log p @ [entry (upload_msg u m)]"
  using assms
proof (cases rule: UploadAvatar_cases)
  case (accepted u data f)
  then show ?thesis
    using st.upsert [OF accepted(3)] ob.upload_done [OF accepted(2) [unfolded NewReader_def]]
      pub.published [OF accepted(4)] by auto
qed auto

text \<open>
  An upload that is not accepted: nothing happens where the request is refused; later failures leave
  the row as it was, replaced by the pending one, or failed, and the staged object may only remain
  where its deletion failed.
\<close>

lemma Upload_rejected:
  assumes "UploadAvatar parse m ti h r (s, ob, p) = (resp, label, s', ob', p')" and "label \<noteq> ''success''"
  shows "label = ''error'' \<and>
    (resp_code resp \<noteq> 500 \<longrightarrow> (resp_code resp = 400 \<or> resp_code resp = 413) \<and> s' = s \<and> ob' = ob \<and> p' = p) \<and>
    (\<exists>code e. resp = write_error code e) \<and>
    view s' \<in> {view s, spec_upsert (new_row (trim_space (req_user_id r)) m) (view s),
      spec_status StatusFailed ''failed to enqueue processing'' (trim_space (req_user_id r))
        (spec_upsert (new_row (trim_space (req_user_id r)) m) (view s))}"
  using assms(1)
proof (cases rule: UploadAvatar_cases)
  case refused
  then show ?thesis using upload_input_Inl [OF refused(1)] by (auto simp: writeJSON_def)
next
  case (not_stored u data f e)
  then show ?thesis by (auto simp: writeJSON_def)
next
  case (not_saved u data f ob1 e)
  have "u = trim_space (req_user_id r)" using upload_input_Inr [OF limit not_saved(1)] by simp
  then show ?thesis using not_saved st.upsert [OF not_saved(3)] by (auto simp: writeJSON_def settles_def)
next
  case (not_enqueued u data f ob1 s1 e)
  have "u = trim_space (req_user_id r)" using upload_input_Inr [OF limit not_enqueued(1)] by simp
  moreover obtain e2 where "UpdateAvatarStatus (h_store h) (ti 1) u StatusFailed
      ''failed to enqueue processing'' s1 = (e2, s')" using not_enqueued(6) by (metis prod.collapse)
  ultimately show ?thesis using st.status [of "ti 1" u] st.upsert [OF not_enqueued(3)] not_enqueued
    by (fastforce simp: writeJSON_def settles_def)
next
  case (accepted u data f)
  then show ?thesis using assms(2) by simp
qed

text \<open>Whatever happens, an upload touches its user's row and its own staged object only.\<close>

lemma Upload_frame:
  assumes "UploadAvatar parse m ti h r (s, ob, p) = (resp, label, s', ob', p')"
  shows "seen (view s') = seen (view s) \<and>
    (v \<noteq> trim_space (req_user_id r) \<longrightarrow> rows (view s') v = rows (view s) v) \<and>
    (k \<noteq> '''' \<longrightarrow> k \<noteq> staging_key (trim_space (req_user_id r)) m \<longrightarrow> content ob' k = content ob k) \<and>
    (log p' = log p \<or> log p' = log p @ [entry (upload_msg (trim_space (req_user_id r)) m)])"
proof -
  have u: "u = trim_space (req_user_id r)" if "upload_input parse h r = Inr (u, data, f)" for u data f
    using upload_input_Inr [OF limit that] by simp
  have del: "content o2 k = content o1 k"
    if "snd (h_Delete (h_objects h) [x] o1) = o2" "k \<noteq> ''''" "k \<noteq> x" for o1 o2 x
    using ob.delete_frame [of "[x]" o1 _ o2 k] that by (metis empty_iff empty_set prod.collapse set_ConsD)
  show ?thesis
    using assms
  proof (cases rule: UploadAvatar_cases)
    case (not_stored v data f e)
    then show ?thesis using u [OF not_stored(1)] ob.upload_frame [OF not_stored(2)] by simp
  next
    case (not_saved v data f ob1 e)
    then show ?thesis
      using u [OF not_saved(1)] ob.upload_frame [OF not_saved(2)] st.upsert_frame [OF not_saved(3)]
        del [OF not_saved(4)] by simp
  next
    case (not_enqueued v data f ob1 s1 e)
    obtain e2 where "UpdateAvatarStatus (h_store h) (ti 1) v StatusFailed ''failed to enqueue processing'' s1
        = (e2, s')" using not_enqueued(6) by (metis prod.collapse)
    then show ?thesis
      using u [OF not_enqueued(1)] ob.upload_frame [OF not_enqueued(2)] st.upsert_frame [OF not_enqueued(3)]
        del [OF not_enqueued(5)] st.status_frame(1,2) pub.not_published [OF not_enqueued(4)] by auto
  next
    case (accepted v data f)
    then show ?thesis
      using u [OF accepted(1)] ob.upload_frame [OF accepted(2)] st.upsert_frame [OF accepted(3)]
        pub.published [OF accepted(4)] by simp
  qed simp
qed

end

section \<open>Reading and deleting\<close>

lemma toResponse_Inr:
  assumes "toResponse h a = Inr x"
  shows "resp_UserID x = UserID a \<and> resp_Status x = Status a \<and> resp_ContentType x = ContentType a \<and>
    resp_SizeBytes x = SizeBytes a \<and> resp_Width x = Width a \<and> resp_Height x = Height a \<and>
    resp_ErrorMessage x = ErrorMessage a \<and> resp_CreatedAt x = CreatedAt a \<and> resp_UpdatedAt x = UpdatedAt a \<and>
    (if Status a = StatusReady
     then h_PresignedURL (h_objects h) (OriginalKey a) (urlExpiry h) = Inr (resp_OriginalURL x) \<and>
       h_PresignedURL (h_objects h) (ThumbnailKey a) (urlExpiry h) = Inr (resp_ThumbnailURL x)
     else resp_OriginalURL x = '''' \<and> resp_ThumbnailURL x = '''')"
  using assms by (auto simp: toResponse_def Let_def split: if_splits sum.splits)

context api_env begin

lemma Get_response:
  assumes "handler_GetAvatar h r s = (resp, s')"
  shows "view s' = view s \<and>
    (resp_code resp = 200 \<and> (\<exists>a x. map_option strip_times (Some a) = rows (view s) (trim_space (req_user_id r)) \<and>
        toResponse h a = Inr x \<and> resp_body resp = AvatarJSON x) \<or>
     resp = write_error 404 ''avatar not found'' \<and> rows (view s) (trim_space (req_user_id r)) = None \<or>
     resp = write_error 400 ''user_id required'' \<and> trim_space (req_user_id r) = '''' \<and> s' = s \<or>
     resp = write_error 500 ''failed to get avatar'' \<or> resp = write_error 500 ''failed to build response'')"
proof (cases "trim_space (req_user_id r) = ''''")
  case True
  with assms show ?thesis by (simp add: handler_GetAvatar_def)
next
  case False
  obtain f s1 where g: "GetAvatar (h_store h) (trim_space (req_user_id r)) s = (f, s1)" by fastforce
  show ?thesis
    using assms g False st.get [OF g] st.get_row [of "trim_space (req_user_id r)" s _ s1]
    by (auto simp: handler_GetAvatar_def writeJSON_def Let_def split: sum.splits option.splits)
qed

lemma Delete_cases:
  assumes "handler_DeleteAvatar h r (s, ob) = (resp, s', ob')" and "u = trim_space (req_user_id r)"
  obtains (no_user) "u = ''''" "resp = write_error 400 ''user_id required''" "s' = s" "ob' = ob"
  | (no_read) "resp = write_error 500 ''failed to get avatar''" "view s' = view s" "ob' = ob"
  | (no_row) "resp = write_error 404 ''avatar not found''" "rows (view s) u = None" "view s' = view s" "ob' = ob"
  | (no_files) a e where "rows (view s) u = Some (strip_times a)"
      "h_Delete (h_objects h) [StagingKey a, OriginalKey a, ThumbnailKey a] ob = (Some e, ob')"
      "resp = write_error 500 ''failed to delete files''" "view s' = view s"
  | (no_delete) a s1 e where "rows (view s) u = Some (strip_times a)"
      "h_Delete (h_objects h) [StagingKey a, OriginalKey a, ThumbnailKey a] ob = (None, ob')"
      "view s1 = view s" "DeleteAvatar (h_store h) u s1 = (Some e, s')" "e \<noteq> ErrNotFound"
      "resp = write_error 500 ''failed to delete metadata''"
  | (deleted) a s1 where "rows (view s) u = Some (strip_times a)"
      "h_Delete (h_objects h) [StagingKey a, OriginalKey a, ThumbnailKey a] ob = (None, ob')"
      "view s1 = view s" "DeleteAvatar (h_store h) u s1 = (None, s')"
      "resp = \<lparr>resp_code = 204, resp_type = None, resp_body = NoBody\<rparr>"
proof (cases "u = ''''")
  case True
  with assms show thesis by (intro no_user) (auto simp: handler_DeleteAvatar_def)
next
  case False
  obtain f s1 where g: "GetAvatar (h_store h) u s = (f, s1)" by fastforce
  note A = assms(1) [unfolded handler_DeleteAvatar_def Let_def prod.case assms(2) [symmetric] g]
  consider (err) e where "f = Inl e" | (none) "f = Inr None" | (some) a where "f = Inr (Some a)"
    by (metis option.exhaust sum.exhaust)
  then show thesis
  proof cases
    case err
    with A False st.get [OF g] show thesis by (intro no_read) auto
  next
    case none
    with A False st.get [OF g] st.get_row [of u s None s1] g show thesis by (intro no_row) auto
  next
    case some
    have v: "view s1 = view s" "rows (view s) u = Some (strip_times a)"
      using st.get [OF g] st.get_row [of u s "Some a" s1] g some by auto
    obtain e1 ob1 where d: "h_Delete (h_objects h) [StagingKey a, OriginalKey a, ThumbnailKey a] ob = (e1, ob1)"
      by fastforce
    show thesis
    proof (cases e1)
      case (Some e)
      with A False some d v show thesis by (intro no_files [of a e]) auto
    next
      case None
      obtain e2 s2 where dd: "DeleteAvatar (h_store h) u s1 = (e2, s2)" by fastforce
      have "e2 \<noteq> Some ErrNotFound" using st.delete_not_found [of u s1 s2] dd v by auto
      with A False some d v dd None show thesis
        by (cases e2) (auto intro: no_delete [of a s1] deleted [of a s1])
    qed
  qed
qed

lemma Delete_done:
  assumes "handler_DeleteAvatar h r (s, ob) = (resp, s', ob')" and "resp_code resp = 204"
  shows "\<exists>a. rows (view s) (trim_space (req_user_id r)) = Some a \<and>
    view s' = spec_delete (trim_space (req_user_id r)) (view s) \<and>
    (\<forall>k. k \<noteq> '''' \<longrightarrow> content ob' k =
      (if k \<in> {StagingKey a, OriginalKey a, ThumbnailKey a} then None else content ob k))"
  using assms(1) refl
proof (cases rule: Delete_cases)
  case (deleted a s1)
  from st.delete [OF deleted(4)] deleted ob.delete_done [OF deleted(2)] show ?thesis
    by (intro exI [of _ "strip_times a"]) auto
qed (use assms(2) in \<open>auto simp: writeJSON_def\<close>)

lemma Delete_frame:
  assumes "handler_DeleteAvatar h r (s, ob) = (resp, s', ob')"
  shows "seen (view s') = seen (view s) \<and>
    (v \<noteq> trim_space (req_user_id r) \<longrightarrow> rows (view s') v = rows (view s) v) \<and>
    (k \<noteq> '''' \<longrightarrow> content ob' k \<noteq> content ob k \<longrightarrow>
      (\<exists>a. rows (view s) (trim_space (req_user_id r)) = Some a \<and>
        k \<in> {StagingKey a, OriginalKey a, ThumbnailKey a} \<and> content ob' k = None))"
  using assms refl
proof (cases rule: Delete_cases)
  case (no_files a e)
  then show ?thesis using ob.delete_failed [OF no_files(2), of k] by auto
next
  case (no_delete a s1 e)
  then show ?thesis using ob.delete_failed [OF no_delete(2), of k] st.delete_frame [OF no_delete(4)] by auto
next
  case (deleted a s1)
  then show ?thesis using ob.delete_failed [OF deleted(2), of k] st.delete_frame [OF deleted(4)] by auto
qed auto

end

end
