(* ===== verification/Rate_Limit.thy ===== *)
theory Rate_Limit
  imports Handler Complex_Main "HOL-Library.Signed_Division"
begin

text \<open>
  The token bucket of \<open>internal/handler/ratelimit.go\<close>. Its numbers are \<open>float64\<close>: real numbers, where
  every operation rounds. The rounding \<open>rnd\<close> is an argument of the definitions; the locale \<open>float64\<close>
  states what is used of IEEE 754, and it is interpreted on \<open>rnd64\<close>, rounding to 53 significant bits,
  ties to even. Overflow to infinity and subnormal numbers do not occur in this range of values.
\<close>

section \<open>Rounding\<close>

locale float64 =
  fixes rnd :: "real \<Rightarrow> real"
  assumes rnd_mono: "0 \<le> x \<Longrightarrow> x \<le> y \<Longrightarrow> rnd x \<le> rnd y"
    and rnd_half: "n \<le> 2 ^ 53 \<Longrightarrow> rnd (real n / 2) = real n / 2"
    and rnd_rnd: "0 \<le> x \<Longrightarrow> rnd (rnd x) = rnd x"
begin

lemma rnd_nat: "n \<le> 2 ^ 52 \<Longrightarrow> rnd (real n) = real n"
  using rnd_half [of "2 * n"] by simp

lemma rnd_0 [simp]: "rnd 0 = 0" and rnd_1 [simp]: "rnd 1 = 1"
  using rnd_nat [of 0] rnd_nat [of 1] by simp_all

lemma rnd_nonneg: "0 \<le> x \<Longrightarrow> 0 \<le> rnd x"
  using rnd_mono [of 0 x] by simp

lemma rnd_le_nat: "0 \<le> x \<Longrightarrow> x \<le> real n \<Longrightarrow> n \<le> 2 ^ 52 \<Longrightarrow> rnd x \<le> real n"
  using rnd_mono [of x "real n"] rnd_nat [of n] by simp

lemma rnd_ge_nat: "real n \<le> x \<Longrightarrow> n \<le> 2 ^ 52 \<Longrightarrow> real n \<le> rnd x"
  using rnd_mono [of "real n" x] rnd_nat [of n] by simp

end

text \<open>Rounding to the nearest integer, ties to even, and to 53 significant bits.\<close>

definition round_even :: "real \<Rightarrow> int" where
  "round_even x =
     (let f = \<lfloor>x\<rfloor>; d = x - of_int f
      in if d < 1 / 2 then f else if d > 1 / 2 then f + 1 else if even f then f else f + 1)"

definition exponent :: "real \<Rightarrow> int" where
  "exponent x = \<lfloor>log 2 x\<rfloor> - 52"

definition rnd64 :: "real \<Rightarrow> real" where
  "rnd64 x =
     (if x = 0 then 0
      else if x > 0 then of_int (round_even (x / 2 powi exponent x)) * 2 powi exponent x
      else - (of_int (round_even (- x / 2 powi exponent (- x))) * 2 powi exponent (- x)))"

lemma round_even_bounds: "\<lfloor>x\<rfloor> \<le> round_even x" "round_even x \<le> \<lfloor>x\<rfloor> + 1"
  by (auto simp: round_even_def Let_def)

lemma round_even_of_int [simp]: "round_even (of_int n) = n"
  by (simp add: round_even_def)

lemma round_even_mono:
  assumes "x \<le> y"
  shows "round_even x \<le> round_even y"
proof (cases "\<lfloor>x\<rfloor> = \<lfloor>y\<rfloor>")
  case True
  with assms show ?thesis by (auto simp: round_even_def Let_def)
next
  case False
  then have "\<lfloor>x\<rfloor> + 1 \<le> \<lfloor>y\<rfloor>" using floor_mono [OF assms] by linarith
  then show ?thesis using round_even_bounds(2) [of x] round_even_bounds(1) [of y] by linarith
qed

lemma scaled_range:
  assumes "0 < x"
  shows "2 ^ 52 \<le> x / 2 powi exponent x" "x / 2 powi exponent x < 2 ^ 53"
proof -
  let ?k = "\<lfloor>log 2 x\<rfloor>"
  have "(2 :: real) powr of_int ?k \<le> x \<and> x < 2 powr (of_int ?k + 1)"
    using floor_log_eq_powr_iff [of x 2 ?k] assms by simp
  then have k: "(2 :: real) powi ?k \<le> x" "x < 2 powi (?k + 1)"
    using powr_real_of_int' [of 2 ?k] powr_real_of_int' [of 2 "?k + 1"] by simp_all
  have "(2 :: real) powi ?k = 2 ^ 52 * 2 powi exponent x"
    unfolding exponent_def by (subst power_int_diff) simp_all
  moreover have "(2 :: real) powi (?k + 1) = 2 * 2 powi ?k" by (subst power_int_add) simp_all
  ultimately show "2 ^ 52 \<le> x / 2 powi exponent x" "x / 2 powi exponent x < 2 ^ 53"
    using k by (simp_all add: field_simps)
qed

lemma round_scaled_range:
  assumes "0 < x"
  shows "2 ^ 52 \<le> round_even (x / 2 powi exponent x)" "round_even (x / 2 powi exponent x) \<le> 2 ^ 53"
proof -
  show "2 ^ 52 \<le> round_even (x / 2 powi exponent x)"
    using round_even_mono [OF scaled_range(1) [OF assms]] round_even_of_int [of "2 ^ 52"] by simp
  show "round_even (x / 2 powi exponent x) \<le> 2 ^ 53"
    using round_even_mono [OF less_imp_le [OF scaled_range(2) [OF assms]]] round_even_of_int [of "2 ^ 53"]
    by simp
qed

lemma rnd64_pos: "0 < x \<Longrightarrow> rnd64 x = of_int (round_even (x / 2 powi exponent x)) * 2 powi exponent x"
  by (simp add: rnd64_def)

lemma rnd64_bounds:
  assumes "0 < x"
  shows "2 ^ 52 * 2 powi exponent x \<le> rnd64 x" "rnd64 x \<le> 2 ^ 53 * 2 powi exponent x"
proof -
  have "(2 :: real) ^ 52 \<le> of_int (round_even (x / 2 powi exponent x))"
    "of_int (round_even (x / 2 powi exponent x)) \<le> (2 :: real) ^ 53"
    using round_scaled_range [OF assms] by (metis of_int_le_iff of_int_numeral of_int_power)+
  then show "2 ^ 52 * 2 powi exponent x \<le> rnd64 x" "rnd64 x \<le> 2 ^ 53 * 2 powi exponent x"
    unfolding rnd64_pos [OF assms] by (intro mult_right_mono; simp)+
qed

lemma rnd64_mono:
  assumes "0 \<le> x" "x \<le> y"
  shows "rnd64 x \<le> rnd64 y"
proof (cases "x = 0")
  case True
  have "0 \<le> rnd64 y" if "0 < y"
  proof -
    have "(0 :: real) \<le> 2 ^ 52 * 2 powi exponent y" by simp
    then show ?thesis using rnd64_bounds(1) [OF that] by linarith
  qed
  with True assms show ?thesis by (cases "y = 0") (simp_all add: rnd64_def)
next
  case False
  then have x: "0 < x" and y: "0 < y" using assms by simp_all
  have e: "exponent x \<le> exponent y"
    using x assms by (simp add: exponent_def floor_mono)
  show ?thesis
  proof (cases "exponent x = exponent y")
    case True
    have "x / 2 powi exponent x \<le> y / 2 powi exponent y"
      using assms(2) by (simp add: True divide_right_mono)
    from round_even_mono [OF this] show ?thesis
      by (simp add: rnd64_pos x y True mult_right_mono)
  next
    case False
    have "rnd64 x \<le> 2 ^ 53 * 2 powi exponent x" by (rule rnd64_bounds(2) [OF x])
    also have "\<dots> = 2 ^ 52 * 2 powi (exponent x + 1)" by (subst power_int_add) simp_all
    also have "\<dots> \<le> 2 ^ 52 * 2 powi exponent y"
      using e False by (intro mult_left_mono power_int_increasing) simp_all
    also have "\<dots> \<le> rnd64 y" by (rule rnd64_bounds(1) [OF y])
    finally show ?thesis .
  qed
qed

lemma rnd64_exact:
  assumes "x = of_int m * 2 powi k" and "0 < x" and "exponent x \<le> k"
  shows "rnd64 x = x"
proof -
  obtain e where e: "exponent x = e" by simp
  have "(2 :: real) powi k = 2 ^ nat (k - e) * 2 powi e"
    using assms(3) power_int_add [of "2 :: real" "k - e" e] by (simp add: power_int_def e)
  then have "x / 2 powi exponent x = of_int (m * 2 ^ nat (k - e))"
    unfolding e by (simp add: assms(1))
  then have "of_int (round_even (x / 2 powi exponent x)) = x / 2 powi exponent x"
    by (metis round_even_of_int)
  then show ?thesis by (simp add: rnd64_pos [OF assms(2)])
qed

lemma exponent_le:
  assumes "0 < x" and "x < 2 powi (k + 53)"
  shows "exponent x \<le> k"
proof -
  have "x < 2 powr (of_int k + 53)"
    using assms(2) powr_real_of_int' [of 2 "k + 53"] by (simp add: add.commute)
  then have "log 2 x < of_int k + 53"
    using assms(1) by (simp add: log_less_iff)
  then have "\<lfloor>log 2 x\<rfloor> < k + 53" by (simp add: floor_less_iff)
  then show ?thesis by (simp add: exponent_def)
qed

lemma rnd64_half:
  assumes "n \<le> 2 ^ 53"
  shows "rnd64 (real n / 2) = real n / 2"
proof -
  consider "n = 0" | "0 < n" "n < 2 ^ 53" | "n = 2 ^ 53" using assms by linarith
  then show ?thesis
  proof cases
    case 1
    then show ?thesis by (simp add: rnd64_def)
  next
    case 2
    have "real n < 2 ^ 53" using 2(2) by (metis of_nat_less_iff of_nat_numeral of_nat_power)
    then have "exponent (real n / 2) \<le> -1"
      using 2(1) by (intro exponent_le) simp_all
    then show ?thesis
      using 2(1) by (intro rnd64_exact [of _ "int n" "-1"]) (simp_all add: power_int_minus)
  next
    case 3
    have "exponent (2 ^ 52) \<le> 0" by (intro exponent_le) simp_all
    then have "rnd64 (2 ^ 52) = 2 ^ 52" by (intro rnd64_exact [of _ "2 ^ 52" 0]) simp_all
    then show ?thesis by (simp add: 3)
  qed
qed

lemma rnd64_rnd64:
  assumes "0 \<le> x"
  shows "rnd64 (rnd64 x) = rnd64 x"
proof (cases "x = 0")
  case True
  then show ?thesis by (simp add: rnd64_def)
next
  case False
  then have x: "0 < x" using assms by simp
  let ?r = "round_even (x / 2 powi exponent x)" and ?e = "exponent x"
  note r = round_scaled_range [OF x]
  have pos: "0 < rnd64 x"
  proof -
    have "(0 :: real) < 2 ^ 52 * 2 powi exponent x" by simp
    then show ?thesis using rnd64_bounds(1) [OF x] by linarith
  qed
  show ?thesis
  proof (cases "?r = 2 ^ 53")
    case True
    have eq: "rnd64 x = of_int (2 ^ 52) * 2 powi (?e + 1)"
      unfolding rnd64_pos [OF x] True by (subst power_int_add) simp_all
    have "(2 :: real) powi (?e + 1 + 53) = 2 ^ 53 * 2 powi (?e + 1)" by (subst power_int_add) simp_all
    then have "exponent (rnd64 x) \<le> ?e + 1" using pos by (intro exponent_le) (simp_all add: eq)
    with eq pos show ?thesis by (intro rnd64_exact)
  next
    case False
    then have "?r < 2 ^ 53" using r by simp
    then have "of_int ?r < (2 :: real) ^ 53" by (metis of_int_less_iff of_int_numeral of_int_power)
    moreover have "(2 :: real) powi (?e + 53) = 2 ^ 53 * 2 powi ?e" by (subst power_int_add) simp_all
    ultimately have "exponent (rnd64 x) \<le> ?e"
      using pos by (intro exponent_le) (simp_all add: rnd64_pos x)
    then show ?thesis using pos by (intro rnd64_exact [OF rnd64_pos [OF x]])
  qed
qed

interpretation ieee: float64 rnd64
  by unfold_locales (rule rnd64_mono rnd64_half rnd64_rnd64; assumption)+

section \<open>The bucket\<close>

record uploadRateLimiter =
  tokens :: real
  capacity :: real
  refill :: real
  last_at :: time

definition newUploadRateLimiter :: "(real \<Rightarrow> real) \<Rightarrow> int \<Rightarrow> time \<Rightarrow> uploadRateLimiter" where
  "newUploadRateLimiter rnd requestsPerMinute now =
     (let requestsPerMinute = (if requestsPerMinute \<le> 0 then 60 else requestsPerMinute);
          cap = rnd (of_int requestsPerMinute)
      in \<lparr>tokens = cap, capacity = cap, refill = rnd (cap / 60), last_at = now\<rparr>)"

text \<open>\<open>Time.Sub\<close> saturates; \<open>Duration.Seconds\<close> adds the whole seconds and the rest.\<close>

definition time_Sub :: "time \<Rightarrow> time \<Rightarrow> duration" where
  "time_Sub t u = max MinInt64 (min MaxInt64 (t - u))"

definition Seconds :: "(real \<Rightarrow> real) \<Rightarrow> duration \<Rightarrow> real" where
  "Seconds rnd d =
     (let sec = d sdiv Second; nsec = d smod Second
      in rnd (rnd (of_int sec) + rnd (rnd (of_int nsec) / 1000000000)))"

definition allow :: "(real \<Rightarrow> real) \<Rightarrow> time \<Rightarrow> uploadRateLimiter \<Rightarrow> bool \<times> uploadRateLimiter" where
  "allow rnd now l =
     (let elapsed = Seconds rnd (time_Sub now (last_at l));
          l = l\<lparr>last_at := now\<rparr>;
          l = l\<lparr>tokens := rnd (tokens l + rnd (elapsed * refill l))\<rparr>;
          l = (if tokens l > capacity l then l\<lparr>tokens := capacity l\<rparr> else l)
      in if tokens l < 1 then (False, l) else (True, l\<lparr>tokens := rnd (tokens l - 1)\<rparr>))"

definition isAvatarUploadPath :: "string \<Rightarrow> bool" where
  "isAvatarUploadPath p = has_prefix p ''/api/avatars/''"

text \<open>The middleware on the limiter and the state of the handler it wraps.\<close>

definition UploadRateLimitMiddleware ::
  "(real \<Rightarrow> real) \<Rightarrow> (request \<Rightarrow> 't \<Rightarrow> response \<times> 't) \<Rightarrow> time \<Rightarrow> request \<Rightarrow> uploadRateLimiter \<times> 't
    \<Rightarrow> response \<times> uploadRateLimiter \<times> 't"
where
  "UploadRateLimitMiddleware rnd nxt now r st =
     (case st of (l, t) \<Rightarrow>
        if req_Method r = ''POST'' \<and> isAvatarUploadPath (req_Path r) then
          (case allow rnd now l of
             (ok, l) \<Rightarrow>
               if \<not> ok then
                 (\<lparr>resp_code = 429, resp_type = Some ''application/json'',
                   resp_body = Text (''{'' @ [CHR 0x22] @ ''error'' @ [CHR 0x22] @ '':'' @ [CHR 0x22] @
                     ''rate limit exceeded'' @ [CHR 0x22] @ ''}'')\<rparr>, l, t)
               else (case nxt r t of (resp, t) \<Rightarrow> (resp, l, t)))
        else (case nxt r t of (resp, t) \<Rightarrow> (resp, l, t)))"

definition initial_limiter :: "(real \<Rightarrow> real) \<Rightarrow> time \<Rightarrow> uploadRateLimiter" where
  "initial_limiter rnd now = newUploadRateLimiter rnd 30 now"

section \<open>Runs of requests\<close>

fun allow_all :: "(real \<Rightarrow> real) \<Rightarrow> time list \<Rightarrow> uploadRateLimiter \<Rightarrow> bool list \<times> uploadRateLimiter" where
  "allow_all rnd [] l = ([], l)"
| "allow_all rnd (t # ts) l =
     (case allow rnd t l of (ok, l) \<Rightarrow> (case allow_all rnd ts l of (oks, l) \<Rightarrow> (ok # oks, l)))"

lemma allow_all_Cons:
  "fst (allow_all rnd (t # ts) l) = fst (allow rnd t l) # fst (allow_all rnd ts (snd (allow rnd t l)))"
  "snd (allow_all rnd (t # ts) l) = snd (allow_all rnd ts (snd (allow rnd t l)))"
  by (simp_all split: prod.split)

declare allow_all.simps(2) [simp del]

text \<open>The invariant of the limiter the program makes.\<close>

definition limiter_ok :: "(real \<Rightarrow> real) \<Rightarrow> uploadRateLimiter \<Rightarrow> bool" where
  "limiter_ok rnd l \<longleftrightarrow>
     capacity l = 30 \<and> refill l = 1 / 2 \<and> 0 \<le> tokens l \<and> tokens l \<le> 30 \<and> rnd (tokens l) = tokens l"

lemma sdiv_Second: "0 \<le> d \<Longrightarrow> d sdiv Second = d div Second"
  and smod_Second: "0 \<le> d \<Longrightarrow> d smod Second = d mod Second"
  by (cases "d = 0"; simp add: signed_divide_int_def signed_modulo_int_def)+

lemma initial_last [simp]: "last_at (initial_limiter rnd t) = t"
  by (simp add: initial_limiter_def newUploadRateLimiter_def Let_def)

context float64 begin

lemma Seconds_nonneg:
  assumes "0 \<le> d"
  shows "0 \<le> Seconds rnd d"
  unfolding Seconds_def Let_def sdiv_Second [OF assms] smod_Second [OF assms]
  by (intro rnd_nonneg add_nonneg_nonneg divide_nonneg_nonneg) (use assms in \<open>simp_all add: pos_imp_zdiv_nonneg_iff\<close>)

lemma Seconds_0 [simp]: "Seconds rnd 0 = 0"
  by (simp add: Seconds_def signed_divide_int_def signed_modulo_int_def)

lemma Seconds_ge:
  assumes "int n * Second \<le> d" and "n \<le> 2 ^ 52"
  shows "real n \<le> Seconds rnd d"
proof -
  have d: "0 \<le> d" using assms(1) by (metis dual_order.trans mult_nonneg_nonneg of_nat_0_le_iff zero_le_numeral)
  have "int n \<le> d div Second" using zdiv_mono1 [OF assms(1), of Second] by simp
  then have "real n \<le> of_int (d div Second)" by linarith
  then have "real n \<le> rnd (of_int (d div Second))" using rnd_ge_nat assms(2) by simp
  moreover have "0 \<le> rnd (rnd (of_int (d mod Second)) / 1000000000)"
    by (intro rnd_nonneg divide_nonneg_nonneg) simp_all
  ultimately show ?thesis
    unfolding Seconds_def Let_def sdiv_Second [OF d] smod_Second [OF d]
    by (intro rnd_ge_nat [OF _ assms(2)]) linarith
qed

lemma initial_ok: "limiter_ok rnd (initial_limiter rnd t)"
  using rnd_nat [of 30] rnd_half [of 1]
  by (simp add: limiter_ok_def initial_limiter_def newUploadRateLimiter_def Let_def)

text \<open>One request: the bucket after refilling, and what is taken from it.\<close>

lemma allow_cases:
  assumes "limiter_ok rnd l" and "last_at l \<le> now"
  obtains x where "0 \<le> x" "x \<le> 30" "rnd x = x" "tokens l \<le> x"
    "x = min 30 (rnd (tokens l + rnd (Seconds rnd (time_Sub now (last_at l)) * (1 / 2))))"
    "allow rnd now l = (\<not> x < 1, l\<lparr>last_at := now, tokens := if x < 1 then x else rnd (x - 1)\<rparr>)"
proof -
  let ?g = "rnd (Seconds rnd (time_Sub now (last_at l)) * (1 / 2))"
  let ?y = "rnd (tokens l + ?g)"
  have ok: "capacity l = 30" "refill l = 1 / 2" "0 \<le> tokens l" "tokens l \<le> 30" "rnd (tokens l) = tokens l"
    using assms(1) by (simp_all add: limiter_ok_def)
  have "0 \<le> time_Sub now (last_at l)" using assms(2) by (simp add: time_Sub_def)
  then have g: "0 \<le> ?g" using Seconds_nonneg by (intro rnd_nonneg) simp
  have y: "tokens l \<le> ?y"
    using rnd_mono [OF ok(3), of "tokens l + ?g"] g ok(5) by simp
  have 30: "rnd 30 = 30" using rnd_nat [of 30] by simp
  have "rnd (min 30 ?y) = min 30 ?y"
    using 30 rnd_rnd [of "tokens l + ?g"] ok(3) g by (simp add: min_def)
  moreover have "allow rnd now l = (\<not> min 30 ?y < 1,
      l\<lparr>last_at := now, tokens := if min 30 ?y < 1 then min 30 ?y else rnd (min 30 ?y - 1)\<rparr>)"
    by (simp add: allow_def Let_def ok min_def)
  ultimately show thesis
    using ok(3,4) y by (intro that [of "min 30 ?y"]) (auto simp: min_def)
qed

lemma allow_ok:
  assumes "limiter_ok rnd l" and "last_at l \<le> now"
  shows "limiter_ok rnd (snd (allow rnd now l)) \<and> last_at (snd (allow rnd now l)) = now"
proof -
  obtain x where x: "0 \<le> x" "x \<le> 30" "rnd x = x"
    "allow rnd now l = (\<not> x < 1, l\<lparr>last_at := now, tokens := if x < 1 then x else rnd (x - 1)\<rparr>)"
    using allow_cases [OF assms] by metis
  have "0 \<le> rnd (x - 1) \<and> rnd (x - 1) \<le> 30 \<and> rnd (rnd (x - 1)) = rnd (x - 1)" if "1 \<le> x"
    using that x(2) rnd_nonneg [of "x - 1"] rnd_le_nat [of "x - 1" 30] rnd_rnd [of "x - 1"] by simp
  with x assms(1) show ?thesis by (auto simp: limiter_ok_def not_less)
qed

lemma allow_all_ok:
  "limiter_ok rnd l \<Longrightarrow> sorted (last_at l # ts) \<Longrightarrow>
   limiter_ok rnd (snd (allow_all rnd ts l)) \<and> last_at (snd (allow_all rnd ts l)) = last (last_at l # ts)"
proof (induction ts arbitrary: l)
  case (Cons t ts)
  have "limiter_ok rnd (snd (allow rnd t l))" "last_at (snd (allow rnd t l)) = t"
    using allow_ok [of l t] Cons.prems by auto
  with Cons.IH [of "snd (allow rnd t l)"] Cons.prems(2) show ?case by (simp add: allow_all_Cons)
qed simp

text \<open>At one instant nothing is refilled, so the whole tokens bound what is admitted.\<close>

lemma allow_instant:
  "limiter_ok rnd l \<Longrightarrow> last_at l = t \<Longrightarrow> tokens l \<le> real j \<Longrightarrow> j \<le> 30 \<Longrightarrow>
   length (filter (\<lambda>ok. ok) (fst (allow_all rnd (replicate k t) l))) \<le> j"
proof (induction k arbitrary: l j)
  case (Suc k)
  have le: "last_at l \<le> t" using Suc.prems(2) by simp
  obtain x where x: "0 \<le> x" "x \<le> 30" "rnd x = x" "tokens l \<le> x"
    "x = min 30 (rnd (tokens l + rnd (Seconds rnd (time_Sub t (last_at l)) * (1 / 2))))"
    "allow rnd t l = (\<not> x < 1, l\<lparr>last_at := t, tokens := if x < 1 then x else rnd (x - 1)\<rparr>)"
    by (rule allow_cases [OF Suc.prems(1) le])
  have "x = tokens l"
    using x(5) Suc.prems(1,2) by (simp add: time_Sub_def limiter_ok_def)
  then have xj: "x \<le> real j" using Suc.prems(3) by simp
  let ?l = "snd (allow rnd t l)"
  have ok: "limiter_ok rnd ?l" "last_at ?l = t" using allow_ok [OF Suc.prems(1), of t] Suc.prems(2) by simp_all
  have n: "fst (allow_all rnd (replicate (Suc k) t) l) =
      fst (allow rnd t l) # fst (allow_all rnd (replicate k t) ?l)" by (simp add: allow_all_Cons)
  show ?case
  proof (cases "x < 1")
    case True
    have "length (filter (\<lambda>ok. ok) (fst (allow_all rnd (replicate k t) ?l))) \<le> j"
      by (rule Suc.IH [OF ok _ Suc.prems(4)]) (simp add: x(6) True xj)
    then show ?thesis unfolding n by (simp add: x(6) True)
  next
    case False
    then obtain i where j: "j = Suc i" using xj by (cases j) auto
    have i: "rnd (x - 1) \<le> real i" "i \<le> 30"
      using rnd_le_nat [of "x - 1" i] xj False Suc.prems(4) by (simp_all add: j)
    have "length (filter (\<lambda>ok. ok) (fst (allow_all rnd (replicate k t) ?l))) \<le> i"
      by (rule Suc.IH [OF ok _ i(2)]) (simp add: x(6) False i(1))
    then show ?thesis unfolding n by (simp add: x(6) False j)
  qed
qed simp

end

text \<open>
  C18: No burst beyond the bucket. After any requests in the order of time, of any number of upload
  requests at one instant at most 30 are admitted, whatever float64 rounding does.
\<close>

theorem burst_limit:
  assumes "float64 rnd" and "sorted (t0 # ts)" and "last (t0 # ts) \<le> t"
  shows "length (filter (\<lambda>ok. ok) (fst (allow_all rnd (replicate k t)
    (snd (allow_all rnd ts (initial_limiter rnd t0)))))) \<le> 30"
proof (cases k)
  case (Suc j)
  let ?l = "snd (allow_all rnd ts (initial_limiter rnd t0))"
  have i: "limiter_ok rnd (initial_limiter rnd t0)" "last_at (initial_limiter rnd t0) = t0"
    by (simp_all add: float64.initial_ok [OF assms(1)])
  have l: "limiter_ok rnd ?l" "last_at ?l \<le> t"
    using float64.allow_all_ok [OF assms(1) i(1), of ts] assms(2,3) i(2) by simp_all
  obtain x where x: "0 \<le> x" "x \<le> 30" "rnd x = x" "tokens ?l \<le> x"
    "x = min 30 (rnd (tokens ?l + rnd (Seconds rnd (time_Sub t (last_at ?l)) * (1 / 2))))"
    "allow rnd t ?l = (\<not> x < 1, ?l\<lparr>last_at := t, tokens := if x < 1 then x else rnd (x - 1)\<rparr>)"
    by (rule float64.allow_cases [OF assms(1) l])
  let ?m = "snd (allow rnd t ?l)"
  have ok: "limiter_ok rnd ?m" "last_at ?m = t" using float64.allow_ok [OF assms(1) l] by simp_all
  have n: "fst (allow_all rnd (replicate k t) ?l) = fst (allow rnd t ?l) # fst (allow_all rnd (replicate j t) ?m)"
    by (simp add: Suc allow_all_Cons)
  show ?thesis
  proof (cases "x < 1")
    case True
    have "length (filter (\<lambda>ok. ok) (fst (allow_all rnd (replicate j t) ?m))) \<le> 30"
      by (rule float64.allow_instant [OF assms(1) ok]) (use ok(1) in \<open>simp_all add: limiter_ok_def\<close>)
    then show ?thesis unfolding n by (simp add: x(6) True)
  next
    case False
    have "rnd (x - 1) \<le> real 29" using x(2) False float64.rnd_le_nat [OF assms(1), of "x - 1" 29] by simp
    then have "length (filter (\<lambda>ok. ok) (fst (allow_all rnd (replicate j t) ?m))) \<le> 29"
      by (intro float64.allow_instant [OF assms(1) ok]) (simp_all add: x(6) False)
    then show ?thesis unfolding n by (simp add: x(6) False)
  qed
qed simp

theorem burst_limit_witness:
  "length (filter (\<lambda>ok. ok) (fst (allow_all rnd64 (replicate 100 7)
    (snd (allow_all rnd64 [3, 5] (initial_limiter rnd64 0)))))) \<le> 30"
  by (rule burst_limit [OF ieee.float64_axioms]) simp_all

text \<open>
  C19: The bucket refills. Whatever was requested before, in the order of time, a request two seconds or
  more after the last one is admitted.
\<close>

theorem limiter_recovers:
  assumes "float64 rnd" and "sorted (t0 # ts)" and "last (t0 # ts) + 2 * Second \<le> now"
  shows "fst (allow rnd now (snd (allow_all rnd ts (initial_limiter rnd t0))))"
proof -
  let ?l = "snd (allow_all rnd ts (initial_limiter rnd t0))"
  have i: "limiter_ok rnd (initial_limiter rnd t0)" "last_at (initial_limiter rnd t0) = t0"
    by (simp_all add: float64.initial_ok [OF assms(1)])
  have l: "limiter_ok rnd ?l" "last_at ?l + 2 * Second \<le> now"
    using float64.allow_all_ok [OF assms(1) i(1), of ts] assms(2,3) i(2) by simp_all
  have le: "last_at ?l \<le> now" using l(2) by simp
  let ?s = "Seconds rnd (time_Sub now (last_at ?l))"
  obtain x where x: "0 \<le> x" "x \<le> 30" "rnd x = x" "tokens ?l \<le> x"
    "x = min 30 (rnd (tokens ?l + rnd (?s * (1 / 2))))"
    "allow rnd now ?l = (\<not> x < 1, ?l\<lparr>last_at := now, tokens := if x < 1 then x else rnd (x - 1)\<rparr>)"
    by (rule float64.allow_cases [OF assms(1) l(1) le])
  have "int 2 * Second \<le> time_Sub now (last_at ?l)" using l(2) by (simp add: time_Sub_def)
  from float64.Seconds_ge [OF assms(1) this] have "2 \<le> ?s" by simp
  then have "1 \<le> rnd (?s * (1 / 2))" using float64.rnd_ge_nat [OF assms(1), of 1 "?s * (1 / 2)"] by simp
  then have "1 \<le> tokens ?l + rnd (?s * (1 / 2))" using l(1) by (simp add: limiter_ok_def)
  then have "1 \<le> rnd (tokens ?l + rnd (?s * (1 / 2)))"
    using float64.rnd_ge_nat [OF assms(1), of 1] by simp
  then have "\<not> x < 1" unfolding x(5) by simp
  then show ?thesis by (simp add: x(6))
qed

theorem limiter_recovers_witness:
  "fst (allow rnd64 (9 * Second) (snd (allow_all rnd64 (replicate 100 7) (initial_limiter rnd64 0))))"
  by (rule limiter_recovers [OF ieee.float64_axioms]) simp_all

end
