(* ===== verification/Broker.thy ===== *)
theory Broker
  imports Worker
begin

text \<open>
  The queues as a whole: \<open>Connect\<close> of \<open>internal/queue/connection.go\<close>, and the life of a message between
  the queues that \<open>Declare\<close> sets up. RabbitMQ and its client library are parameters: the record
  \<open>broker\<close> says where a message goes, and the locale \<open>amqp_broker\<close> states the documented behaviour of
  direct exchanges, the default exchange, dead-lettering and header encoding on a list of declarations.
  A message that is routed to no queue is lost, as is one that is not persistent when the broker restarts.
\<close>

section \<open>Connecting\<close>

text \<open>The calls of the client library, on the state \<open>'w\<close> of the world.\<close>

record ('cn, 'ch, 'w) amqp_lib =
  amqp_Dial :: "string \<Rightarrow> 'w \<Rightarrow> (go_error + 'cn) \<times> 'w"
  conn_Channel :: "'cn \<Rightarrow> 'w \<Rightarrow> (go_error + 'ch) \<times> 'w"
  ch_declare :: "'ch \<Rightarrow> declare_call \<Rightarrow> 'w \<Rightarrow> go_error option \<times> 'w"
  ch_Close :: "'ch \<Rightarrow> 'w \<Rightarrow> go_error option \<times> 'w"
  conn_Close :: "'cn \<Rightarrow> 'w \<Rightarrow> go_error option \<times> 'w"

definition Connect :: "('cn, 'ch, 'w) amqp_lib \<Rightarrow> string \<Rightarrow> 'w \<Rightarrow> (go_error + 'cn \<times> 'ch) \<times> 'w" where
  "Connect lib url w =
     (case amqp_Dial lib url w of
        (Inl err, w) \<Rightarrow> (Inl (Wrapped ''dial rabbitmq'' err), w)
      | (Inr conn, w) \<Rightarrow>
        (case conn_Channel lib conn w of
           (Inl err, w) \<Rightarrow>
             (case conn_Close lib conn w of
                (_, w) \<Rightarrow> (Inl (Wrapped ''open channel'' err), w))
         | (Inr ch, w) \<Rightarrow>
           (case Declare (ch_declare lib ch) w of
              (Some err, w) \<Rightarrow>
                (case ch_Close lib ch w of
                   (_, w) \<Rightarrow>
                     (case conn_Close lib conn w of
                        (_, w) \<Rightarrow> (Inl (Wrapped ''declare topology'' err), w)))
            | (None, w) \<Rightarrow> (Inr (conn, ch), w))))"

text \<open>What is relied on: which connections are open, and which declarations have been made.\<close>

locale amqp_client =
  fixes lib :: "('cn, 'ch, 'w) amqp_lib" and conns :: "'w \<Rightarrow> 'cn set" and made :: "'w \<Rightarrow> declare_call set"
  assumes dial: "amqp_Dial lib url w = (Inr conn, w') \<Longrightarrow>
      conn \<notin> conns w \<and> conns w' = insert conn (conns w) \<and> made w' = made w"
    and dial_failed: "amqp_Dial lib url w = (Inl e, w') \<Longrightarrow> conns w' = conns w \<and> made w' = made w"
    and open_channel: "conn_Channel lib conn w = (r, w') \<Longrightarrow> conns w' = conns w \<and> made w' = made w"
    and declared: "ch_declare lib ch d w = (err, w') \<Longrightarrow>
      conns w' = conns w \<and> made w \<subseteq> made w' \<and> (err = None \<longrightarrow> d \<in> made w')"
    and close_channel: "ch_Close lib ch w = (err, w') \<Longrightarrow> conns w' = conns w"
    and close_conn: "conn_Close lib conn w = (err, w') \<Longrightarrow> conns w' = conns w - {conn}"
begin

lemma declare_all_made:
  "declare_all (ch_declare lib ch) ds w = (err, w') \<Longrightarrow>
   conns w' = conns w \<and> made w \<subseteq> made w' \<and> (err = None \<longrightarrow> set ds \<subseteq> made w')"
proof (induction ds arbitrary: w)
  case (Cons d ds)
  obtain e w1 where d: "ch_declare lib ch d w = (e, w1)" by (cases "ch_declare lib ch d w")
  show ?case
  proof (cases e)
    case None
    with Cons.prems d have "declare_all (ch_declare lib ch) ds w1 = (err, w')" by simp
    from Cons.IH [OF this] declared [OF d] None show ?thesis by auto
  next
    case (Some x)
    with Cons.prems d declared [OF d] show ?thesis by auto
  qed
qed simp

lemma connect_outcome:
  assumes "Connect lib url w = (r, w')"
  shows "case r of Inl err \<Rightarrow> conns w' = conns w
    | Inr (conn, ch) \<Rightarrow> conn \<notin> conns w \<and> conns w' = insert conn (conns w) \<and> set Declare_calls \<subseteq> made w'"
proof (cases "amqp_Dial lib url w")
  case (Pair d w1)
  show ?thesis
  proof (cases d)
    case (Inl e)
    with assms Pair dial_failed show ?thesis by (auto simp: Connect_def)
  next
    case (Inr conn)
    note d = dial [OF Pair [unfolded Inr]]
    obtain o' w2 where ch: "conn_Channel lib conn w1 = (o', w2)" by (cases "conn_Channel lib conn w1")
    show ?thesis
    proof (cases o')
      case (Inl e)
      with assms Pair Inr ch d open_channel [OF ch] show ?thesis
        by (auto simp: Connect_def dest!: close_conn split: prod.splits)
    next
      case ch': (Inr c)
      obtain e w3 where de: "Declare (ch_declare lib c) w2 = (e, w3)"
        by (cases "Declare (ch_declare lib c) w2")
      from declare_all_made [OF de [unfolded Declare_def]] assms Pair Inr ch ch' d open_channel [OF ch] de
      show ?thesis
        by (cases e) (auto simp: Connect_def dest!: close_conn close_channel split: prod.splits)
    qed
  qed
qed

end

text \<open>A client with numbered connections and a schedule of faults.\<close>

record amqp_world =
  w_conns :: "nat set"
  w_next :: nat
  w_made :: "declare_call set"
  w_faults :: "bool list"

definition w_try :: "(amqp_world \<Rightarrow> amqp_world) \<Rightarrow> amqp_world \<Rightarrow> go_error option \<times> amqp_world" where
  "w_try f w =
     (let w' = w\<lparr>w_faults := tl (w_faults w)\<rparr>
      in if w_faults w \<noteq> [] \<and> hd (w_faults w) then (Some (ErrText ''refused''), w') else (None, f w'))"

definition scheduled_amqp :: "(nat, nat, amqp_world) amqp_lib" where
  "scheduled_amqp =
     \<lparr>amqp_Dial = (\<lambda>url w. case w_try (\<lambda>w. w\<lparr>w_conns := insert (w_next w) (w_conns w),
            w_next := Suc (w_next w)\<rparr>) w of
          (Some e, w') \<Rightarrow> (Inl e, w')
        | (None, w') \<Rightarrow> if w_next w \<in> w_conns w then (Inl (ErrText ''in use''), w) else (Inr (w_next w), w')),
      conn_Channel = (\<lambda>conn w. case w_try (\<lambda>w. w) w of
          (Some e, w') \<Rightarrow> (Inl e, w') | (None, w') \<Rightarrow> (Inr conn, w')),
      ch_declare = (\<lambda>ch d. w_try (\<lambda>w. w\<lparr>w_made := insert d (w_made w)\<rparr>)),
      ch_Close = (\<lambda>ch w. (None, w)),
      conn_Close = (\<lambda>conn w. (None, w\<lparr>w_conns := w_conns w - {conn}\<rparr>))\<rparr>"

interpretation scheduled_amqp: amqp_client scheduled_amqp w_conns w_made
  by unfold_locales
    (auto simp: scheduled_amqp_def w_try_def Let_def split: prod.splits option.splits if_splits)

text \<open>
  C14: Connecting is all or nothing. If \<open>Connect\<close> succeeds, exactly one connection more is open and every
  exchange, queue and binding of the topology has been declared; if it fails at any step, no
  connection of it stays open.
\<close>

theorem Connect_all_or_nothing:
  assumes "amqp_client lib conns made" and "Connect lib url w = (r, w')"
  shows "case r of Inl err \<Rightarrow> conns w' = conns w
    | Inr (conn, ch) \<Rightarrow> conn \<notin> conns w \<and> conns w' = insert conn (conns w) \<and> set Declare_calls \<subseteq> made w'"
  by (rule amqp_client.connect_outcome [OF assms])

theorem Connect_all_or_nothing_witness:
  "let w = \<lparr>w_conns = {}, w_next = 0, w_made = {}, w_faults = [False, False, False, True]\<rparr>
   in fst (Connect scheduled_amqp ''amqp://'' w) = Inl (Wrapped ''declare topology'' (ErrText ''refused'')) \<and>
      w_conns (snd (Connect scheduled_amqp ''amqp://'' w)) = {}"
proof -
  let ?w = "\<lparr>w_conns = {}, w_next = 0, w_made = {}, w_faults = [False, False, False, True]\<rparr>"
  obtain w' where r: "Connect scheduled_amqp ''amqp://'' ?w =
      (Inl (Wrapped ''declare topology'' (ErrText ''refused'')), w')"
    by (simp add: Connect_def scheduled_amqp_def w_try_def Declare_def Declare_calls_def Let_def)
  from Connect_all_or_nothing [OF scheduled_amqp.amqp_client_axioms r] have "w_conns w' = {}" by simp
  then show ?thesis unfolding Let_def r by simp
qed

section \<open>Where messages go\<close>

text \<open>
  What the broker does with a message: the queues a publishing reaches, the queues a message
  dead-lettered from a queue reaches, and the headers after encoding and after dead-lettering.
\<close>

record broker =
  b_route :: "string \<Rightarrow> string \<Rightarrow> string set"
  b_dead_to :: "string \<Rightarrow> string set"
  b_wire :: "amqp_table option \<Rightarrow> amqp_table option"
  b_death :: "amqp_table option \<Rightarrow> amqp_table option"

fun declares_queue :: "string \<Rightarrow> declare_call \<Rightarrow> bool" where
  "declares_queue q (QueueDeclare q' _ _ _ _ _) = (q' = q)"
| "declares_queue q _ = False"

fun binds :: "string \<Rightarrow> string \<Rightarrow> string \<Rightarrow> declare_call \<Rightarrow> bool" where
  "binds ex key q (QueueBind q' key' ex' _) = (q' = q \<and> key' = key \<and> ex' = ex)"
| "binds ex key q _ = False"

fun declares_direct :: "string \<Rightarrow> declare_call \<Rightarrow> bool" where
  "declares_direct ex (ExchangeDeclare ex' kind _ _ _ _) = (ex' = ex \<and> kind = ''direct'')"
| "declares_direct ex _ = False"

fun queue_args :: "declare_call list \<Rightarrow> string \<Rightarrow> (string \<times> field) list" where
  "queue_args [] q = []"
| "queue_args (QueueDeclare q' _ _ _ _ args # ds) q = (if q' = q then args else queue_args ds q)"
| "queue_args (_ # ds) q = queue_args ds q"

definition has_ttl :: "declare_call list \<Rightarrow> string \<Rightarrow> bool" where
  "has_ttl decls q \<longleftrightarrow> map_of (queue_args decls q) ''x-message-ttl'' \<noteq> None"

definition retry_header :: "amqp_table option \<Rightarrow> field option" where
  "retry_header h = (case h of None \<Rightarrow> None | Some t \<Rightarrow> fmlookup t ''x-retry-count'')"

text \<open>
  The documented behaviour: a direct exchange delivers to the queues bound with the routing key, the
  default exchange to the queue named by it; a dead-lettered message is published to the exchange and
  key of the queue's arguments; a Go \<open>int\<close> travels as a 32-bit integer where it fits; dead-lettering
  only adds headers of its own.
\<close>

locale amqp_broker =
  fixes decls :: "declare_call list" and B :: broker
  assumes default_exchange: "d \<in> set decls \<Longrightarrow> declares_queue q d \<Longrightarrow> b_route B '''' q = {q}"
    and direct_exchange: "d \<in> set decls \<Longrightarrow> declares_direct ex d \<Longrightarrow>
      b_route B ex key = {q. \<exists>d \<in> set decls. binds ex key q d}"
    and dead_letter: "map_of (queue_args decls q) ''x-dead-letter-exchange'' = Some (FString ex) \<Longrightarrow>
      map_of (queue_args decls q) ''x-dead-letter-routing-key'' = Some (FString key) \<Longrightarrow>
      b_dead_to B q = b_route B ex key"
    and wire_int: "retry_header h = Some (FInt n) \<Longrightarrow> sint n = sint (ucast n :: 32 word) \<Longrightarrow>
      retry_header (b_wire B h) = Some (FInt32 (ucast n))"
    and wire_none: "retry_header h = None \<Longrightarrow> retry_header (b_wire B h) = None"
    and death_keeps: "retry_header (b_death B h) = retry_header h"

text \<open>A broker of this kind on any list of declarations.\<close>

definition wire_field :: "field \<Rightarrow> field" where
  "wire_field f = (case f of FInt n \<Rightarrow> FInt32 (ucast n) | _ \<Rightarrow> f)"

definition direct_route :: "declare_call list \<Rightarrow> string \<Rightarrow> string \<Rightarrow> string set" where
  "direct_route decls ex key =
     (if ex = '''' then (if list_ex (declares_queue key) decls then {key} else {})
      else {q. \<exists>d \<in> set decls. binds ex key q d})"

definition direct_broker :: "declare_call list \<Rightarrow> broker" where
  "direct_broker decls =
     \<lparr>b_route = direct_route decls,
      b_dead_to = (\<lambda>q.
        case (map_of (queue_args decls q) ''x-dead-letter-exchange'',
              map_of (queue_args decls q) ''x-dead-letter-routing-key'') of
          (Some (FString ex), Some (FString key)) \<Rightarrow> direct_route decls ex key
        | _ \<Rightarrow> {}),
      b_wire = map_option (fmmap wire_field),
      b_death = map_option (fmupd ''x-first-death-reason'' (FString ''expired''))\<rparr>"

interpretation program_broker: amqp_broker Declare_calls "direct_broker Declare_calls"
proof unfold_locales
  fix d q
  assume "d \<in> set Declare_calls" "declares_queue q d"
  then show "b_route (direct_broker Declare_calls) '''' q = {q}"
    by (auto simp: direct_broker_def direct_route_def list_ex_iff)
next
  fix d ex key
  assume "d \<in> set Declare_calls" "declares_direct ex d"
  then have "ex \<noteq> ''''" by (auto simp: topo_defs)
  then show "b_route (direct_broker Declare_calls) ex key = {q. \<exists>d\<in>set Declare_calls. binds ex key q d}"
    by (simp add: direct_broker_def direct_route_def)
qed (auto simp: direct_broker_def retry_header_def wire_field_def split: option.splits)

text \<open>The topology of the program, on such a broker.\<close>

locale avatar_queues = amqp_broker Declare_calls B for B
begin

lemma routes [simp]:
  "b_route B '''' QueueRetry30s = {QueueRetry30s}" "b_route B '''' QueueRetry2m = {QueueRetry2m}"
  "b_route B ExchangeDLX RoutingDLQ = {QueueDLQ}" "b_route B ExchangeDLX RoutingRetry = {QueueProcessing}"
  "b_route B ExchangeDirect RoutingUpload = {QueueProcessing}"
proof -
  show "b_route B '''' QueueRetry30s = {QueueRetry30s}" "b_route B '''' QueueRetry2m = {QueueRetry2m}"
    by (rule default_exchange [of "QueueDeclare QueueRetry30s True False False False retry30Args"]
        default_exchange [of "QueueDeclare QueueRetry2m True False False False retry2mArgs"];
      simp add: Declare_calls_def)+
  have dlx: "b_route B ExchangeDLX key = {q. \<exists>d \<in> set Declare_calls. binds ExchangeDLX key q d}" for key
    by (rule direct_exchange [of "ExchangeDeclare ExchangeDLX ''direct'' True False False False"])
      (simp_all add: Declare_calls_def)
  show "b_route B ExchangeDLX RoutingDLQ = {QueueDLQ}" "b_route B ExchangeDLX RoutingRetry = {QueueProcessing}"
    unfolding dlx by (auto simp: topo_defs)
  show "b_route B ExchangeDirect RoutingUpload = {QueueProcessing}"
    by (subst direct_exchange [of "ExchangeDeclare ExchangeDirect ''direct'' True False False False"])
      (auto simp: topo_defs)
qed

lemma dead_routes [simp]:
  "b_dead_to B QueueProcessing = {QueueDLQ}" "b_dead_to B QueueRetry30s = {QueueProcessing}"
  "b_dead_to B QueueRetry2m = {QueueProcessing}"
proof -
  show "b_dead_to B QueueProcessing = {QueueDLQ}"
    by (subst dead_letter [of _ ExchangeDLX RoutingDLQ]) (simp_all, simp_all add: topo_defs)
  show "b_dead_to B QueueRetry30s = {QueueProcessing}"
    by (subst dead_letter [of _ ExchangeDLX RoutingRetry]) (simp_all, simp_all add: topo_defs)
  show "b_dead_to B QueueRetry2m = {QueueProcessing}"
    by (subst dead_letter [of _ ExchangeDLX RoutingRetry]) (simp_all, simp_all add: topo_defs)
qed

end

interpretation program_queues: avatar_queues "direct_broker Declare_calls"
  by unfold_locales

section \<open>The life of a message\<close>

text \<open>
  Where a message is: in a queue, persistent or not; acknowledged and not published again; or nowhere, as
  when no queue takes it.
\<close>

datatype place = Queued string bool delivery | Done | Lost

text \<open>
  The number \<open>n\<close> counts the failed attempts on the way that were published again; the rest is the storage,
  what else the handler works on, and the channel.
\<close>

type_synonym ('s, 'x, 'c) world = "place \<times> nat \<times> 's \<times> 'x \<times> 'c"

definition arrive :: "broker \<Rightarrow> publishing \<Rightarrow> delivery" where
  "arrive B p = \<lparr>d_Body = pub_Body p, d_MessageId = pub_MessageId p, d_Headers = b_wire B (pub_Headers p)\<rparr>"

definition dead :: "broker \<Rightarrow> delivery \<Rightarrow> delivery" where
  "dead B d = d\<lparr>d_Headers := b_death B (d_Headers d)\<rparr>"

text \<open>The places of the copies of a message that the broker puts into the queues \<open>qs\<close>.\<close>

definition put :: "string set \<Rightarrow> bool \<Rightarrow> delivery \<Rightarrow> place set" where
  "put qs persistent d = (if qs = {} then {Lost} else (\<lambda>q. Queued q persistent d) ` qs)"

definition publishes_to :: "broker \<Rightarrow> string \<times> string \<times> publishing \<Rightarrow> place set" where
  "publishes_to B entry =
     (case entry of (ex, key, p) \<Rightarrow> put (b_route B ex key) (pub_DeliveryMode p = amqp_Persistent) (arrive B p))"

text \<open>
  A step of one copy of a message: it is delivered and put back, dead-lettered, published again or
  settled, or its time in a retry queue is over. If publishing reported an error but was done, the
  delivery is put back and the new copy goes its own way.
\<close>

inductive lifecycle_step ::
  "json_lib \<Rightarrow> 's storage \<Rightarrow> 'c channel \<Rightarrow> ('c \<Rightarrow> (string \<times> string \<times> publishing) list) \<Rightarrow>
   ('s, 'x) DeliveryHandler \<Rightarrow> broker \<Rightarrow> ('s, 'x, 'c) world \<Rightarrow> ('s, 'x, 'c) world \<Rightarrow> bool"
  for json ops ch published handler B
where
  requeue: "handleDelivery json ops ch handler now d (s, x, c) = (Nack True, s', x', c') \<Longrightarrow>
    lifecycle_step json ops ch published handler B
      (Queued QueueProcessing p d, n, s, x, c) (Queued QueueProcessing p d, n, s', x', c')"
| reject: "handleDelivery json ops ch handler now d (s, x, c) = (Nack False, s', x', c') \<Longrightarrow>
    pl \<in> put (b_dead_to B QueueProcessing) p (dead B d) \<Longrightarrow>
    lifecycle_step json ops ch published handler B
      (Queued QueueProcessing p d, n, s, x, c) (pl, n, s', x', c')"
| republish: "handleDelivery json ops ch handler now d (s, x, c) = (a, s', x', c') \<Longrightarrow>
    published c' = published c @ [entry] \<Longrightarrow> pl \<in> publishes_to B entry \<Longrightarrow> a = Ack \<or> pl \<noteq> Lost \<Longrightarrow>
    lifecycle_step json ops ch published handler B
      (Queued QueueProcessing p d, n, s, x, c) (pl, Suc n, s', x', c')"
| settle: "handleDelivery json ops ch handler now d (s, x, c) = (Ack, s', x', c') \<Longrightarrow>
    published c' = published c \<Longrightarrow>
    lifecycle_step json ops ch published handler B
      (Queued QueueProcessing p d, n, s, x, c) (Done, n, s', x', c')"
| expire: "has_ttl Declare_calls q \<Longrightarrow> pl \<in> put (b_dead_to B q) p (dead B d) \<Longrightarrow>
    lifecycle_step json ops ch published handler B (Queued q p d, n, s, x, c) (pl, n, s, x, c)"

text \<open>A restart of the broker: the persistent messages of the durable queues are still there.\<close>

fun queue_durable :: "declare_call list \<Rightarrow> string \<Rightarrow> bool" where
  "queue_durable [] q = False"
| "queue_durable (QueueDeclare q' durable _ _ _ _ # ds) q = (if q' = q then durable else queue_durable ds q)"
| "queue_durable (_ # ds) q = queue_durable ds q"

fun after_restart :: "place \<Rightarrow> place" where
  "after_restart (Queued q p d) = (if p \<and> queue_durable Declare_calls q then Queued q p d else Lost)"
| "after_restart pl = pl"

text \<open>
  A run, with the number \<open>r\<close> of restarts of the broker. A settlement may get lost with the connection, and
  the delivery is put back. Between the steps other requests and messages change the state, but no
  idempotency key is ever removed.
\<close>

inductive lifecycle ::
  "json_lib \<Rightarrow> 's storage \<Rightarrow> ('s \<Rightarrow> db_view) \<Rightarrow> 'c channel \<Rightarrow> ('c \<Rightarrow> (string \<times> string \<times> publishing) list) \<Rightarrow>
   ('s, 'x) DeliveryHandler \<Rightarrow> broker \<Rightarrow> ('s, 'x, 'c) world \<Rightarrow> nat \<times> ('s, 'x, 'c) world \<Rightarrow> bool"
  for json ops view ch published handler B w
where
  start: "lifecycle json ops view ch published handler B w (0, w)"
| own_step: "lifecycle json ops view ch published handler B w (r, v) \<Longrightarrow>
    lifecycle_step json ops ch published handler B v v' \<Longrightarrow>
    lifecycle json ops view ch published handler B w (r, v')"
| unsettled: "lifecycle json ops view ch published handler B w (r, Queued QueueProcessing p d, n, s, x, c) \<Longrightarrow>
    handleDelivery json ops ch handler now d (s, x, c) = (a, s', x', c') \<Longrightarrow>
    lifecycle json ops view ch published handler B w (r, Queued QueueProcessing p d, n, s', x', c')"
| restart: "lifecycle json ops view ch published handler B w (r, pl, v) \<Longrightarrow>
    lifecycle json ops view ch published handler B w (Suc r, after_restart pl, v)"
| others: "lifecycle json ops view ch published handler B w (r, pl, n, s, x, c) \<Longrightarrow>
    seen (view s) \<subseteq> seen (view s') \<Longrightarrow>
    lifecycle json ops view ch published handler B w (r, pl, n, s', x', c')"

lemma RetryCount_eq:
  "RetryCount h =
     (case retry_header h of Some (FInt32 v) \<Rightarrow> scast v | Some (FInt64 v) \<Rightarrow> v | Some (FInt v) \<Rightarrow> v | _ \<Rightarrow> 0)"
  by (auto simp: RetryCount_def retry_header_def split: option.split field.split)

lemma put_simps [simp]:
  "pl \<in> put {q} p d \<longleftrightarrow> pl = Queued q p d" "qs \<noteq> {} \<Longrightarrow> Lost \<notin> put qs p d"
  by (auto simp: put_def)

lemma publishes_somewhere: "\<exists>pl. pl \<in> publishes_to B entry"
  by (cases entry) (auto simp: publishes_to_def put_def)

context consumer_env begin

text \<open>Whatever one delivery publishes is the retry publishing of its body and count.\<close>

lemma handleDelivery_published:
  assumes "handleDelivery json ops ch handler now d (s, x, c) = (a, s', x', c')"
  shows "c' = c \<or> delivery_msg json d \<noteq> None \<and>
    (published c' = published c \<or>
     published c' = published c @ [retry_publishing (d_Body d) (RetryCount (d_Headers d) + 1)])"
  using assms
proof (cases rule: handleDelivery_cases)
  case (failed msg s1 e err)
  then show ?thesis
    using publish_done publish_failed by (cases err) (fastforce simp: SendToRetry_eq split: prod.splits)+
qed auto

end

text \<open>
  The invariant of a run: where the message can be after \<open>n\<close> failed attempts. A retry is not persistent,
  so that it is gone after a restart.
\<close>

definition queued_ok :: "json_lib \<Rightarrow> string \<Rightarrow> string \<Rightarrow> bool \<Rightarrow> delivery \<Rightarrow> nat \<Rightarrow> bool" where
  "queued_ok json body q p d n \<longleftrightarrow>
     d_Body d = body \<and> p = (n = 0) \<and>
     (q = QueueProcessing \<and> n \<le> 2 \<and> RetryCount (d_Headers d) = of_nat n \<or>
      q = QueueRetry30s \<and> n = 1 \<and> RetryCount (d_Headers d) = 1 \<or>
      q = QueueRetry2m \<and> n = 2 \<and> RetryCount (d_Headers d) = 2 \<or>
      q = QueueDLQ \<and> (n = 3 \<or> isl (json_Unmarshal json body)))"

definition life_ok :: "json_lib \<Rightarrow> ('s \<Rightarrow> db_view) \<Rightarrow> string \<Rightarrow> nat \<times> ('s, 'x, 'c) world \<Rightarrow> bool" where
  "life_ok json view body w =
     (case w of
        (r, Queued q p d, n, s, x, c) \<Rightarrow> queued_ok json body q p d n
      | (r, Done, n, s, x, c) \<Rightarrow>
          n \<le> 2 \<and> (\<exists>d msg. d_Body d = body \<and> delivery_msg json d = Some msg \<and>
            msg_MessageID msg \<in> seen (view s))
      | (r, Lost, n, s, x, c) \<Rightarrow> 0 < r \<and> 0 < n \<and> n \<le> 3 + (if isl (json_Unmarshal json body) then n else 0))"

lemma life_ok_simps [simp]:
  "life_ok json view body (r, Queued q p d, n, s, x, c) = queued_ok json body q p d n"
  "life_ok json view body (r, Lost, n, s, x, c) =
     (0 < r \<and> 0 < n \<and> n \<le> 3 + (if isl (json_Unmarshal json body) then n else 0))"
  by (simp_all add: life_ok_def)

lemma queue_names_distinct [simp]:
  "QueueProcessing \<noteq> QueueDLQ" "QueueProcessing \<noteq> QueueRetry30s" "QueueProcessing \<noteq> QueueRetry2m"
  "QueueRetry30s \<noteq> QueueProcessing" "QueueRetry2m \<noteq> QueueProcessing" "QueueDLQ \<noteq> QueueProcessing"
  "QueueRetry30s \<noteq> QueueRetry2m" "QueueRetry2m \<noteq> QueueRetry30s" "QueueRetry30s \<noteq> QueueDLQ"
  "QueueRetry2m \<noteq> QueueDLQ" "QueueDLQ \<noteq> QueueRetry30s" "QueueDLQ \<noteq> QueueRetry2m"
  by (simp_all add: topo_defs)

lemma queue_facts [simp]:
  "has_ttl Declare_calls QueueRetry30s" "has_ttl Declare_calls QueueRetry2m"
  "\<not> has_ttl Declare_calls QueueProcessing" "\<not> has_ttl Declare_calls QueueDLQ"
  "queue_durable Declare_calls QueueProcessing" "queue_durable Declare_calls QueueRetry30s"
  "queue_durable Declare_calls QueueRetry2m" "queue_durable Declare_calls QueueDLQ"
  by (simp_all add: has_ttl_def topo_defs)

lemma delivery_msg_None: "delivery_msg json d = None \<longleftrightarrow> isl (json_Unmarshal json (d_Body d))"
  by (cases "json_Unmarshal json (d_Body d)") (simp_all add: delivery_msg_def)

lemma retry_publishing_cases:
  "retry_publishing body 1 = ('''', QueueRetry30s,
     zero_publishing\<lparr>pub_Body := body, pub_Headers := Some (fmupd ''x-retry-count'' (FInt 1) fmempty)\<rparr>)"
  "retry_publishing body 2 = ('''', QueueRetry2m,
     zero_publishing\<lparr>pub_Body := body, pub_Headers := Some (fmupd ''x-retry-count'' (FInt 2) fmempty)\<rparr>)"
  "retry_publishing body 3 = (ExchangeDLX, RoutingDLQ, zero_publishing\<lparr>pub_Body := body\<rparr>)"
  by (simp_all add: retry_publishing_def)

text \<open>What a restart leaves: only a retry, which is not persistent, is lost by it.\<close>

lemma restart_ok: "queued_ok json body q p d n \<Longrightarrow> after_restart (Queued q p d) = (if n = 0 then Queued q p d else Lost)"
  by (auto simp: queued_ok_def)

context avatar_queues begin

lemma wire_count:
  assumes "n = 1 \<or> n = 2"
  shows "RetryCount (b_wire B (Some (fmupd ''x-retry-count'' (FInt n) fmempty))) = n"
  using assms wire_int [of "Some (fmupd ''x-retry-count'' (FInt n) fmempty)" n]
  by (auto simp: RetryCount_eq retry_header_def)

lemma wire_no_count: "retry_header h = None \<Longrightarrow> RetryCount (b_wire B h) = 0"
  using wire_none by (simp add: RetryCount_eq)

lemma dead_simps [simp]:
  "d_Body (dead B d) = d_Body d" "RetryCount (d_Headers (dead B d)) = RetryCount (d_Headers d)"
  "d_MessageId (dead B d) = d_MessageId d"
  by (simp_all add: dead_def RetryCount_eq death_keeps)

text \<open>Where the retry publishing after \<open>n\<close> failed attempts arrives: in one queue, with the count.\<close>

lemma retry_arrives:
  assumes "n \<le> 2" and "pl \<in> publishes_to B (retry_publishing body (of_nat n + 1))"
  shows "\<exists>q d. pl = Queued q False d \<and> d_MessageId d = '''' \<and> queued_ok json body q False d (Suc n) \<and>
    q \<noteq> QueueProcessing"
proof -
  from assms(1) consider "n = 0" | "n = 1" | "n = 2" by linarith
  then show ?thesis
    by cases (use assms(2) wire_count [of 1] wire_count [of 2] in
      \<open>auto simp: retry_publishing_cases arrive_def zero_publishing_def publishes_to_def queued_ok_def\<close>)
qed

end

text \<open>Where an upload goes, and where a retry goes, on a channel that keeps its contract.\<close>

context avatar_queues begin

lemma upload_routed:
  assumes "channel_contract ch published" and "PublishAvatarProcess json trace ch msg c = (None, c')"
  shows "\<exists>ex key p. published c' = published c @ [(ex, key, p)] \<and> b_route B ex key = {QueueProcessing} \<and>
    json_Marshal json msg = Inr (pub_Body p) \<and> pub_MessageId p = msg_MessageID msg \<and>
    pub_DeliveryMode p = amqp_Persistent \<and>
    (''x-retry-count'' \<notin> fst ` set trace \<longrightarrow> RetryCount (d_Headers (arrive B p)) = 0)"
proof -
  obtain body where b: "json_Marshal json msg = Inr body"
    using assms(2) by (cases "json_Marshal json msg") (auto simp: PublishAvatarProcess_def)
  obtain h where h: "fold (\<lambda>(k, v). carrier_Set k v) trace (Some fmempty) = Some h" using fold_Set_Some by blast
  let ?p = "\<lparr>pub_ContentType = ''application/json'', pub_Body = body, pub_MessageId = msg_MessageID msg,
    pub_DeliveryMode = amqp_Persistent, pub_Headers = Some h\<rparr>"
  have "Publish ch ExchangeDirect RoutingUpload False False ?p c = (None, c')"
    using assms(2) b h by (simp add: PublishAvatarProcess_def InjectTraceContext_def Let_def)
  then have "published c' = published c @ [(ExchangeDirect, RoutingUpload, ?p)]"
    by (rule channel_contract.publish_done [OF assms(1)])
  moreover have "RetryCount (d_Headers (arrive B ?p)) = 0" if "''x-retry-count'' \<notin> fst ` set trace"
    using fold_Set_other [OF that h] wire_no_count [of "Some h"] by (simp add: arrive_def retry_header_def)
  ultimately show ?thesis using b by (intro exI [of _ ExchangeDirect] exI [of _ RoutingUpload] exI [of _ ?p]) simp
qed

lemma retry_routed:
  assumes "channel_contract ch published" and "SendToRetry ch body k c = (None, c')"
  shows "\<exists>ex key p. published c' = published c @ [(ex, key, p)] \<and> pub_Body p = body \<and>
    b_route B ex key = {if k = 1 then QueueRetry30s else if k = 2 then QueueRetry2m else QueueDLQ}"
proof -
  obtain ex key p where r: "retry_publishing body k = (ex, key, p)" by (metis prod_cases3)
  then have "published c' = published c @ [(ex, key, p)]"
    using channel_contract.publish_done [OF assms(1)] assms(2) by (simp add: SendToRetry_eq)
  with r show ?thesis by (auto simp: retry_publishing_def zero_publishing_def)
qed

lemma upload_enters:
  assumes "channel_contract ch published" and "''x-retry-count'' \<notin> fst ` set trace"
    and "PublishAvatarProcess json trace ch msg c0 = (None, c)"
    and "published c = published c0 @ [entry]" and "pl \<in> publishes_to B entry"
  shows "\<exists>body. json_Marshal json msg = Inr body \<and> life_ok json view body (0, pl, 0, s, x, c')"
proof -
  obtain ex key p where e: "published c = published c0 @ [(ex, key, p)]" "b_route B ex key = {QueueProcessing}"
      "json_Marshal json msg = Inr (pub_Body p)" "pub_DeliveryMode p = amqp_Persistent"
      "RetryCount (d_Headers (arrive B p)) = 0"
    using upload_routed [OF assms(1,3)] assms(2) by blast
  then have "pl = Queued QueueProcessing True (arrive B p)" using assms(4,5) by (simp add: publishes_to_def)
  moreover have "d_Body (arrive B p) = pub_Body p" by (simp add: arrive_def)
  ultimately show ?thesis using e(3,5) by (simp add: queued_ok_def)
qed

end

locale message_life = consumer_env ops view ch published + avatar_queues B
  for ops :: "'s storage" and view :: "'s \<Rightarrow> db_view" and ch :: "'c channel"
    and published :: "'c \<Rightarrow> (string \<times> string \<times> publishing) list" and B :: broker
begin

lemma republished:
  assumes "handleDelivery json ops ch handler now d (s, x, c) = (a, s', x', c')"
    and "published c' = published c @ [entry]" and "pl \<in> publishes_to B entry"
    and "queued_ok json body QueueProcessing p d n"
  shows "\<exists>q d. pl = Queued q False d \<and> d_MessageId d = '''' \<and> queued_ok json body q False d (Suc n) \<and>
    q \<noteq> QueueProcessing"
proof -
  have n: "d_Body d = body" "n \<le> 2" "RetryCount (d_Headers d) = of_nat n"
    using assms(4) by (auto simp: queued_ok_def)
  have "published c' \<noteq> published c" using assms(2) by simp
  then have "retry_publishing body (of_nat n + 1) = entry"
    using handleDelivery_published [OF assms(1)] assms(2) n by auto
  with assms(3) retry_arrives [OF n(2)] show ?thesis by blast
qed

lemma lifecycle_step_ok:
  assumes "lifecycle_step json ops ch published handler B v v'" and "life_ok json view body (r, v)"
  shows "life_ok json view body (r, v')"
  using assms
proof (cases rule: lifecycle_step.cases)
  case (requeue now d s x c s' x' c' p n)
  with assms(2) show ?thesis by simp
next
  case (reject now d s x c s' x' c' pl p n)
  from handleDelivery_settles [OF reject(3)] assms(2) reject show ?thesis
    by (simp add: queued_ok_def delivery_msg_None)
next
  case (republish now d s x c a s' x' c' entry pl p n)
  with assms(2) have "queued_ok json body QueueProcessing p d n" by simp
  from republished [OF republish(3-5) this] show ?thesis by (auto simp: republish(2))
next
  case (settle now d s x c s' x' c' p n)
  have d: "d_Body d = body" and n: "n \<le> 2" using assms(2) settle(1) by (auto simp: queued_ok_def)
  from handleDelivery_settles [OF settle(3)] settle(4)
  obtain msg where "delivery_msg json d = Some msg" "msg_MessageID msg \<in> seen (view s')" by auto
  with d n show ?thesis by (auto simp: settle(2) life_ok_def)
next
  case (expire q pl p d n s x c)
  then show ?thesis using assms(2) by (auto simp: queued_ok_def)
qed

lemma lifecycle_ok:
  assumes "lifecycle json ops view ch published handler B w v" and "life_ok json view body (0, w)"
  shows "life_ok json view body v"
  using assms
proof (induction rule: lifecycle.induct)
  case (own_step r v v')
  then show ?case using lifecycle_step_ok by blast
next
  case (restart r pl v)
  obtain n s x c where v: "v = (n, s, x, c)" by (metis prod_cases4)
  have ok: "life_ok json view body (r, pl, v)" using restart by blast
  show ?case
  proof (cases pl)
    case (Queued q p d)
    with ok have "queued_ok json body q p d n" by (simp add: v)
    with restart_ok [OF this] show ?thesis by (auto simp: Queued v queued_ok_def)
  qed (use ok in \<open>simp_all add: v life_ok_def\<close>)
next
  case (others r pl n s x c s' x' c')
  then show ?case by (cases pl) (auto simp: life_ok_def)
qed simp_all

end

section \<open>The end of a message\<close>

text \<open>A step of a message while the database and the channel are up, in whatever state they are.\<close>

definition healthy_move ::
  "json_lib \<Rightarrow> 'c channel \<Rightarrow> ('c \<Rightarrow> (string \<times> string \<times> publishing) list) \<Rightarrow> ('c \<Rightarrow> bool) \<Rightarrow>
   (pg, 'x) DeliveryHandler \<Rightarrow> broker \<Rightarrow> place \<times> nat \<Rightarrow> place \<times> nat \<Rightarrow> bool"
where
  "healthy_move json ch published up handler B v v' \<longleftrightarrow>
     (\<exists>s x c s' x' c'. pg_faults s = [] \<and> up c \<and>
       lifecycle_step json pg_ops ch published handler B
         (fst v, snd v, s, x, c) (fst v', snd v', s', x', c'))"

text \<open>A channel whose broker takes what is published while it is up.\<close>

locale healthy_channel = channel_contract ch published
  for ch :: "'c channel" and published :: "'c \<Rightarrow> (string \<times> string \<times> publishing) list" +
  fixes up :: "'c \<Rightarrow> bool"
  assumes publish_ok: "up c \<Longrightarrow> Publish ch ex key mand imm p c = (err, c') \<Longrightarrow> err = None \<and> up c'"

text \<open>How far a message is from its end.\<close>

definition life_rank :: "place \<Rightarrow> nat \<Rightarrow> nat" where
  "life_rank pl n =
     (case pl of
        Queued q p d \<Rightarrow> if q = QueueProcessing then 5 - 2 * n else if q = QueueDLQ then 0 else 6 - 2 * n
      | _ \<Rightarrow> 0)"

locale settling = message_life pg_ops pg_view ch published B + healthy_channel ch published up
  for ch :: "'c channel" and published and B and up :: "'c \<Rightarrow> bool" +
  fixes handler :: "(pg, 'x) DeliveryHandler" and json :: json_lib and body :: string
  assumes handler_keeps: "handler msg d (s, x) = (r, s', x') \<Longrightarrow> pg_faults s = [] \<Longrightarrow> pg_faults s' = []"
    and body_id: "json_Unmarshal json body = Inr msg \<Longrightarrow> text_ok (msg_MessageID msg)"
begin

text \<open>With everything up, no delivery is put back.\<close>

lemma never_requeued:
  assumes "handleDelivery json pg_ops ch handler now d (s, x, c) = (a, s', x', c')"
    and "pg_faults s = []" and "up c" and "d_Body d = body" and "text_ok (d_MessageId d)"
  shows "a \<noteq> Nack True"
proof -
  have id: "text_ok (msg_MessageID msg)" if "delivery_msg json d = Some msg" for msg
    using that assms(4,5) body_id by (auto simp: delivery_msg_def with_id_def split: sum.splits if_splits)
  show ?thesis
    using assms(1)
  proof (cases rule: handleDelivery_cases)
    case (check_failed msg e)
    then show ?thesis using pg.is_processed_ok [OF assms(2) check_failed(2)] id by simp
  next
    case (failed msg s1 e err)
    have "err = None"
      using failed(4) publish_ok [OF assms(3)] by (auto simp: SendToRetry_eq split: prod.splits)
    with failed show ?thesis by simp
  next
    case (handled msg s1 s2 err)
    have "pg_faults s1 = []" using pg.is_processed_ok [OF assms(2) handled(2)] by simp
    with handler_keeps [OF handled(3)] have "pg_faults s2 = []" by simp
    from pg.mark_ok [OF this handled(4)] id [OF handled(1)] handled(5) show ?thesis by simp
  qed auto
qed

definition moving :: "place \<times> nat \<Rightarrow> bool" where
  "moving v \<longleftrightarrow>
     (case fst v of
        Queued q p d \<Rightarrow> queued_ok json body q p d (snd v) \<and> text_ok (d_MessageId d)
      | Done \<Rightarrow> True
      | Lost \<Rightarrow> False)"

lemma healthy_move_rank:
  assumes "healthy_move json ch published up handler B v v'" and "moving v"
  shows "moving v' \<and> life_rank (fst v') (snd v') < life_rank (fst v) (snd v)"
proof -
  obtain pl n pl' n' where v: "v = (pl, n)" "v' = (pl', n')" by (cases v; cases v')
  from assms(1) obtain s x c s' x' c' where up: "pg_faults s = []" "up c"
    and step: "lifecycle_step json pg_ops ch published handler B (pl, n, s, x, c) (pl', n', s', x', c')"
    by (auto simp: healthy_move_def v)
  have empty: "text_ok ''''" by simp
  from step show ?thesis
  proof (cases rule: lifecycle_step.cases)
    case (requeue now d p)
    then show ?thesis
      using never_requeued [OF requeue(4) up] assms(2) by (simp add: v moving_def queued_ok_def)
  next
    case (reject now d p)
    from handleDelivery_settles [OF reject(3)] reject assms(2) show ?thesis
      by (auto simp: v moving_def queued_ok_def delivery_msg_None life_rank_def)
  next
    case (republish now d a entry p)
    with assms(2) have q: "queued_ok json body QueueProcessing p d n" by (simp add: v moving_def)
    obtain q' d' where pl': "pl' = Queued q' False d'" "d_MessageId d' = ''''"
        "queued_ok json body q' False d' (Suc n)" "q' \<noteq> QueueProcessing"
      using republished [OF republish(3-5) q] by blast
    have "n \<le> 2" using q by (simp add: queued_ok_def)
    then have "6 - 2 * Suc n < 5 - 2 * n" by arith
    with pl' republish empty show ?thesis by (auto simp: v moving_def life_rank_def)
  next
    case (settle now d p)
    with assms(2) show ?thesis by (auto simp: v moving_def queued_ok_def life_rank_def)
  next
    case (expire q p d)
    with assms(2) show ?thesis by (auto simp: v moving_def queued_ok_def life_rank_def)
  qed
qed

lemma healthy_moves_bound:
  "(healthy_move json ch published up handler B ^^ k) v v' \<Longrightarrow> moving v \<Longrightarrow>
   moving v' \<and> k + life_rank (fst v') (snd v') \<le> life_rank (fst v) (snd v)"
proof (induction k arbitrary: v')
  case (Suc k)
  then obtain v1 where v1: "(healthy_move json ch published up handler B ^^ k) v v1"
    and step: "healthy_move json ch published up handler B v1 v'" by auto
  from Suc.IH [OF v1 Suc.prems(2)] healthy_move_rank [OF step] show ?case by auto
qed simp

text \<open>And while it is in another queue than the last, there is a step, whatever the state.\<close>

lemma step_exists:
  assumes "moving (Queued q p d, n)" and "q \<noteq> QueueDLQ"
  shows "\<exists>v'. lifecycle_step json pg_ops ch published handler B (Queued q p d, n, s, x, c) v'"
proof (cases "q = QueueProcessing")
  case True
  have ok: "queued_ok json body QueueProcessing p d n" using assms True by (simp add: moving_def)
  obtain a s' x' c' where h: "handleDelivery json pg_ops ch handler 0 d (s, x, c) = (a, s', x', c')"
    by (metis prod_cases4)
  note settles = handleDelivery_settles [OF h]
  show ?thesis
  proof (cases a)
    case (Nack b)
    show ?thesis
    proof (cases b)
      case b: True
      with h Nack have "handleDelivery json pg_ops ch handler 0 d (s, x, c) = (Nack True, s', x', c')" by simp
      from lifecycle_step.requeue [OF this] show ?thesis unfolding True by blast
    next
      case b: False
      with h Nack have "handleDelivery json pg_ops ch handler 0 d (s, x, c) = (Nack False, s', x', c')" by simp
      then have "lifecycle_step json pg_ops ch published handler B (Queued QueueProcessing p d, n, s, x, c)
          (Queued QueueDLQ p (dead B d), n, s', x', c')"
        by (rule lifecycle_step.reject) simp
      then show ?thesis unfolding True by blast
    qed
  next
    case Ack
    then have "c' = c \<or> (\<exists>entry. published c' = published c @ [entry])"
      using settles by (auto simp del: split_paired_Ex)
    then show ?thesis
    proof
      assume "c' = c"
      with lifecycle_step.settle [OF h [unfolded Ack]] show ?thesis unfolding True by blast
    next
      assume "\<exists>entry. published c' = published c @ [entry]"
      then obtain entry where e: "published c' = published c @ [entry]" ..
      obtain pl where "pl \<in> publishes_to B entry" using publishes_somewhere by blast
      from lifecycle_step.republish [OF h e this] Ack show ?thesis unfolding True by blast
    qed
  qed
next
  case False
  with assms have "q = QueueRetry30s \<or> q = QueueRetry2m" by (auto simp: moving_def queued_ok_def)
  then have q: "has_ttl Declare_calls q" "Queued QueueProcessing p (dead B d) \<in> put (b_dead_to B q) p (dead B d)"
    by auto
  show ?thesis by (rule exI, rule lifecycle_step.expire [OF q])
qed

end

section \<open>The channels of the program and of its tests\<close>

text \<open>A channel that logs what it is given, with a schedule of faults.\<close>

record log_channel =
  sent :: "(string \<times> string \<times> publishing) list"
  ch_faults :: "(bool \<times> string) option list"

text \<open>A scheduled fault \<open>(b, e)\<close> reports \<open>e\<close>, after the message was published if \<open>b\<close>.\<close>

definition log_Publish ::
  "string \<Rightarrow> string \<Rightarrow> bool \<Rightarrow> bool \<Rightarrow> publishing \<Rightarrow> log_channel \<Rightarrow> go_error option \<times> log_channel"
where
  "log_Publish ex key mand imm p c =
     (let c' = c\<lparr>ch_faults := tl (ch_faults c)\<rparr>; c'' = c'\<lparr>sent := sent c @ [(ex, key, p)]\<rparr>
      in case ch_faults c of
           Some (b, e) # _ \<Rightarrow> (Some (ErrText e), if b then c'' else c')
         | _ \<Rightarrow> (None, c''))"

definition log_channel_ops :: "log_channel channel" where
  "log_channel_ops =
     \<lparr>Publish = log_Publish, Qos = (\<lambda>_ _ _ c. (None, c)), ConsumeQueue = (\<lambda>_ _ _ _ _ _ c. (None, c))\<rparr>"

interpretation log_ch: healthy_channel log_channel_ops sent "\<lambda>c. ch_faults c = []"
  by unfold_locales
    (auto simp: log_channel_ops_def log_Publish_def Let_def split: list.splits option.splits if_splits)

interpretation pg_consumer: consumer_env pg_ops pg_view log_channel_ops sent
  by unfold_locales

interpretation test_consumer: consumer_env mem_ops mem_view log_channel_ops sent
  by unfold_locales

interpretation pg_life: message_life pg_ops pg_view log_channel_ops sent "direct_broker Declare_calls"
  by unfold_locales

lemma pg_message_life:
  assumes "channel_contract ch published" and "avatar_queues B"
  shows "message_life pg_ops pg_view ch published B"
  using assms pg.storage_contract_axioms
  by (simp add: message_life_def consumer_env_def)

text \<open>The program's handler keeps the database up.\<close>

lemma settling_worker:
  assumes "healthy_channel ch published up" and "avatar_queues B"
    and "\<And>msg. json_Unmarshal json body = Inr msg \<Longrightarrow> text_ok (msg_MessageID msg)"
  shows "settling ch published B up (service_handler pg_ops objs codec clk) json body"
proof -
  have "channel_contract ch published" using assms(1) by (rule healthy_channel.axioms)
  from pg_message_life [OF this assms(2)] assms(1) show ?thesis
    by (rule settling.intro)
      (unfold_locales, auto simp: service_handler_def assms(3) dest: pg.Handle_keeps_healthy)
qed

interpretation pg_settling: settling log_channel_ops sent "direct_broker Declare_calls" "\<lambda>c. ch_faults c = []"
    "service_handler pg_ops (client_worker_objects scheduled_api demo_client) flat_codec int"
    "\<lparr>json_Marshal = (\<lambda>m. Inr (msg_MessageID m)), json_Unmarshal = (\<lambda>b. Inl (ErrText ''no JSON''))\<rparr>" "''x''"
  by (rule settling_worker [OF log_ch.healthy_channel_axioms program_queues.avatar_queues_axioms]) simp

section \<open>A message that always fails\<close>

text \<open>
  A run for the witnesses: an upload whose handler always fails, from its publishing on, a database and a
  channel that are up.
\<close>

definition demo_json :: json_lib where
  "demo_json =
     \<lparr>json_Marshal = (\<lambda>m. Inr (msg_MessageID m)),
      json_Unmarshal = (\<lambda>b. if b = '''' then Inl (ErrText ''unexpected end of JSON input'')
        else Inr \<lparr>msg_MessageID = b, msg_UserID = ''u'', msg_StagingKey = ''staging/u/'' @ b\<rparr>)\<rparr>"

text \<open>The program's worker on a bucket without the staged upload.\<close>

definition demo_worker :: "(pg, s3_state) DeliveryHandler" where
  "demo_worker = service_handler pg_ops (client_worker_objects scheduled_api demo_client) flat_codec int"

definition demo_void :: s3_state where
  "demo_void = \<lparr>s3_objects = (\<lambda>_. Map.empty), s3_buckets = {''avatars''}, s3_faults = []\<rparr>"

definition demo_db :: pg where
  "demo_db = empty_pg"

lemma demo_db_simps [simp]:
  "t_avatars demo_db = fmempty" "t_processed demo_db = fmempty" "pg_faults demo_db = []"
  by (simp_all add: demo_db_def)

definition demo_upload_msg :: AvatarProcessMessage where
  "demo_upload_msg = \<lparr>msg_MessageID = ''m1'', msg_UserID = ''u'', msg_StagingKey = ''staging/u/m1''\<rparr>"

definition demo_publishing :: publishing where
  "demo_publishing =
     \<lparr>pub_ContentType = ''application/json'', pub_Body = ''m1'', pub_MessageId = ''m1'',
      pub_DeliveryMode = amqp_Persistent, pub_Headers = Some fmempty\<rparr>"

definition demo_delivery :: delivery where
  "demo_delivery = \<lparr>d_Body = ''m1'', d_MessageId = ''m1'', d_Headers = Some fmempty\<rparr>"

definition demo_log :: "(string \<times> string \<times> publishing) list \<Rightarrow> log_channel" where
  "demo_log ps = \<lparr>sent = ps, ch_faults = []\<rparr>"

lemma demo_log_sent: "sent (demo_log ps) = ps" "ch_faults (demo_log ps) = []"
  by (simp_all add: demo_log_def)

lemma demo_published:
  "PublishAvatarProcess demo_json [] log_channel_ops demo_upload_msg (demo_log []) =
     (None, demo_log [(ExchangeDirect, RoutingUpload, demo_publishing)])"
  by (simp add: PublishAvatarProcess_def demo_json_def demo_upload_msg_def log_channel_ops_def log_Publish_def
      demo_log_def demo_publishing_def InjectTraceContext_def Let_def)


abbreviation demo_step where
  "demo_step \<equiv> lifecycle_step demo_json pg_ops log_channel_ops sent demo_worker (direct_broker Declare_calls)"

abbreviation demo_run where
  "demo_run \<equiv> lifecycle demo_json pg_ops pg_view log_channel_ops sent demo_worker (direct_broker Declare_calls)
     (Queued QueueProcessing True demo_delivery, 0, demo_db, demo_void,
      demo_log [(ExchangeDirect, RoutingUpload, demo_publishing)])"

lemma demo_queued: "queued_ok demo_json ''m1'' QueueProcessing True demo_delivery 0"
  by (simp add: queued_ok_def demo_delivery_def RetryCount_def)

lemma demo_failure:
  "msg_UserID msg = ''u'' \<Longrightarrow> \<exists>e. demo_worker msg d (demo_db, demo_void) = (Some e, demo_db, demo_void)"
  by (simp add: demo_worker_def service_handler_def Handle_def fail_with_def client_worker_objects_def
      client_Download_def scheduled_api_def s3_try_def demo_void_def demo_client_def pg_ops_def
      pg_UpdateAvatarStatus_def sql_update_def demo_ids Let_def)

lemma demo_attempt:
  assumes "d_Body d = ''m1''"
  shows "handleDelivery demo_json pg_ops log_channel_ops demo_worker 0 d (demo_db, demo_void, demo_log ps) =
    (Ack, demo_db, demo_void, demo_log (ps @ [retry_publishing ''m1'' (RetryCount (d_Headers d) + 1)]))"
proof -
  let ?msg = "\<lparr>msg_MessageID = ''m1'', msg_UserID = ''u'', msg_StagingKey = ''staging/u/m1''\<rparr>"
  obtain e where "demo_worker ?msg d (demo_db, demo_void) = (Some e, demo_db, demo_void)"
    using demo_failure [of ?msg] by auto
  with assms show ?thesis
    by (simp add: handleDelivery_def demo_json_def with_id_def IsProcessed_def pg_ops_def
      pg_IsMessageProcessed_def sql_exists_def demo_ids SendToRetry_eq
      log_channel_ops_def log_Publish_def demo_log_def split: prod.split)
qed

lemma demo_fails:
  assumes "queued_ok demo_json ''m1'' QueueProcessing p d n"
  shows "\<exists>d' e. demo_step (Queued QueueProcessing p d, n, demo_db, demo_void, demo_log ps)
      (Queued (if n = 0 then QueueRetry30s else if n = 1 then QueueRetry2m else QueueDLQ) False d', Suc n,
       demo_db, demo_void, demo_log (ps @ [e])) \<and>
    queued_ok demo_json ''m1'' (if n = 0 then QueueRetry30s else if n = 1 then QueueRetry2m else QueueDLQ)
      False d' (Suc n)"
proof -
  have d: "d_Body d = ''m1''" "RetryCount (d_Headers d) = of_nat n" "n \<le> 2" using assms by (auto simp: queued_ok_def)
  let ?e = "retry_publishing ''m1'' (of_nat n + 1)"
  obtain pl where pl: "pl \<in> publishes_to (direct_broker Declare_calls) ?e" using publishes_somewhere by blast
  obtain q d' where q: "pl = Queued q False d'" "queued_ok demo_json ''m1'' q False d' (Suc n)" "q \<noteq> QueueProcessing"
    using program_queues.retry_arrives [OF d(3) pl] by blast
  moreover have "q = (if n = 0 then QueueRetry30s else if n = 1 then QueueRetry2m else QueueDLQ)"
    using q d(3) by (auto simp: queued_ok_def demo_json_def)
  moreover have "demo_step (Queued QueueProcessing p d, n, demo_db, demo_void, demo_log ps)
      (pl, Suc n, demo_db, demo_void, demo_log (ps @ [?e]))"
    by (rule lifecycle_step.republish [OF demo_attempt [OF d(1), unfolded d(2)] _ pl]) (simp_all add: demo_log_sent)
  ultimately show ?thesis by blast
qed

lemma demo_expires:
  assumes "queued_ok demo_json ''m1'' q p d n" and "q = QueueRetry30s \<or> q = QueueRetry2m"
  shows "\<exists>d'. demo_step (Queued q p d, n, demo_db, demo_void, c)
      (Queued QueueProcessing p d', n, demo_db, demo_void, c) \<and>
    queued_ok demo_json ''m1'' QueueProcessing p d' n"
proof -
  have "has_ttl Declare_calls q" "Queued QueueProcessing p (dead (direct_broker Declare_calls) d) \<in>
      put (b_dead_to (direct_broker Declare_calls) q) p (dead (direct_broker Declare_calls) d)"
    using assms(2) by auto
  from lifecycle_step.expire [OF this] assms show ?thesis by (fastforce simp: queued_ok_def)
qed

abbreviation demo_state :: "place \<Rightarrow> nat \<Rightarrow> (string \<times> string \<times> publishing) list \<Rightarrow> (pg, s3_state, log_channel) world" where
  "demo_state pl n ps \<equiv> (pl, n, demo_db, demo_void, demo_log ps)"

text \<open>The way to the dead letter queue.\<close>

lemma demo_way:
  obtains d1 d2 d3 d4 d5 ps1 ps2 ps3 where
    "demo_step (demo_state (Queued QueueProcessing True demo_delivery) 0
        [(ExchangeDirect, RoutingUpload, demo_publishing)]) (demo_state (Queued QueueRetry30s False d1) 1 ps1)"
    "demo_step (demo_state (Queued QueueRetry30s False d1) 1 ps1) (demo_state (Queued QueueProcessing False d2) 1 ps1)"
    "demo_step (demo_state (Queued QueueProcessing False d2) 1 ps1) (demo_state (Queued QueueRetry2m False d3) 2 ps2)"
    "demo_step (demo_state (Queued QueueRetry2m False d3) 2 ps2) (demo_state (Queued QueueProcessing False d4) 2 ps2)"
    "demo_step (demo_state (Queued QueueProcessing False d4) 2 ps2) (demo_state (Queued QueueDLQ False d5) 3 ps3)"
proof -
  have n: "Suc 1 = 2" "Suc 2 = 3" by simp_all
  obtain d1 ps1 where 1: "demo_step (demo_state (Queued QueueProcessing True demo_delivery) 0
        [(ExchangeDirect, RoutingUpload, demo_publishing)]) (demo_state (Queued QueueRetry30s False d1) 1 ps1)"
      "queued_ok demo_json ''m1'' QueueRetry30s False d1 1"
    using demo_fails [OF demo_queued] by (simp only: refl if_True One_nat_def) blast
  obtain d2 where 2: "demo_step (demo_state (Queued QueueRetry30s False d1) 1 ps1)
        (demo_state (Queued QueueProcessing False d2) 1 ps1)" "queued_ok demo_json ''m1'' QueueProcessing False d2 1"
    using demo_expires [OF 1(2)] by blast
  obtain d3 ps2 where 3: "demo_step (demo_state (Queued QueueProcessing False d2) 1 ps1)
        (demo_state (Queued QueueRetry2m False d3) 2 ps2)" "queued_ok demo_json ''m1'' QueueRetry2m False d3 2"
    using demo_fails [OF 2(2)] unfolding n by (simp only: one_neq_zero refl if_True if_False) blast
  obtain d4 where 4: "demo_step (demo_state (Queued QueueRetry2m False d3) 2 ps2)
        (demo_state (Queued QueueProcessing False d4) 2 ps2)" "queued_ok demo_json ''m1'' QueueProcessing False d4 2"
    using demo_expires [OF 3(2)] by blast
  have "(2::nat) \<noteq> 0" "(2::nat) \<noteq> 1" by simp_all
  then obtain d5 ps3 where "demo_step (demo_state (Queued QueueProcessing False d4) 2 ps2)
        (demo_state (Queued QueueDLQ False d5) 3 ps3)"
    using demo_fails [OF 4(2)] unfolding n by (simp only: if_False) blast
  with 1(1) 2(1) 3(1) 4(1) show thesis by (rule that)
qed


lemma demo_three: "\<exists>d ps. demo_run (0, demo_state (Queued QueueDLQ False d) 3 ps)"
  by (rule demo_way) (meson lifecycle.start lifecycle.own_step)


lemma demo_moves:
  "\<exists>d. (healthy_move demo_json log_channel_ops sent (\<lambda>c. ch_faults c = []) demo_worker
     (direct_broker Declare_calls) ^^ 5)
      (Queued QueueProcessing True demo_delivery, 0) (Queued QueueDLQ False d, 3)"
proof -
  let ?move = "healthy_move demo_json log_channel_ops sent (\<lambda>c. ch_faults c = []) demo_worker (direct_broker Declare_calls)"
  have move: "?move (pl, n) (pl', n')" if "demo_step (demo_state pl n ps) (demo_state pl' n' ps')" for pl n pl' n' ps ps'
    using that unfolding healthy_move_def fst_conv snd_conv
    by (intro exI [of _ demo_db] exI [of _ demo_void] exI [of _ "demo_log ps"] exI [of _ "demo_log ps'"])
      (simp add: demo_log_sent)
  have five: "(5::nat) = Suc (Suc (Suc (Suc (Suc 0))))" by simp
  show ?thesis unfolding five by (rule demo_way) (blast intro: relpowp_Suc_I relpowp_0_I move)
qed

section \<open>Properties\<close>

text \<open>
  C13: Every message that the code publishes lands in exactly one queue of the topology. What
  \<open>PublishAvatarProcess\<close> publishes, in the processing queue: the marshalled message with its id,
  persistent, and with retry count 0 unless the trace context uses the header \<open>x-retry-count\<close>. What
  \<open>SendToRetry\<close> publishes, with the same body: after the first failure in the 30 second queue, after the
  second in the 2 minute queue, and for every other count in the dead letter queue. What expires in a
  retry queue returns to the processing queue, and what is rejected there is dead-lettered.
\<close>

theorem queue_routes:
  assumes "avatar_queues B" and "channel_contract ch published"
  shows "(PublishAvatarProcess json trace ch msg c = (None, c1) \<longrightarrow>
      (\<exists>ex key p. published c1 = published c @ [(ex, key, p)] \<and> b_route B ex key = {QueueProcessing} \<and>
        json_Marshal json msg = Inr (pub_Body p) \<and> pub_MessageId p = msg_MessageID msg \<and>
        pub_DeliveryMode p = amqp_Persistent \<and>
        (''x-retry-count'' \<notin> fst ` set trace \<longrightarrow> RetryCount (d_Headers (arrive B p)) = 0))) \<and>
    (SendToRetry ch body k c = (None, c1) \<longrightarrow>
      (\<exists>ex key p. published c1 = published c @ [(ex, key, p)] \<and> pub_Body p = body \<and>
        b_route B ex key = {if k = 1 then QueueRetry30s else if k = 2 then QueueRetry2m else QueueDLQ})) \<and>
    b_dead_to B QueueRetry30s = {QueueProcessing} \<and> b_dead_to B QueueRetry2m = {QueueProcessing} \<and>
    b_dead_to B QueueProcessing = {QueueDLQ}"
  using avatar_queues.upload_routed [OF assms] avatar_queues.retry_routed [OF assms]
    avatar_queues.dead_routes [OF assms(1)] by blast

theorem queue_routes_witness:
  "(\<exists>ex key p. [(ExchangeDirect, RoutingUpload, demo_publishing)] = [(ex, key, p)] \<and>
     b_route (direct_broker Declare_calls) ex key = {QueueProcessing} \<and> pub_Body p = ''m1'') \<and>
   (\<exists>ex key p c'. SendToRetry log_channel_ops ''body'' 2 (demo_log []) = (None, c') \<and>
     sent c' = [(ex, key, p)] \<and> b_route (direct_broker Declare_calls) ex key = {QueueRetry2m})"
proof -
  note routes = queue_routes [OF program_queues.avatar_queues_axioms log_ch.channel_contract_axioms]
  obtain c' where h: "SendToRetry log_channel_ops ''body'' 2 (demo_log []) = (None, c')"
    by (simp add: SendToRetry_def resolveRetryTarget_def log_channel_ops_def log_Publish_def topo_defs demo_log_def)
  have m: "json_Marshal demo_json demo_upload_msg = Inr ''m1''" by (simp add: demo_json_def demo_upload_msg_def)
  from routes [THEN conjunct1, rule_format, OF demo_published] m
  have "\<exists>ex key p. [(ExchangeDirect, RoutingUpload, demo_publishing)] = [(ex, key, p)] \<and>
      b_route (direct_broker Declare_calls) ex key = {QueueProcessing} \<and> pub_Body p = ''m1''"
    unfolding demo_log_sent by auto
  moreover from routes [THEN conjunct2, THEN conjunct1, rule_format, OF h] h
  have "\<exists>ex key p c'. SendToRetry log_channel_ops ''body'' 2 (demo_log []) = (None, c') \<and>
      sent c' = [(ex, key, p)] \<and> b_route (direct_broker Declare_calls) ex key = {QueueRetry2m}"
    unfolding demo_log_sent by fastforce
  ultimately show ?thesis by blast
qed



text \<open>
  C11: Three attempts. Counting the failed attempts of a message whose retry was published, there are
  never more than three; a message that can be decoded is in the dead letter queue only after exactly
  three, in the 30 second queue after one, in the 2 minute queue after two, and in the processing queue
  with the number of them, at most two, in its header.
\<close>

theorem three_attempts:
  assumes "channel_contract ch published" and "avatar_queues B"
    and "RetryCount (d_Headers d) = 0" and "json_Unmarshal json (d_Body d) = Inr msg"
    and "lifecycle json pg_ops pg_view ch published handler B (Queued QueueProcessing True d, 0, s, x, c)
      (r, pl, n, s', x', c')"
  shows "n \<le> 3 \<and> (\<forall>q p d'. pl = Queued q p d' \<longrightarrow>
    (q = QueueDLQ \<longrightarrow> n = 3) \<and> (q = QueueRetry30s \<longrightarrow> n = 1) \<and> (q = QueueRetry2m \<longrightarrow> n = 2) \<and>
    (q = QueueProcessing \<longrightarrow> n \<le> 2 \<and> RetryCount (d_Headers d') = of_nat n))"
proof -
  have "life_ok json pg_view (d_Body d) (0, Queued QueueProcessing True d, 0, s, x, c)"
    using assms(3) by (simp add: queued_ok_def)
  from message_life.lifecycle_ok [OF pg_message_life [OF assms(1,2)] assms(5) this] assms(4)
  show ?thesis by (cases pl) (auto simp: life_ok_def queued_ok_def)
qed

theorem three_attempts_witness:
  "\<exists>d ps. demo_run (0, demo_state (Queued QueueDLQ False d) 3 ps) \<and>
    (\<forall>r p n d' ps'. demo_run (r, demo_state (Queued QueueDLQ p d') n ps') \<longrightarrow> n = 3)"
proof -
  have c: "RetryCount (d_Headers demo_delivery) = 0" by (simp add: demo_delivery_def RetryCount_def)
  have j: "json_Unmarshal demo_json (d_Body demo_delivery) = Inr demo_upload_msg"
    by (simp add: demo_json_def demo_delivery_def demo_upload_msg_def)
  have "n = 3" if "demo_run (r, demo_state (Queued QueueDLQ p d') n ps')" for r p n d' ps'
    using three_attempts [OF log_ch.channel_contract_axioms program_queues.avatar_queues_axioms c j that]
    by simp
  with demo_three show ?thesis by blast
qed

text \<open>
  C12: Every message ends. While the database and the broker's channel are up, whatever S3 does, a message
  with an id that PostgreSQL can take as text makes at most five steps from the processing queue on, in
  whatever states the system is at each of them; no step loses it; and whenever it is neither acknowledged
  for good nor in the dead letter queue, it has a next step, in every state of a system that is up.
\<close>

theorem message_ends:
  assumes "healthy_channel ch published up" and "avatar_queues B"
    and "\<And>msg. json_Unmarshal json (d_Body d) = Inr msg \<Longrightarrow> text_ok (msg_MessageID msg)"
    and "text_ok (d_MessageId d)" and "RetryCount (d_Headers d) = 0"
    and "(healthy_move json ch published up (service_handler pg_ops objs codec clk) B ^^ k)
      (Queued QueueProcessing True d, 0) (pl, n)"
  shows "k \<le> 5 \<and> pl \<noteq> Lost \<and>
    (pl = Done \<or> (\<exists>p d'. pl = Queued QueueDLQ p d') \<or>
     (\<forall>s x c. pg_faults s = [] \<longrightarrow> up c \<longrightarrow>
       (\<exists>v. lifecycle_step json pg_ops ch published (service_handler pg_ops objs codec clk) B (pl, n, s, x, c) v)))"
proof -
  have env: "settling ch published B up (service_handler pg_ops objs codec clk) json (d_Body d)"
    using assms(1-3) by (rule settling_worker)
  have start: "settling.moving json (d_Body d) (Queued QueueProcessing True d, 0)"
    using assms(4,5) by (simp add: settling.moving_def [OF env] queued_ok_def)
  from settling.healthy_moves_bound [OF env assms(6) start]
  have m: "settling.moving json (d_Body d) (pl, n)" and k: "k \<le> 5" by (auto simp: life_rank_def)
  show ?thesis
  proof (cases pl)
    case (Queued q p d')
    with k m settling.step_exists [OF env] show ?thesis by (cases "q = QueueDLQ") auto
  qed (use k m in \<open>auto simp: settling.moving_def [OF env]\<close>)
qed

theorem message_ends_witness:
  "\<exists>d. (healthy_move demo_json log_channel_ops sent (\<lambda>c. ch_faults c = []) demo_worker (direct_broker Declare_calls) ^^ 5)
      (Queued QueueProcessing True demo_delivery, 0) (Queued QueueDLQ False d, 3) \<and>
    (\<forall>k v. (healthy_move demo_json log_channel_ops sent (\<lambda>c. ch_faults c = []) demo_worker
      (direct_broker Declare_calls) ^^ k) (Queued QueueProcessing True demo_delivery, 0) v \<longrightarrow> k \<le> 5)"
proof -
  let ?move = "healthy_move demo_json log_channel_ops sent (\<lambda>c. ch_faults c = []) demo_worker (direct_broker Declare_calls)"
  have "text_ok (msg_MessageID msg)" if "json_Unmarshal demo_json (d_Body demo_delivery) = Inr msg" for msg
    using that demo_ids by (auto simp: demo_json_def demo_delivery_def)
  moreover have "text_ok (d_MessageId demo_delivery)" "RetryCount (d_Headers demo_delivery) = 0"
    using demo_ids by (simp_all add: demo_delivery_def RetryCount_def)
  ultimately have "k \<le> 5" if "(?move ^^ k) (Queued QueueProcessing True demo_delivery, 0) v" for k v
    using message_ends [OF log_ch.healthy_channel_axioms program_queues.avatar_queues_axioms, of demo_json demo_delivery k]
      that unfolding demo_worker_def by (cases v) blast
  moreover have "\<exists>d. (?move ^^ 5) (Queued QueueProcessing True demo_delivery, 0) (Queued QueueDLQ False d, 3)"
    using demo_moves by blast
  ultimately show ?thesis by blast
qed

text \<open>
  C10: Processed once. After a delivery whose handler ran and that was acknowledged without a retry, no
  further delivery with the same message id reaches the handler: whatever the loop receives of them, it
  changes neither what the handler works on, nor any row, nor publishes anything, and drops none.
\<close>

theorem processed_once:
  assumes "channel_contract ch published" and "delivery_msg json d = Some msg"
    and "handleDelivery json pg_ops ch handler now d (s, x, c) = (Ack, s1, x1, c1)"
    and "published c1 = published c"
    and "\<And>d' now'. Delivered d' now' \<in> set es \<Longrightarrow>
      \<exists>msg'. delivery_msg json d' = Some msg' \<and> msg_MessageID msg' = msg_MessageID msg"
    and "consume_loop json pg_ops ch handler es (s1, x1, c1) = (r, acks, s2, x2, c2)"
  shows "x2 = x1 \<and> c2 = c1 \<and> pg_view s2 = pg_view s1 \<and> Nack False \<notin> set acks"
proof -
  have "consumer_env pg_ops pg_view ch published"
    using assms(1) pg.storage_contract_axioms by (simp add: consumer_env_def)
  from consumer_env.handleDelivery_settles [OF this assms(3)] assms(2,4)
  have "msg_MessageID msg \<in> seen (pg_view s1)" by auto
  then have dup: "\<And>d' now'. Delivered d' now' \<in> set es \<Longrightarrow>
      \<exists>msg'. delivery_msg json d' = Some msg' \<and> msg_MessageID msg' \<in> seen (pg_view s1)"
    using assms(5) by fastforce
  have "x2 = x1 \<and> c2 = c1 \<and> pg_view s2 = pg_view s1 \<and> set acks \<subseteq> {Ack, Nack True}"
    by (rule pg.loop_duplicates [OF assms(6)]) (rule dup)
  then show ?thesis by auto
qed

theorem processed_once_witness:
  "let handler = (\<lambda>msg d (s, x). (None, s, Suc x));
       (a, s, x, c) = handleDelivery demo_json pg_ops log_channel_ops handler 5 demo_delivery
         (demo_db, 0, demo_log []);
       (r, acks, s', x', c') = consume_loop demo_json pg_ops log_channel_ops handler
         [Delivered demo_delivery 6, Delivered demo_delivery 7] (s, x, c)
   in a = Ack \<and> x = 1 \<and> x' = 1"
proof -
  define handler :: "(pg, nat) DeliveryHandler" where "handler = (\<lambda>msg d (s, x). (None, s, Suc x))"
  let ?msg = "\<lparr>msg_MessageID = ''m1'', msg_UserID = ''u'', msg_StagingKey = ''staging/u/m1''\<rparr>"
  have m: "delivery_msg demo_json demo_delivery = Some ?msg"
    by (simp add: delivery_msg_def demo_json_def demo_delivery_def with_id_def)
  obtain s where h: "handleDelivery demo_json pg_ops log_channel_ops handler 5 demo_delivery
      (demo_db, 0, demo_log []) = (Ack, s, 1, demo_log [])"
    by (simp add: handleDelivery_def demo_json_def with_id_def IsProcessed_def MarkProcessed_def pg_ops_def
        pg_IsMessageProcessed_def pg_MarkMessageProcessed_def sql_exists_def
        sql_insert_processed_def demo_ids demo_delivery_def handler_def)
  obtain r acks s' x' c' where l: "consume_loop demo_json pg_ops log_channel_ops handler
      [Delivered demo_delivery 6, Delivered demo_delivery 7] (s, 1, demo_log []) = (r, acks, s', x', c')"
    by (metis prod_cases5)
  have "\<exists>msg'. delivery_msg demo_json d' = Some msg' \<and> msg_MessageID msg' = msg_MessageID ?msg"
    if "Delivered d' now' \<in> set [Delivered demo_delivery 6, Delivered demo_delivery 7]" for d' now'
    using that m by auto
  from processed_once [OF log_ch.channel_contract_axioms m h _ this l] have "x' = 1" by simp
  then show ?thesis unfolding Let_def handler_def [symmetric] h prod.case l by simp
qed

end
