(* ===== verification/Api.thy ===== *)
theory Api
  imports Handler Broker
begin

text \<open>
  The API of the program: the handlers on PostgreSQL, the S3 client and the AMQP publisher, as \<open>run\<close> of
  \<open>cmd/api/main.go\<close> puts them together, and what clients of it can rely on, alone and together with the
  worker.
\<close>

section \<open>The handler of the program\<close>

definition client_handler_objects :: "'u url_lib \<Rightarrow> 'b s3_api \<Rightarrow> client \<Rightarrow> 'b handler_objects" where
  "client_handler_objects url api c =
     \<lparr>h_Upload = client_Upload api c, h_Delete = client_Delete api c,
      h_PresignedURL = client_PresignedURL url api c\<rparr>"

definition program_handler ::
  "json_lib \<Rightarrow> (string \<times> string) list \<Rightarrow> 'u url_lib \<Rightarrow> 'b s3_api \<Rightarrow> client \<Rightarrow> 'c channel \<Rightarrow> int64
    \<Rightarrow> (pg, 'b, 'c) Handler"
where
  "program_handler json trace url api c ch mx =
     NewHandler pg_ops (client_handler_objects url api c) (PublishAvatarProcess json trace ch) mx"

text \<open>What the publisher adds to the channel's log for a message.\<close>

definition upload_entry ::
  "json_lib \<Rightarrow> (string \<times> string) list \<Rightarrow> AvatarProcessMessage \<Rightarrow> string \<times> string \<times> publishing"
where
  "upload_entry json trace msg =
     (ExchangeDirect, RoutingUpload,
      \<lparr>pub_ContentType = ''application/json'',
       pub_Body = (case json_Marshal json msg of Inl _ \<Rightarrow> '''' | Inr body \<Rightarrow> body),
       pub_MessageId = msg_MessageID msg, pub_DeliveryMode = amqp_Persistent,
       pub_Headers = InjectTraceContext trace (Some fmempty)\<rparr>)"

lemma amqp_publisher:
  assumes "channel_contract ch published"
  shows "publisher_contract (PublishAvatarProcess json trace ch) published (upload_entry json trace)"
  by unfold_locales
    (use channel_contract.publish_done [OF assms] channel_contract.publish_failed [OF assms] in
      \<open>auto simp: PublishAvatarProcess_def upload_entry_def Let_def split: sum.splits\<close>)

interpretation log_publisher:
  publisher_contract "PublishAvatarProcess json trace log_channel_ops" sent "upload_entry json trace"
  for json trace
  by (rule amqp_publisher) (rule log_ch.channel_contract_axioms)

lemma program_simps [simp]:
  "h_store (program_handler json trace url api c ch mx) = pg_ops"
  "h_Upload (h_objects (program_handler json trace url api c ch mx)) = client_Upload api c"
  "h_Delete (h_objects (program_handler json trace url api c ch mx)) = client_Delete api c"
  "h_PresignedURL (h_objects (program_handler json trace url api c ch mx)) = client_PresignedURL url api c"
  "h_publish (program_handler json trace url api c ch mx) = PublishAvatarProcess json trace ch"
  "urlExpiry (program_handler json trace url api c ch mx) = 15 * Minute"
  "dbBreaker (program_handler json trace url api c ch mx) = NewBreaker 5 (30 * Second)"
  by (simp_all add: program_handler_def client_handler_objects_def)

lemma program_api:
  assumes "s3_service api stored buckets" and "channel_contract ch published"
  shows "api_env (program_handler json trace url api c ch mx) pg_view (\<lambda>o'. stored o' (bucket c)) published
    (upload_entry json trace)"
proof (rule api_env.intro)
  show "storage_contract (h_store (program_handler json trace url api c ch mx)) pg_view"
    using pg.storage_contract_axioms by simp
  show "object_store (h_Upload (h_objects (program_handler json trace url api c ch mx)))
      (h_Delete (h_objects (program_handler json trace url api c ch mx))) (\<lambda>o'. stored o' (bucket c))"
    using object_reader.axioms(1) [OF s3_client.client_reader] assms(1) by (simp add: s3_client_def)
  show "publisher_contract (h_publish (program_handler json trace url api c ch mx)) published
      (upload_entry json trace)"
    using amqp_publisher [OF assms(2)] by simp
  show "api_env_axioms (program_handler json trace url api c ch mx)"
    by unfold_locales (simp add: program_handler_def NewHandler_limit)
qed

interpretation demo_api: api_env "program_handler json trace url scheduled_api c log_channel_ops mx" pg_view
    "\<lambda>s. s3_objects s (bucket c)" sent "upload_entry json trace"
  for json trace url c mx
  by (rule program_api) (rule scheduled.s3_service_axioms log_ch.channel_contract_axioms)+

section \<open>A request for the witnesses\<close>

definition demo_parse :: form_parser where
  "demo_parse hdr body limit =
     (if has_prefix hdr ''multipart/form-data; boundary=''
      then case stream_end body of
             Some e \<Rightarrow> Inl e
           | None \<Rightarrow> Inr [''file'' \<mapsto> (''a.png'', body)]
      else Inl (ReadError ''Content-Type is no multipart/form-data''))"

definition demo_url :: "string url_lib" where
  "demo_url =
     \<lparr>url_Parse = Some, url_Scheme = (\<lambda>_. ''http''), url_Host = (\<lambda>u. u),
      url_set = (\<lambda>s h u. s @ ''://'' @ h @ ''/'' @ u), url_String = (\<lambda>u. u)\<rparr>"

definition demo_request :: request where
  "demo_request =
     \<lparr>req_Method = ''POST'', req_Path = ''/api/avatars/u'',
      req_EscapedPath = ''/api/avatars/u'', req_user_id = ''u'',
      req_Header = ''multipart/form-data; boundary=b'',
      req_Body = Stream demo_png None\<rparr>"

definition demo_store :: "s3_fault list \<Rightarrow> s3_state" where
  "demo_store fs = \<lparr>s3_objects = (\<lambda>_ _. None), s3_buckets = {''avatars''}, s3_faults = fs\<rparr>"

abbreviation demo_handler :: "(pg, s3_state, log_channel) Handler" where
  "demo_handler \<equiv> program_handler demo_json [] demo_url scheduled_api demo_client log_channel_ops 0"

abbreviation demo_upload where
  "demo_upload fs \<equiv> UploadAvatar demo_parse ''m1'' int demo_handler demo_request
     (demo_db, demo_store fs, demo_log [])"

lemma demo_user [simp]: "trim_space (req_user_id demo_request) = ''u''"
proof -
  have "trim_space ''u'' = ''u''" by (rule trim_space_id) code_simp+
  then show ?thesis by (simp add: demo_request_def)
qed

lemma demo_limit: "maxUpload demo_handler = 5 * 1024 * 1024"
  by (simp add: program_handler_def NewHandler_def word_sle_eq)

lemma demo_input: "upload_input demo_parse demo_handler demo_request = Inr (''u'', demo_png, ''a.png'')"
proof -
  have e: "allowedExtension ''a.png''"
    by (simp add: allowedExtension_def path_ext_def lower_char_def Let_def)
  have l: "LimitReader (5 * 1024 * 1024 + 1) (Stream demo_png None) = Stream demo_png None"
    by (simp add: LimitReader_def word_sle_eq demo_png_def)
  have m: "MaxBytesReader (5 * 1024 * 1024 + multipartOverhead) (Stream demo_png None) = Stream demo_png None"
    by (simp add: MaxBytesReader_def multipartOverhead_def word_sless_alt demo_png_def)
  have b: "req_Body demo_request = Stream demo_png None" by (simp add: demo_request_def)
  have h: "has_prefix (req_Header demo_request) ''multipart/form-data; boundary=''"
    by (simp add: demo_request_def has_prefix_def)
  show ?thesis
    unfolding upload_input_def demo_limit b m Let_def
    by (simp add: demo_parse_def h l [simplified] ReadAll_def e) (simp add: demo_png_def word_sless_alt)
qed

lemma scheduled_Upload:
  "s3_faults s = [] \<Longrightarrow> client_Upload scheduled_api c k (NewReader data) ct s = (None, s3_put (bucket c) k (Some data) s)"
  by (cases s) (simp add: client_Upload_def NewReader_def scheduled_api_def s3_try_def)

lemma demo_publish:
  "PublishAvatarProcess demo_json trace log_channel_ops msg (demo_log ps) =
     (None, demo_log (ps @ [upload_entry demo_json trace msg]))"
  by (simp add: PublishAvatarProcess_def upload_entry_def demo_json_def log_channel_ops_def log_Publish_def
      demo_log_def Let_def)

lemma demo_upsert:
  assumes "m = ''m1'' \<or> m = ''m2''" and "pg_faults s = []"
  shows "\<exists>s'. UpsertAvatar pg_ops t (new_row ''u'' m) s = (None, s') \<and> pg_faults s' = []"
proof -
  obtain e s' where u: "UpsertAvatar pg_ops t (new_row ''u'' m) s = (e, s')" by fastforce
  from pg.upsert_ok [OF assms(2) u] demo_storable [OF assms(1)] u show ?thesis by (simp add: new_row_def)
qed

lemma demo_accepts:
  assumes "s3_faults ob = []" and "pg_faults s = []"
  shows "\<exists>s1. UploadAvatar demo_parse ''m1'' int demo_handler demo_request (s, ob, demo_log []) =
    (writeJSON 202 (uploadResponse ''u'' StatusPending ''m1''), ''success'', s1,
     s3_put ''avatars'' (staging_key ''u'' ''m1'') (Some demo_png) ob,
     demo_log [upload_entry demo_json [] (upload_msg ''u'' ''m1'')])"
proof -
  obtain s1 where u: "UpsertAvatar pg_ops (int 0) (new_row ''u'' ''m1'') s = (None, s1)"
    using demo_upsert [OF _ assms(2)] by blast
  have b: "bucket demo_client = ''avatars''" by (simp add: demo_client_def)
  show ?thesis
    unfolding UploadAvatar_def prod.case demo_input sum.case Let_def staging_key_def [symmetric]
      new_row_def [symmetric] upload_msg_def [symmetric] program_simps scheduled_Upload [OF assms(1)] option.case u
      demo_publish b
    by simp
qed

lemma demo_upload_accepted:
  "\<exists>s1. demo_upload [] = (writeJSON 202 (uploadResponse ''u'' StatusPending ''m1''), ''success'', s1,
     s3_put ''avatars'' (staging_key ''u'' ''m1'') (Some demo_png) (demo_store []),
     demo_log [upload_entry demo_json [] (upload_msg ''u'' ''m1'')])"
  by (rule demo_accepts) (simp_all add: demo_store_def)

lemma demo_upload_refused:
  "demo_upload [S3Fail ''down''] = (write_error 500 ''failed to store upload'', ''error'', demo_db,
     demo_store [], demo_log [])"
  unfolding UploadAvatar_def prod.case demo_input sum.case Let_def program_simps
  by (simp add: client_Upload_def NewReader_def scheduled_api_def s3_try_def demo_store_def)

section \<open>Uploading\<close>

text \<open>An accepted upload keeps a healthy system healthy, and its ids are ones that PostgreSQL takes.\<close>

lemma accepted_healthy:
  assumes "healthy_s3 api stored buckets up" and "up ob" and "pg_faults s = []"
    and "UploadAvatar parse m ti (program_handler json trace url api c ch mx) r (s, ob, p)
      = (resp, ''success'', s1, ob1, p1)"
  shows "up ob1 \<and> pg_faults s1 = [] \<and> text_ok (trim_space (req_user_id r)) \<and> text_ok m"
  using assms(4)
proof (cases rule: UploadAvatar_cases)
  case (accepted u data f)
  have ho: "healthy_objects (client_Upload api c) (client_Delete api c) (\<lambda>s. stored s (bucket c))
      (client_Download api c) up"
    by (rule healthy_s3.healthy_client [OF assms(1)])
  have "up ob1"
    using healthy_objects.upload_ok [OF ho assms(2)] accepted(2) by (simp add: NewReader_def)
  moreover have "pg_faults s1 = []" "storable text_ok fits_int32 (new_row u m)"
    using pg.upsert_ok [OF assms(3)] accepted(3) by auto
  moreover have "0 <s maxUpload (program_handler json trace url api c ch mx)"
    by (simp add: program_handler_def NewHandler_limit)
  then have "u = trim_space (req_user_id r)" using upload_input_Inr accepted(1) by blast
  ultimately show ?thesis by (simp add: storable_def)
qed simp_all

text \<open>
  C3: What 202 means. The metrics count a request as a success exactly if the response is 202, and then
  the user id is not empty, the file of the form is not empty, not larger than the limit and has an
  allowed extension, it has been staged completely, the user's row is a fresh pending one with the key
  of the staged object, and exactly one message, the one for this upload, has been published.
\<close>

theorem upload_accepted:
  assumes "s3_service api stored buckets" and "channel_contract ch published"
    and "UploadAvatar parse m ti (program_handler json trace url api c ch mx) r (s, ob, p)
      = (resp, label, s', ob', p')"
  shows "(label = ''success'') = (resp_code resp = 202) \<and>
    (resp_code resp = 202 \<longrightarrow>
      (let u = trim_space (req_user_id r); limit = maxUpload (program_handler json trace url api c ch mx)
       in u \<noteq> '''' \<and> (\<exists>form filename data.
          parse (req_Header r) (MaxBytesReader (limit + 1024) (req_Body r)) limit = Inr form \<and>
          form ''file'' = Some (filename, Stream data None) \<and>
          0 < length data \<and> int (length data) \<le> sint limit \<and> allowedExtension filename \<and>
          resp_body resp = uploadResponse u StatusPending m \<and>
          rows (pg_view s') u = Some (new_row u m) \<and>
          stored ob' (bucket c) (staging_key u m) = Some data \<and>
          published p' = published p @ [upload_entry json trace (upload_msg u m)])))"
proof -
  note env = program_api [OF assms(1,2), of json trace url c mx]
  show ?thesis
  proof (cases "label = ''success''")
    case True
    from api_env.Upload_accepted [OF env assms(3) [unfolded True]] obtain u data f where
      i: "upload_input parse (program_handler json trace url api c ch mx) r = Inr (u, data, f)" and
      o': "resp = writeJSON 202 (uploadResponse u StatusPending m)"
        "pg_view s' = spec_upsert (new_row u m) (pg_view s)"
        "stored ob' (bucket c) = (stored ob (bucket c))(staging_key u m \<mapsto> data)"
        "published p' = published p @ [upload_entry json trace (upload_msg u m)]" by blast
    from upload_input_Inr [OF api_env.limit [OF env] i] o' show ?thesis
      by (auto simp: True writeJSON_def multipartOverhead_def Let_def simp del: pg_view_simps)
  next
    case False
    from api_env.Upload_rejected [OF env assms(3) False] False show ?thesis by (auto simp: writeJSON_def)
  qed
qed

theorem upload_accepted_witness:
  "\<exists>resp s1 ob1 p1. demo_upload [] = (resp, ''success'', s1, ob1, p1) \<and> resp_code resp = 202 \<and>
    rows (pg_view s1) ''u'' = Some (new_row ''u'' ''m1'')"
proof -
  obtain s1 where h: "demo_upload [] = (writeJSON 202 (uploadResponse ''u'' StatusPending ''m1''), ''success'', s1,
     s3_put ''avatars'' (staging_key ''u'' ''m1'') (Some demo_png) (demo_store []),
     demo_log [upload_entry demo_json [] (upload_msg ''u'' ''m1'')])"
    using demo_upload_accepted by blast
  have "resp_code (writeJSON 202 (uploadResponse ''u'' StatusPending ''m1'')) = 202" by (simp add: writeJSON_def)
  moreover from this have "rows (pg_view s1) ''u'' = Some (new_row ''u'' ''m1'')"
    using upload_accepted [OF scheduled.s3_service_axioms log_ch.channel_contract_axioms h]
    unfolding demo_user Let_def by blast
  ultimately show ?thesis using h by blast
qed

text \<open>
  C26: What any other answer to an upload means. It is 400, 413 or 500 with an error text; where it is
  not 500, nothing has been changed; and where it is 500, the user's row is the one from before, the
  fresh pending one, or that one marked failed.
\<close>

theorem upload_rejected:
  assumes "s3_service api stored buckets" and "channel_contract ch published"
    and "UploadAvatar parse m ti (program_handler json trace url api c ch mx) r (s, ob, p)
      = (resp, label, s', ob', p')"
    and "resp_code resp \<noteq> 202"
  shows "(\<exists>e. resp = write_error (resp_code resp) e) \<and> resp_code resp \<in> {400, 413, 500} \<and>
    (resp_code resp \<noteq> 500 \<longrightarrow> s' = s \<and> ob' = ob \<and> p' = p) \<and>
    (let u = trim_space (req_user_id r)
     in rows (pg_view s') u \<in> {rows (pg_view s) u, Some (new_row u m),
       Some ((new_row u m)\<lparr>Status := StatusFailed, ErrorMessage := ''failed to enqueue processing''\<rparr>)})"
proof -
  note env = program_api [OF assms(1,2), of json trace url c mx]
  have l: "label \<noteq> ''success''"
    using api_env.Upload_accepted [OF env, of parse m ti r s ob p resp s' ob' p'] assms(3,4)
    by (auto simp: writeJSON_def)
  let ?u = "trim_space (req_user_id r)"
  note rej = api_env.Upload_rejected [OF env assms(3) l]
  obtain code e where e: "resp = write_error code e" using rej by blast
  have code: "code \<noteq> 500 \<longrightarrow> (code = 400 \<or> code = 413) \<and> s' = s \<and> ob' = ob \<and> p' = p"
    using rej by (simp add: e writeJSON_def)
  have "set_status StatusFailed ''failed to enqueue processing'' (new_row ?u m) =
      (new_row ?u m)\<lparr>Status := StatusFailed, ErrorMessage := ''failed to enqueue processing''\<rparr>"
    by (simp add: set_status_def)
  moreover have "pg_view s' \<in> {pg_view s, spec_upsert (new_row ?u m) (pg_view s),
      spec_status StatusFailed ''failed to enqueue processing'' ?u (spec_upsert (new_row ?u m) (pg_view s))}"
    using rej by blast
  ultimately have "rows (pg_view s') ?u \<in> {rows (pg_view s) ?u, Some (new_row ?u m),
      Some ((new_row ?u m)\<lparr>Status := StatusFailed, ErrorMessage := ''failed to enqueue processing''\<rparr>)}"
    by (elim insertE emptyE) (simp_all del: pg_view_simps)
  moreover have "resp_code resp = code" by (simp add: e writeJSON_def)
  ultimately show ?thesis using e code unfolding Let_def by blast
qed

theorem upload_rejected_witness:
  "\<exists>resp s1 ob1 p1. demo_upload [S3Fail ''down''] = (resp, ''error'', s1, ob1, p1) \<and>
    resp_code resp \<in> {400, 413, 500}"
proof -
  have "resp_code (write_error 500 ''failed to store upload'') \<noteq> 202" by (simp add: writeJSON_def)
  from upload_rejected [OF scheduled.s3_service_axioms log_ch.channel_contract_axioms demo_upload_refused this]
  show ?thesis using demo_upload_refused by blast
qed

text \<open>
  C31: A limit within 1024 of the largest \<open>int64\<close> rejects every upload: the sum with the multipart overhead
  wraps around to a negative number, which \<open>MaxBytesReader\<close> treats as 0, so that the parser of the form
  sees an empty body that ends with \<open>MaxBytesError\<close>. It fails on it in one way or another: with that error,
  where the headers announce a multipart form, and the answer is 413; or with the error that they do not,
  and the answer is 400. Nothing is changed.
\<close>

theorem huge_limit_rejects_all:
  assumes "MaxInt64 - 1024 < sint mx" and "stream_bytes (req_Body r) \<noteq> []" and "trim_space (req_user_id r) \<noteq> ''''"
    and "parse (req_Header r) (Stream [] (Some MaxBytesError)) mx = Inl err"
  shows "UploadAvatar parse m ti (NewHandler store objects publisher mx) r st =
    (if err = MaxBytesError then write_error 413 ''request too large'' else write_error 400 ''invalid multipart form'',
     ''error'', st)"
proof -
  have mx: "0 <s mx" using assms(1) by (simp add: word_sless_alt)
  then have lim: "maxUpload (NewHandler store objects publisher mx) = mx"
    by (simp add: NewHandler_def Let_def word_sless_alt word_sle_eq)
  have "mx + multipartOverhead <s 0"
    using limit_plus(2) [OF mx assms(1)] by (simp add: multipartOverhead_def)
  then have "MaxBytesReader (mx + multipartOverhead) (req_Body r) = Stream [] (Some MaxBytesError)"
    using assms(2) by (simp add: MaxBytesReader_def)
  then have "upload_input parse (NewHandler store objects publisher mx) r =
      Inl (if err = MaxBytesError then write_error 413 ''request too large'' else write_error 400 ''invalid multipart form'')"
    using assms(3,4) by (simp add: upload_input_def lim)
  then show ?thesis by (simp add: UploadAvatar_def split: prod.split)
qed

theorem huge_limit_rejects_all_witness:
  "let h = NewHandler mem_ops \<lparr>h_Upload = fake_Upload, h_Delete = fake_Delete, h_PresignedURL = (\<lambda>k e. Inr k)\<rparr>
        (\<lambda>msg p. (None, msg # p)) (word_of_int MaxInt64); st = (NewMemStorage, \<lambda>_. None, [])
   in UploadAvatar demo_parse ''m1'' int h demo_request st = (write_error 413 ''request too large'', ''error'', st) \<and>
      UploadAvatar demo_parse ''m1'' int h (demo_request\<lparr>req_Header := ''text/plain''\<rparr>) st =
        (write_error 400 ''invalid multipart form'', ''error'', st)"
proof -
  let ?r = "demo_request\<lparr>req_Header := ''text/plain''\<rparr>"
  have m: "MaxInt64 - 1024 < sint (word_of_int MaxInt64 :: int64)" by (simp add: sint_int64_of fits_int64_def)
  have b: "stream_bytes (req_Body demo_request) \<noteq> []" "stream_bytes (req_Body ?r) \<noteq> []"
    by (simp_all add: demo_request_def demo_png_def)
  have u: "trim_space (req_user_id demo_request) \<noteq> ''''" by simp
  then have u': "trim_space (req_user_id ?r) \<noteq> ''''" by simp
  have p: "demo_parse (req_Header demo_request) (Stream [] (Some MaxBytesError)) (word_of_int MaxInt64) = Inl MaxBytesError"
    "demo_parse (req_Header ?r) (Stream [] (Some MaxBytesError)) (word_of_int MaxInt64) =
       Inl (ReadError ''Content-Type is no multipart/form-data'')"
    by (simp_all add: demo_parse_def demo_request_def has_prefix_def)
  show ?thesis
    unfolding Let_def huge_limit_rejects_all [where parse = demo_parse, OF m b(1) u p(1)]
      huge_limit_rejects_all [where parse = demo_parse, OF m b(2) u' p(2)] by simp
qed

section \<open>Reading and deleting\<close>

lemma get_200:
  assumes "handler_GetAvatar (program_handler json trace url api c ch mx) r s = (resp, s')" and "resp_code resp = 200"
  shows "\<exists>row x. fmlookup (t_avatars s) (trim_space (req_user_id r)) = Some row \<and> resp_body resp = AvatarJSON x \<and>
    toResponse (program_handler json trace url api c ch mx) (avatar_of (trim_space (req_user_id r)) row) = Inr x"
proof -
  obtain f s1 where g: "GetAvatar pg_ops (trim_space (req_user_id r)) s = (f, s1)" by fastforce
  then show ?thesis
    using assms pg_get_exact [of "trim_space (req_user_id r)" s _ s1]
    by (auto simp: handler_GetAvatar_def writeJSON_def Let_def split: if_splits sum.splits option.splits)
qed

text \<open>A user id that is no UTF-8 text, as \<open>/api/avatars/%00\<close> has it, is not refused as a bad request.\<close>

lemma refused_user_id:
  assumes "\<not> text_ok (trim_space (req_user_id r))" and "trim_space (req_user_id r) \<noteq> ''''" and "pg_faults s = []"
  shows "handler_GetAvatar (program_handler json trace url api c ch mx) r s = (write_error 500 ''failed to get avatar'', s)"
  using assms by (simp add: handler_GetAvatar_def pg_ops_def pg_GetAvatar_def scanAvatar_def Let_def)

text \<open>
  C27: What GET answers. It changes no row; 200 means that the user has a row and the body shows exactly its
  columns, the error text where there is one, and the presigned URLs of the row's two objects exactly where
  the row is ready and no URL otherwise; 404 means that the user has no row, 400 that the user id is blank,
  and every other answer is a 500.
\<close>

theorem get_answers:
  assumes "s3_service api stored buckets" and "channel_contract ch published"
    and "handler_GetAvatar (program_handler json trace url api c ch mx) r s = (resp, s')"
  shows "pg_view s' = pg_view s \<and> resp_code resp \<in> {200, 400, 404, 500} \<and>
    (let u = trim_space (req_user_id r) in
     (resp_code resp = 404 \<longrightarrow> rows (pg_view s) u = None) \<and> (resp_code resp = 400 \<longrightarrow> u = '''') \<and>
     (resp_code resp = 200 \<longrightarrow> (\<exists>row x. fmlookup (t_avatars s) u = Some row \<and> resp_body resp = AvatarJSON x \<and>
       resp_UserID x = u \<and> resp_Status x = c_status row \<and> resp_ContentType x = c_content_type row \<and>
       resp_SizeBytes x = c_size_bytes row \<and> resp_Width x = sint (c_width row) \<and>
       resp_Height x = sint (c_height row) \<and> resp_CreatedAt x = c_created_at row \<and>
       resp_UpdatedAt x = c_updated_at row \<and>
       resp_ErrorMessage x = (case c_error_message row of None \<Rightarrow> '''' | Some e \<Rightarrow> e) \<and>
       (if c_status row = StatusReady
        then client_PresignedURL url api c (c_original_key row) (15 * Minute) = Inr (resp_OriginalURL x) \<and>
          client_PresignedURL url api c (c_thumbnail_key row) (15 * Minute) = Inr (resp_ThumbnailURL x)
        else resp_OriginalURL x = '''' \<and> resp_ThumbnailURL x = ''''))))"
proof -
  let ?u = "trim_space (req_user_id r)"
  note get = api_env.Get_response [OF program_api [OF assms(1,2), of json trace url c mx] assms(3)]
  show ?thesis
  proof (cases "resp_code resp = 200")
    case True
    from get_200 [OF assms(3) True] obtain row x where row: "fmlookup (t_avatars s) ?u = Some row"
      "resp_body resp = AvatarJSON x"
      "toResponse (program_handler json trace url api c ch mx) (avatar_of ?u row) = Inr x" by blast
    from toResponse_Inr [OF row(3)] row(1,2) True get show ?thesis
      unfolding Let_def by (intro conjI impI exI [of _ row] exI [of _ x]) (auto simp: avatar_of_def split: if_splits)
  next
    case False
    with get show ?thesis by (auto simp: writeJSON_def Let_def simp del: pg_view_simps)
  qed
qed

text \<open>The database after the worker has marked the avatar of the demonstration ready.\<close>

definition demo_ready :: pg where
  "demo_ready = snd (MarkAvatarReady pg_ops 5000 ''u'' (original_key ''u'') (thumb_key ''u'') ''image/png'' 2 200 100
     (demo_pg []))"

lemma demo_ready_row:
  "pg_faults demo_ready = []"
  "\<exists>row. fmlookup (t_avatars demo_ready) ''u'' = Some row \<and> c_status row = StatusReady \<and> c_width row = 200 \<and>
     c_height row = 100 \<and> c_original_key row = original_key ''u'' \<and> c_thumbnail_key row = thumb_key ''u''"
proof -
  have k: "text_ok (original_key ''u'')" "text_ok (thumb_key ''u'')" "text_ok ''image/png''"
    by (simp_all add: key_defs text_ok_def utf8_lead_def)
  have d: "fits_int32 200" "fits_int32 100" by (simp_all add: pg.dim_ok_small)
  have e: "demo_ready = snd (sql_update ''u'' (\<lambda>r. r\<lparr>c_status := StatusReady, c_original_key := original_key ''u'',
      c_thumbnail_key := thumb_key ''u'', c_content_type := ''image/png'', c_size_bytes := 2,
      c_width := word_of_int 200, c_height := word_of_int 100, c_staging_key := '''', c_error_message := None,
      c_updated_at := pg_round (demo_pg []) 5000\<rparr>) (demo_pg []))"
    by (simp add: demo_ready_def pg_ops_def pg_MarkAvatarReady_def k d demo_ids)
  show "pg_faults demo_ready = []" by (simp add: e)
  obtain row where "fmlookup (t_avatars (demo_pg [])) ''u'' = Some row"
    using demo_row by (auto simp: demo_msg_def fmlookup_dom_iff)
  then show "\<exists>row. fmlookup (t_avatars demo_ready) ''u'' = Some row \<and> c_status row = StatusReady \<and>
     c_width row = 200 \<and> c_height row = 100 \<and> c_original_key row = original_key ''u'' \<and>
     c_thumbnail_key row = thumb_key ''u''"
    by (simp add: e sql_update_def)
qed

lemma demo_presigned: "\<exists>l. client_PresignedURL demo_url scheduled_api demo_client k e = Inr l"
  by (simp add: client_PresignedURL_def scheduled_api_def demo_client_def)

lemma demo_get:
  "\<exists>resp s'. handler_GetAvatar demo_handler demo_request demo_ready = (resp, s') \<and> resp_code resp = 200"
proof -
  obtain row where row: "fmlookup (t_avatars demo_ready) ''u'' = Some row" using demo_ready_row(2) by blast
  obtain f s' where g: "GetAvatar pg_ops ''u'' demo_ready = (f, s')" by fastforce
  from pg.get_ok [OF demo_ready_row(1) g] demo_ids obtain found where f: "f = Inr found" by (cases f) auto
  from pg_get_exact [OF g [unfolded f]] row have "found = Some (avatar_of ''u'' row)" by simp
  moreover obtain l1 l2 where
    "client_PresignedURL demo_url scheduled_api demo_client (OriginalKey (avatar_of ''u'' row)) (15 * Minute) = Inr l1"
    "client_PresignedURL demo_url scheduled_api demo_client (ThumbnailKey (avatar_of ''u'' row)) (15 * Minute) = Inr l2"
    using demo_presigned by blast
  then have "\<exists>x. toResponse demo_handler (avatar_of ''u'' row) = Inr x"
    by (simp add: toResponse_def Let_def)
  ultimately show ?thesis using g f by (auto simp: handler_GetAvatar_def writeJSON_def Let_def)
qed

theorem get_answers_witness:
  "\<exists>resp s' x. handler_GetAvatar demo_handler demo_request demo_ready = (resp, s') \<and> resp_code resp = 200 \<and>
    resp_body resp = AvatarJSON x \<and> resp_Status x = StatusReady \<and> resp_Width x = 200 \<and> resp_Height x = 100 \<and>
    client_PresignedURL demo_url scheduled_api demo_client (original_key ''u'') (15 * Minute) = Inr (resp_OriginalURL x)"
proof -
  obtain resp s' where h: "handler_GetAvatar demo_handler demo_request demo_ready = (resp, s')"
    "resp_code resp = 200" using demo_get by blast
  obtain row where row: "fmlookup (t_avatars demo_ready) ''u'' = Some row" "c_status row = StatusReady"
    "c_width row = 200" "c_height row = 100" "c_original_key row = original_key ''u''" using demo_ready_row(2) by blast
  from get_answers [OF scheduled.s3_service_axioms log_ch.channel_contract_axioms h(1)] h(2)
  obtain x where "resp_body resp = AvatarJSON x" "resp_Status x = StatusReady" "resp_Width x = sint (c_width row)"
    "resp_Height x = sint (c_height row)"
    "client_PresignedURL demo_url scheduled_api demo_client (original_key ''u'') (15 * Minute) = Inr (resp_OriginalURL x)"
    unfolding Let_def demo_user by (auto simp: row(1,2,5))
  with h row(3,4) show ?thesis by simp
qed

text \<open>On a healthy system the DELETE of a user with a row succeeds.\<close>

lemma delete_completes:
  assumes "healthy_s3 api stored buckets up" and "channel_contract ch published" and "up ob"
    and "pg_faults s = []" and "u = trim_space (req_user_id r)" and "u \<noteq> ''''" and "rows (pg_view s) u \<noteq> None"
    and "text_ok u"
  shows "\<exists>s' ob'. handler_DeleteAvatar (program_handler json trace url api c ch mx) r (s, ob) =
    (\<lparr>resp_code = 204, resp_type = None, resp_body = NoBody\<rparr>, s', ob')"
proof -
  obtain g s1 where g: "GetAvatar pg_ops u s = (g, s1)" by fastforce
  from pg.get_ok [OF assms(4) g] assms(8) obtain f where f: "g = Inr f" "pg_faults s1 = []" by (cases g) auto
  from g f pg.get_row [of u s f s1] assms(7) obtain a where a: "g = Inr (Some a)" by (cases f) auto
  have v: "pg_view s1 = pg_view s" by (rule pg.get [OF g])
  obtain e ob' where d: "client_Delete api c [StagingKey a, OriginalKey a, ThumbnailKey a] ob = (e, ob')"
    by fastforce
  have "e = None" using healthy_s3.client_delete_up [OF assms(1,3) d] by simp
  moreover obtain e2 s2 where dd: "DeleteAvatar pg_ops u s1 = (e2, s2)" by fastforce
  moreover have "e2 = None" using pg.delete_ok [OF f(2) dd] assms(7,8) v by simp
  ultimately show ?thesis using g a d assms(5,6) by (simp add: handler_DeleteAvatar_def Let_def)
qed

lemma demo_deletes:
  assumes "pg_faults s = []" and "rows (pg_view s) ''u'' \<noteq> None" and "s3_faults ob = []"
  shows "\<exists>s' ob'. handler_DeleteAvatar demo_handler demo_request (s, ob) =
    (\<lparr>resp_code = 204, resp_type = None, resp_body = NoBody\<rparr>, s', ob')"
  by (rule delete_completes [OF scheduled_up.healthy_s3_axioms log_ch.channel_contract_axioms, of _ _ "''u''"])
    (use assms demo_ids in \<open>simp_all del: pg_view_simps\<close>)

text \<open>
  C28: What 204 means. After a DELETE answered with 204 the user has no row, the three objects that the row
  named are gone, and every other row and object is as before; whatever the answer, DELETE changes no
  other user's row and removes no object that the user's row does not name.
\<close>

theorem delete_answers:
  assumes "s3_service api stored buckets" and "channel_contract ch published"
    and "handler_DeleteAvatar (program_handler json trace url api c ch mx) r (s, ob) = (resp, s', ob')"
    and "k \<noteq> ''''"
  shows "let u = trim_space (req_user_id r) in
    (resp_code resp = 204 \<longrightarrow> (\<exists>a. rows (pg_view s) u = Some a \<and> rows (pg_view s') u = None \<and>
      stored ob' (bucket c) k = (if k \<in> {StagingKey a, OriginalKey a, ThumbnailKey a} then None
        else stored ob (bucket c) k))) \<and>
    (v \<noteq> u \<longrightarrow> rows (pg_view s') v = rows (pg_view s) v) \<and>
    (stored ob' (bucket c) k \<noteq> stored ob (bucket c) k \<longrightarrow>
      stored ob' (bucket c) k = None \<and>
      (\<exists>a. rows (pg_view s) u = Some a \<and> k \<in> {StagingKey a, OriginalKey a, ThumbnailKey a}))"
proof -
  note env = program_api [OF assms(1,2), of json trace url c mx]
  have d: "\<exists>a. rows (pg_view s) (trim_space (req_user_id r)) = Some a \<and>
      rows (pg_view s') (trim_space (req_user_id r)) = None \<and>
      stored ob' (bucket c) k = (if k \<in> {StagingKey a, OriginalKey a, ThumbnailKey a} then None
        else stored ob (bucket c) k)" if c204: "resp_code resp = 204"
  proof -
    obtain a where "rows (pg_view s) (trim_space (req_user_id r)) = Some a"
      "pg_view s' = spec_delete (trim_space (req_user_id r)) (pg_view s)"
      "\<forall>k. k \<noteq> '''' \<longrightarrow> stored ob' (bucket c) k =
        (if k \<in> {StagingKey a, OriginalKey a, ThumbnailKey a} then None else stored ob (bucket c) k)"
      using api_env.Delete_done [OF env assms(3) c204] by blast
    with assms(4) show ?thesis by (intro exI [of _ a]) (simp del: pg_view_simps)
  qed
  from d api_env.Delete_frame [OF env assms(3), of v k] assms(4)
  show ?thesis unfolding Let_def by blast
qed

theorem delete_answers_witness:
  "\<exists>s' ob'. handler_DeleteAvatar demo_handler demo_request (demo_pg [], demo_s3 []) =
      (\<lparr>resp_code = 204, resp_type = None, resp_body = NoBody\<rparr>, s', ob') \<and> rows (pg_view s') ''u'' = None"
proof -
  have "rows (pg_view (demo_pg [])) ''u'' \<noteq> None"
    unfolding demo_pg_row by simp
  then obtain s' ob' where h: "handler_DeleteAvatar demo_handler demo_request (demo_pg [], demo_s3 []) =
      (\<lparr>resp_code = 204, resp_type = None, resp_body = NoBody\<rparr>, s', ob')"
    using demo_deletes demo_pg_healthy demo_up by blast
  from delete_answers [OF scheduled.s3_service_axioms log_ch.channel_contract_axioms h, of "''k''" "''v''"]
  have "rows (pg_view s') ''u'' = None" unfolding demo_user Let_def by auto
  with h show ?thesis by blast
qed

text \<open>
  C29: DELETE after a new upload leaves the old images behind. A new upload replaces the row by one
  without the keys of the images that an earlier upload has produced; a DELETE before the new one is
  processed answers 204 and removes the user's row, but leaves these images in the object store.
\<close>

theorem delete_after_reupload_orphans:
  assumes "s3_service api stored buckets" and "channel_contract ch published"
    and "UploadAvatar parse m ti (program_handler json trace url api c ch mx) r (s, ob, p)
      = (resp, ''success'', s1, ob1, p1)"
    and "handler_DeleteAvatar (program_handler json trace url api c ch mx) r (s1, ob1) = (resp', s2, ob2)"
    and "resp_code resp' = 204" and "u = trim_space (req_user_id r)"
    and "k \<in> {original_key u, thumb_key u}"
  shows "stored ob2 (bucket c) k = stored ob (bucket c) k \<and> rows (pg_view s2) u = None"
proof -
  note env = program_api [OF assms(1,2), of json trace url c mx]
  obtain u' data f where i: "upload_input parse (program_handler json trace url api c ch mx) r = Inr (u', data, f)"
    and v: "pg_view s1 = spec_upsert (new_row u' m) (pg_view s)"
    and o1: "stored ob1 (bucket c) = (stored ob (bucket c))(staging_key u' m \<mapsto> data)"
    using api_env.Upload_accepted [OF env assms(3)] by blast
  have u': "u' = u" using upload_input_Inr [OF api_env.limit [OF env] i] assms(6) by simp
  obtain a where a: "rows (pg_view s1) u = Some a" "pg_view s2 = spec_delete u (pg_view s1)"
    "\<forall>k. k \<noteq> '''' \<longrightarrow> stored ob2 (bucket c) k =
      (if k \<in> {StagingKey a, OriginalKey a, ThumbnailKey a} then None else stored ob1 (bucket c) k)"
    using api_env.Delete_done [OF env assms(4,5)] assms(6) by blast
  have "a = new_row u m" using a(1) by (simp add: v u' del: pg_view_simps)
  then have "k \<notin> {StagingKey a, OriginalKey a, ThumbnailKey a}" "k \<noteq> ''''" "k \<noteq> staging_key u m"
    using assms(7) by auto
  then show ?thesis using a by (auto simp: o1 u' simp del: pg_view_simps)
qed

text \<open>An object store with the images of the ready avatar.\<close>

definition demo_images :: s3_state where
  "demo_images =
     \<lparr>s3_objects = (\<lambda>_. [original_key ''u'' \<mapsto> [200, 100], thumb_key ''u'' \<mapsto> [128, 64]]), s3_buckets = {''avatars''},
      s3_faults = []\<rparr>"

theorem delete_after_reupload_orphans_witness:
  "\<exists>resp s1 ob1 p1 s2 ob2.
    UploadAvatar demo_parse ''m1'' int demo_handler demo_request (demo_ready, demo_images, demo_log []) =
      (resp, ''success'', s1, ob1, p1) \<and>
    handler_DeleteAvatar demo_handler demo_request (s1, ob1) =
      (\<lparr>resp_code = 204, resp_type = None, resp_body = NoBody\<rparr>, s2, ob2) \<and>
    rows (pg_view s2) ''u'' = None \<and>
    s3_objects ob2 (bucket demo_client) (original_key ''u'') = Some [200, 100] \<and>
    s3_objects ob2 (bucket demo_client) (thumb_key ''u'') = Some [128, 64]"
proof -
  have f: "s3_faults demo_images = []" "pg_faults demo_ready = []" by (simp_all add: demo_images_def demo_ready_row)
  obtain s1 ob1 p1 where h: "UploadAvatar demo_parse ''m1'' int demo_handler demo_request
      (demo_ready, demo_images, demo_log []) =
      (writeJSON 202 (uploadResponse ''u'' StatusPending ''m1''), ''success'', s1, ob1, p1)"
    and ob1: "s3_faults ob1 = []"
    using demo_accepts [OF f] f by auto
  have "rows (pg_view s1) ''u'' \<noteq> None"
    using demo_api.Upload_accepted [OF h] by (auto simp: demo_input simp del: pg_view_simps)
  moreover have "pg_faults s1 = []"
    using accepted_healthy [OF scheduled_up.healthy_s3_axioms f h] by simp
  ultimately obtain s2 ob2 where d: "handler_DeleteAvatar demo_handler demo_request (s1, ob1) =
      (\<lparr>resp_code = 204, resp_type = None, resp_body = NoBody\<rparr>, s2, ob2)"
    using demo_deletes ob1 by blast
  have c: "resp_code \<lparr>resp_code = 204, resp_type = None, resp_body = NoBody\<rparr> = 204"
    and u: "''u'' = trim_space (req_user_id demo_request)" by simp_all
  have i: "s3_objects demo_images (bucket demo_client) (original_key ''u'') = Some [200, 100]"
    "s3_objects demo_images (bucket demo_client) (thumb_key ''u'') = Some [128, 64]"
    by (simp_all add: demo_images_def)
  note orphan = delete_after_reupload_orphans [OF scheduled.s3_service_axioms log_ch.channel_contract_axioms h d c u]
  have "rows (pg_view s2) ''u'' = None"
    and "s3_objects ob2 (bucket demo_client) (original_key ''u'') = Some [200, 100]"
    and "s3_objects ob2 (bucket demo_client) (thumb_key ''u'') = Some [128, 64]"
    using orphan [of "original_key ''u''"] orphan [of "thumb_key ''u''"] i by (simp_all del: pg_view_simps)
  with h d show ?thesis by blast
qed

text \<open>
  C30: A DELETE that fails half way. The objects are removed before the row: where the database, after
  reading the row of a user id that it can take as text, refuses the second statement, DELETE answers 500, the row is unchanged, a ready one staying ready, and the
  objects that it names are gone.
\<close>

theorem failed_delete_keeps_row:
  assumes "healthy_s3 api stored buckets up" and "up ob" and "pg_faults s = [NoFault, FailBefore e]"
    and "u = trim_space (req_user_id r)" and "u \<noteq> ''''" and "rows (pg_view s) u = Some a"
    and "k \<in> {StagingKey a, OriginalKey a, ThumbnailKey a}" and "k \<noteq> ''''" and "text_ok u"
  shows "\<exists>s' ob'. handler_DeleteAvatar (program_handler json trace url api c ch mx) r (s, ob) =
      (write_error 500 ''failed to delete metadata'', s', ob') \<and>
    pg_view s' = pg_view s \<and> stored ob' (bucket c) k = None"
proof -
  let ?s1 = "s\<lparr>pg_faults := [FailBefore e]\<rparr>" and ?s2 = "s\<lparr>pg_faults := []\<rparr>"
  have g: "GetAvatar pg_ops u s = (Inr (map_option (avatar_of u) (fmlookup (t_avatars s) u)), ?s1)"
    using assms(3,9) scanAvatar_select [of u ?s1]
    by (simp add: pg_ops_def pg_GetAvatar_def db_exec_def db_run_def sql_select_def Let_def split: prod.splits)
  obtain w where w: "fmlookup (t_avatars s) u = Some w" "a = strip_times (avatar_of u w)"
    using assms(6) by auto
  let ?ks = "[StagingKey a, OriginalKey a, ThumbnailKey a]"
  obtain err ob' where d: "client_Delete api c ?ks ob = (err, ob')" by fastforce
  have "err = None" using healthy_s3.client_delete_up [OF assms(1,2) d] by simp
  then have gone: "stored ob' (bucket c) k = None"
    using s3_service.client_delete_done [OF healthy_s3.axioms(1) [OF assms(1)], of c ?ks ob ob' k] d assms(7,8)
    by auto
  have "DeleteAvatar pg_ops u ?s1 = (Some (ErrText e), ?s2)"
    by (simp add: pg_ops_def pg_DeleteAvatar_def db_exec_def)
  with g w d \<open>err = None\<close> assms(4,5)
  have "handler_DeleteAvatar (program_handler json trace url api c ch mx) r (s, ob) =
      (write_error 500 ''failed to delete metadata'', ?s2, ob')"
    by (simp add: handler_DeleteAvatar_def Let_def)
  with gone show ?thesis by simp
qed

theorem failed_delete_keeps_row_witness:
  "\<exists>s' ob'. handler_DeleteAvatar demo_handler demo_request
      (demo_pg [NoFault, FailBefore ''down''], demo_s3 []) =
      (write_error 500 ''failed to delete metadata'', s', ob') \<and>
    s3_objects ob' (bucket demo_client) (staging_key ''u'' ''m1'') = None"
proof -
  have f: "pg_faults (demo_pg [NoFault, FailBefore ''down'']) = [NoFault, FailBefore ''down'']" by simp
  have "\<exists>a. rows (pg_view (demo_pg [NoFault, FailBefore ''down''])) ''u'' = Some a \<and>
      StagingKey a = staging_key ''u'' ''m1''"
    unfolding demo_pg_row by simp
  then obtain a where a: "rows (pg_view (demo_pg [NoFault, FailBefore ''down''])) ''u'' = Some a"
      "StagingKey a = staging_key ''u'' ''m1''" by blast
  have u: "''u'' = trim_space (req_user_id demo_request)" "''u'' \<noteq> ''''" by simp_all
  have k: "staging_key ''u'' ''m1'' \<in> {StagingKey a, OriginalKey a, ThumbnailKey a}" using a(2) by simp
  from failed_delete_keeps_row [OF scheduled_up.healthy_s3_axioms demo_up f u a(1) k _ demo_ids(1), where json = demo_json
      and trace = "[]" and url = demo_url and c = demo_client and ch = log_channel_ops and mx = 0]
  show ?thesis by auto
qed

section \<open>The health check\<close>

fun ping_all ::
  "('s, 'o, 'p) Handler \<Rightarrow> (time \<times> time) list \<Rightarrow> 's \<Rightarrow> response list \<times> ('s, 'o, 'p) Handler \<times> 's"
where
  "ping_all h [] s = ([], h, s)"
| "ping_all h ((now, now') # ts) s =
     (case handler_Ping h now now' s of
        (resp, h, s) \<Rightarrow> (case ping_all h ts s of (resps, h, s) \<Rightarrow> (resp # resps, h, s)))"

lemma ping_fails:
  assumes "h_store h = pg_ops" and "pg_faults s = FailBefore e # fs" and "openUntil (dbBreaker h) \<le> now"
  shows "handler_Ping h now now' s =
    (write_error 500 ''database unavailable'',
     h\<lparr>dbBreaker := Call_exit (dbBreaker h) (Some (ErrText e)) now'\<rparr>, s\<lparr>pg_faults := fs\<rparr>)"
  using assms
  by (simp add: handler_Ping_def Call_def Call_enter_def pg_ops_def pg_Ping_def db_exec_def db_run_def Let_def)

lemma ping_all_fails:
  "h_store h = pg_ops \<Longrightarrow> pg_faults s = map FailBefore es @ fs \<Longrightarrow> length es = length ts \<Longrightarrow>
   failures (dbBreaker h) + int (length ts) < maxFailures (dbBreaker h) \<Longrightarrow>
   list_all (\<lambda>(now, _). openUntil (dbBreaker h) \<le> now) ts \<Longrightarrow>
   ping_all h ts s =
     (replicate (length ts) (write_error 500 ''database unavailable''),
      h\<lparr>dbBreaker := (dbBreaker h)\<lparr>failures := failures (dbBreaker h) + int (length ts)\<rparr>\<rparr>,
      s\<lparr>pg_faults := fs\<rparr>)"
proof (induction ts arbitrary: h s es)
  case (Cons t ts)
  obtain now now' where t: "t = (now, now')" by (cases t)
  from Cons.prems obtain e es' where es: "es = e # es'" by (cases es) auto
  have "Call_exit (dbBreaker h) (Some (ErrText e)) now' =
      (dbBreaker h)\<lparr>failures := failures (dbBreaker h) + 1\<rparr>"
    using Cons.prems(4) by (simp add: Call_exit_def Let_def)
  then have p: "handler_Ping h now now' s = (write_error 500 ''database unavailable'',
      h\<lparr>dbBreaker := (dbBreaker h)\<lparr>failures := failures (dbBreaker h) + 1\<rparr>\<rparr>,
      s\<lparr>pg_faults := map FailBefore es' @ fs\<rparr>)"
    using ping_fails [of h s e "map FailBefore es' @ fs" now now'] Cons.prems by (simp add: es t)
  show ?case
    using Cons.prems Cons.IH [of "h\<lparr>dbBreaker := (dbBreaker h)\<lparr>failures := failures (dbBreaker h) + 1\<rparr>\<rparr>"
        "s\<lparr>pg_faults := map FailBefore es' @ fs\<rparr>" es'] p
    by (simp add: es t algebra_simps)
qed simp

text \<open>
  C17: \<open>/ping\<close> and the breaker. From a handler just made, five failing health checks in a row are answered
  with 500, and for 30 seconds after the fifth every further one with 503, without a query to the
  database; after that the database is asked again.
\<close>

theorem ping_circuit:
  assumes "pg_faults s = map FailBefore es @ fs" and "length es = 5" and "length ts = 4"
    and "list_all (\<lambda>(now, _). 0 \<le> now) ts" and "0 \<le> now"
  shows "\<exists>h' s'. ping_all (program_handler json trace url api c ch mx) (ts @ [(now, now')]) s =
      (replicate 5 (write_error 500 ''database unavailable''), h', s') \<and> pg_faults s' = fs \<and>
    (\<forall>t t'. t < now' + 30 * Second \<longrightarrow>
      handler_Ping h' t t' s' = (write_error 503 ''database circuit open'', h', s')) \<and>
    (\<forall>t t'. now' + 30 * Second \<le> t \<longrightarrow> fs = [] \<longrightarrow> resp_code (fst (handler_Ping h' t t' s')) = 200)"
proof -
  let ?h = "program_handler json trace url api c ch mx"
  let ?h4 = "?h\<lparr>dbBreaker := (dbBreaker ?h)\<lparr>failures := 4\<rparr>\<rparr>"
  obtain es' e where es: "es = es' @ [e]" "length es' = 4"
    using assms(2) by (cases es rule: rev_cases) auto
  let ?s4 = "s\<lparr>pg_faults := FailBefore e # fs\<rparr>"
  have b: "maxFailures (dbBreaker ?h) = 5" "failures (dbBreaker ?h) = 0" "openUntil (dbBreaker ?h) = 0"
    "cooldown (dbBreaker ?h) = 30 * Second"
    by (simp_all add: NewBreaker_def)
  have four: "ping_all ?h ts s = (replicate 4 (write_error 500 ''database unavailable''), ?h4, ?s4)"
    using ping_all_fails [of ?h s es' "FailBefore e # fs" ts] assms es b by simp
  define b5 where "b5 = (dbBreaker ?h)\<lparr>failures := 0, openUntil := now' + 30 * Second\<rparr>"
  let ?h5 = "?h4\<lparr>dbBreaker := b5\<rparr>" and ?s5 = "s\<lparr>pg_faults := fs\<rparr>"
  have five: "handler_Ping ?h4 now now' ?s4 = (write_error 500 ''database unavailable'', ?h5, ?s5)"
    using ping_fails [of ?h4 ?s4 e fs now now'] assms(5) b
    by (simp add: b5_def Call_exit_def Let_def del: program_simps(7))
  have app: "ping_all h (ts @ [x]) s' = (rs @ [r5], h2, s2)"
    if "ping_all h ts s' = (rs, h1, s1)" "ping_all h1 [x] s1 = ([r5], h2, s2)"
    for h h1 h2 :: "(pg, 'a, 'b) Handler" and s' s1 s2 rs r5 x
    using that by (induction h ts s' arbitrary: rs rule: ping_all.induct) (auto split: prod.splits)
  have "ping_all ?h (ts @ [(now, now')]) s = (replicate 4 (write_error 500 ''database unavailable'') @
      [write_error 500 ''database unavailable''], ?h5, ?s5)"
    by (rule app [OF four]) (simp only: ping_all.simps five prod.case)
  then have "ping_all ?h (ts @ [(now, now')]) s = (replicate 5 (write_error 500 ''database unavailable''), ?h5, ?s5)"
    by (simp add: eval_nat_numeral)
  moreover have "handler_Ping ?h5 t t' ?s5 = (write_error 503 ''database circuit open'', ?h5, ?s5)"
    if "t < now' + 30 * Second" for t t'
    using that by (simp add: handler_Ping_def Call_def Call_enter_def b5_def Let_def)
  moreover have "resp_code (fst (handler_Ping ?h5 t t' ?s5)) = 200"
    if "now' + 30 * Second \<le> t" "fs = []" for t t'
    using that by (simp add: handler_Ping_def Call_def Call_enter_def b5_def pg_ops_def pg_Ping_def Let_def)
  ultimately show ?thesis by (intro exI [of _ ?h5] exI [of _ ?s5]) simp
qed

theorem ping_circuit_witness:
  "\<exists>h' s'. handler_Ping h' 9 9 s' = (write_error 503 ''database circuit open'', h', s') \<and>
    ping_all demo_handler [(1, 1), (2, 2), (3, 3), (4, 4), (5, 5)] (demo_db\<lparr>pg_faults := replicate 5 (FailBefore ''down'')\<rparr>)
      = (replicate 5 (write_error 500 ''database unavailable''), h', s')"
proof -
  let ?s = "demo_db\<lparr>pg_faults := replicate 5 (FailBefore ''down'')\<rparr>"
  have "pg_faults ?s = map FailBefore (replicate 5 ''down'') @ []" by simp
  moreover have "length (replicate 5 ''down'') = 5" "length [(1 :: time, 1 :: time), (2, 2), (3, 3), (4, 4)] = 4"
    "list_all (\<lambda>(now, _). 0 \<le> now) [(1 :: time, 1 :: time), (2, 2), (3, 3), (4, 4)]" "0 \<le> (5 :: time)"
    by simp_all
  ultimately obtain h' s' where "ping_all demo_handler ([(1, 1), (2, 2), (3, 3), (4, 4)] @ [(5, 5)]) ?s =
      (replicate 5 (write_error 500 ''database unavailable''), h', s')"
    "\<forall>t t'. t < 5 + 30 * Second \<longrightarrow> handler_Ping h' t t' s' = (write_error 503 ''database circuit open'', h', s')"
    using ping_circuit [of ?s "replicate 5 ''down''" "[]" "[(1, 1), (2, 2), (3, 3), (4, 4)]" 5 demo_json "[]"
        demo_url scheduled_api demo_client log_channel_ops 0 5] by blast
  then show ?thesis by (intro exI [of _ h'] exI [of _ s']) simp
qed

section \<open>From the upload to the ready avatar\<close>

text \<open>The row of a user after the worker has processed an image.\<close>

abbreviation ready_row :: "string \<Rightarrow> ProcessedImage \<Rightarrow> avatar \<Rightarrow> avatar" where
  "ready_row u img \<equiv> set_ready (original_key u) (thumb_key u) (img_ContentType img) (img_SizeBytes img)
     (img_Width img) (img_Height img)"

text \<open>What a healthy worker does with the delivery of a message that is not yet processed.\<close>

lemma delivery_processed:
  assumes "healthy_s3 api stored buckets up" and "up ob" and "pg_faults s = []"
    and "delivery_msg json d = Some msg" and "msg_MessageID msg \<notin> seen (pg_view s)"
    and "msg_StagingKey msg = staging_key u m" and "msg_UserID msg = u"
    and "rows (pg_view s) u \<noteq> None"
    and "stored ob (bucket c) (staging_key u m) = Some data" and "Process codec (NewReader data) = Inr img"
    and "text_ok u" and "text_ok (msg_MessageID msg)"
  shows "\<exists>s' ob'. handleDelivery json pg_ops ch (service_handler pg_ops (client_worker_objects api c) codec ti)
      now d (s, ob, q) = (Ack, s', ob', q) \<and> pg_faults s' = [] \<and> up ob' \<and>
    pg_view s' = spec_mark (msg_MessageID msg) (spec_modify (ready_row u img) u (pg_view s)) \<and>
    stored ob' (bucket c) (original_key u) = Some (OriginalPNG img) \<and>
    stored ob' (bucket c) (thumb_key u) = Some (ThumbnailPNG img) \<and>
    stored ob' (bucket c) (staging_key u m) = None \<and>
    (\<forall>k. k \<notin> {'''', original_key u, thumb_key u, staging_key u m} \<longrightarrow>
      stored ob' (bucket c) k = stored ob (bucket c) k)"
proof -
  note srv = healthy_s3.axioms(1) [OF assms(1)]
  note hw = healthy_client_worker_env [OF assms(1), of c]
  note w = client_worker_env [OF srv, of c]
  obtain b s1 where b: "IsMessageProcessed pg_ops (msg_MessageID msg) s = (b, s1)" by fastforce
  have h1: "pg_faults s1 = []" "\<exists>x. b = Inr x" using pg.is_processed_ok [OF assms(3) b] assms(12) by (cases b; simp)+
  have v1: "pg_view s1 = pg_view s" by (rule pg.is_processed [OF b])
  have b': "IsMessageProcessed pg_ops (msg_MessageID msg) s = (Inr False, s1)"
    using h1(2) b pg.is_processed_seen assms(5) by fastforce
  obtain r s2 ob2 where h: "Handle pg_ops (client_worker_objects api c) codec ti msg (s1, ob) = (r, s2, ob2)"
    by (metis prod_cases3)
  have "rows (pg_view s1) (msg_UserID msg) \<noteq> None" using assms(7,8) by (simp add: v1 del: pg_view_simps)
  from healthy_worker_env.Handle_succeeds [OF hw h1(1) assms(2) this _ assms(10) h] assms(6,7,9,11)
  have r: "r = None" "pg_faults s2 = []" "up ob2" "stored ob2 (bucket c) (staging_key u m) = None"
    by simp_all
  obtain data' p where dp: "stored ob (bucket c) (staging_key u m) = Some data'"
    "Process codec (NewReader data') = Inr p"
    "pg_view s2 = spec_ready (original_key u) (thumb_key u) (img_ContentType p) (img_SizeBytes p)
       (img_Width p) (img_Height p) u (pg_view s1)"
    "stored ob2 (bucket c) (original_key u) = Some (OriginalPNG p)"
    "stored ob2 (bucket c) (thumb_key u) = Some (ThumbnailPNG p)"
    using worker_env.Handle_success [OF w h [unfolded r(1)]] assms(6,7) by (auto simp del: pg_view_simps)
  have p: "p = img" using dp(1,2) assms(9,10) by simp
  have fr: "\<forall>k. k \<notin> {'''', original_key u, thumb_key u, staging_key u m} \<longrightarrow>
      stored ob2 (bucket c) k = stored ob (bucket c) k"
    using worker_env.Handle_objects [OF w h] assms(6,7) by simp
  obtain e s3 where mk: "MarkMessageProcessed pg_ops now (msg_MessageID msg) s2 = (e, s3)" by fastforce
  have m3: "e = None" "pg_faults s3 = []" using pg.mark_ok [OF r(2) mk] assms(12) by simp_all
  then have v3: "pg_view s3 = spec_mark (msg_MessageID msg) (pg_view s2)" using pg.mark [OF mk] by simp
  obtain msg0 where u0: "json_Unmarshal json (d_Body d) = Inr msg0" "msg = with_id d msg0"
    using assms(4) by (auto simp: delivery_msg_def split: sum.splits)
  have "handleDelivery json pg_ops ch (service_handler pg_ops (client_worker_objects api c) codec ti)
      now d (s, ob, q) = (Ack, s3, ob2, q)"
    using b' h mk m3(1) r(1) unfolding u0(2)
    by (simp add: handleDelivery_def u0(1) IsProcessed_def MarkProcessed_def service_handler_def Let_def)
  moreover have "pg_view s3 = spec_mark (msg_MessageID msg) (spec_modify (ready_row u img) u (pg_view s))"
    by (simp add: v3 dp(3) p v1 del: pg_view_simps)
  ultimately show ?thesis using m3(2) r(3,4) dp(4,5) fr unfolding p by blast
qed

text \<open>
  C2: The whole way. On a healthy system, an upload answered with 202 whose image can be processed leads
  to a published message that, delivered to the worker, is acknowledged after making the user's avatar
  ready: the row names the two final objects, these hold the processed PNGs, the staged upload is gone,
  the id is recorded, and GET answers 200 with status ready and the processed size.
\<close>

theorem upload_to_ready:
  assumes "healthy_s3 api stored buckets up" and "channel_contract ch published"
    and "up ob" and "pg_faults s = []" and "m \<notin> seen (pg_view s)"
    and "UploadAvatar parse m ti (program_handler json trace url api c ch mx) r (s, ob, p)
      = (resp, label, s1, ob1, p1)" and "resp_code resp = 202" and "u = trim_space (req_user_id r)"
    and "json_Marshal json (upload_msg u m) = Inr body" and "json_Unmarshal json body = Inr (upload_msg u m)"
    and "stored ob1 (bucket c) (staging_key u m) = Some data" and "Process codec (NewReader data) = Inr img"
    and "\<And>k. k \<in> {original_key u, thumb_key u} \<Longrightarrow> \<exists>l. Presign api (bucket c) k (15 * Minute) = Inr l"
  shows "\<exists>ex key pub s2 ob2 x s3. published p1 = published p @ [(ex, key, pub)] \<and>
    handleDelivery json pg_ops ch (service_handler pg_ops (client_worker_objects api c) codec ti') now
      (arrive B pub) (s1, ob1, q) = (Ack, s2, ob2, q) \<and> m \<in> seen (pg_view s2) \<and>
    stored ob2 (bucket c) (original_key u) = Some (OriginalPNG img) \<and>
    stored ob2 (bucket c) (thumb_key u) = Some (ThumbnailPNG img) \<and>
    stored ob2 (bucket c) (staging_key u m) = None \<and>
    handler_GetAvatar (program_handler json trace url api c ch mx) r s2 = (writeJSON 200 (AvatarJSON x), s3) \<and>
    resp_Status x = StatusReady \<and> resp_Width x = img_Width img \<and> resp_Height x = img_Height img \<and>
    resp_SizeBytes x = img_SizeBytes img"
proof -
  note env = program_api [OF healthy_s3.axioms(1) [OF assms(1)] assms(2), of json trace url c mx]
  have l: "label = ''success''"
    using api_env.Upload_rejected [OF env assms(6)] assms(7) by (auto simp: writeJSON_def)
  note up1 = accepted_healthy [OF assms(1,3,4) assms(6) [unfolded l]]
  from api_env.Upload_accepted [OF env assms(6) [unfolded l]] obtain u' data' f where
    i: "upload_input parse (program_handler json trace url api c ch mx) r = Inr (u', data', f)" and
    v1: "pg_view s1 = spec_upsert (new_row u' m) (pg_view s)" and
    pub: "published p1 = published p @ [upload_entry json trace (upload_msg u' m)]" by blast
  have u': "u' = u" "u \<noteq> ''''" using upload_input_Inr [OF api_env.limit [OF env] i] assms(8) by auto
  obtain pb where e: "upload_entry json trace (upload_msg u m) = (ExchangeDirect, RoutingUpload, pb)"
    "pub_Body pb = body" "pub_MessageId pb = m"
    using assms(9) by (simp add: upload_entry_def upload_msg_def)
  have dm: "delivery_msg json (arrive B pb) = Some (upload_msg u m)"
    using assms(10) e by (simp add: delivery_msg_def arrive_def with_id_def upload_msg_def)
  have s: "upload_msg u m = \<lparr>msg_MessageID = m, msg_UserID = u, msg_StagingKey = staging_key u m\<rparr>"
    by (simp add: upload_msg_def)
  have row1: "rows (pg_view s1) u = Some (new_row u m)" and seen1: "m \<notin> seen (pg_view s1)"
    using assms(5) by (simp_all add: v1 u' del: pg_view_simps)
  obtain s2 ob2 where d: "handleDelivery json pg_ops ch
        (service_handler pg_ops (client_worker_objects api c) codec ti') now (arrive B pb) (s1, ob1, q) =
        (Ack, s2, ob2, q)" "pg_faults s2 = []"
      and v2: "pg_view s2 = spec_mark m (spec_modify (ready_row u img) u (pg_view s1))"
      and o2: "stored ob2 (bucket c) (original_key u) = Some (OriginalPNG img)"
      "stored ob2 (bucket c) (thumb_key u) = Some (ThumbnailPNG img)"
      "stored ob2 (bucket c) (staging_key u m) = None"
    using delivery_processed [OF assms(1) _ _ dm _ _ _ _ assms(11,12), of s1 ch ti' now q] up1 seen1 row1 assms(8)
    unfolding s by (auto simp del: pg_view_simps)
  have row2: "rows (pg_view s2) u = Some (ready_row u img (new_row u m))" "m \<in> seen (pg_view s2)"
    using row1 by (simp_all add: v2 del: pg_view_simps)
  obtain g s3 where g: "GetAvatar pg_ops u s2 = (g, s3)" by fastforce
  from pg.get_ok [OF d(2) g] up1 assms(8) obtain found where "g = Inr found" by (cases g) auto
  with g pg.get_row [of u s2 found s3] row2(1) obtain a where a: "GetAvatar pg_ops u s2 = (Inr (Some a), s3)"
      "strip_times a = set_ready (original_key u) (thumb_key u) (img_ContentType img)
        (img_SizeBytes img) (img_Width img) (img_Height img) (new_row u m)"
    by (auto simp del: pg_view_simps)
  have af: "Status a = StatusReady" "Width a = img_Width img" "Height a = img_Height img"
    "SizeBytes a = img_SizeBytes img" "OriginalKey a = original_key u" "ThumbnailKey a = thumb_key u"
    using arg_cong [OF a(2), of Status] arg_cong [OF a(2), of Width] arg_cong [OF a(2), of Height]
      arg_cong [OF a(2), of SizeBytes] arg_cong [OF a(2), of OriginalKey] arg_cong [OF a(2), of ThumbnailKey]
    by simp_all
  have "\<exists>l. client_PresignedURL url api c k (15 * Minute) = Inr l" if "k \<in> {original_key u, thumb_key u}" for k
    using assms(13) [OF that] by (auto simp: client_PresignedURL_def)
  with af obtain l1 l2 where "client_PresignedURL url api c (OriginalKey a) (15 * Minute) = Inr l1"
    "client_PresignedURL url api c (ThumbnailKey a) (15 * Minute) = Inr l2" by blast
  then have "\<exists>x. toResponse (program_handler json trace url api c ch mx) a = Inr x"
    by (cases "Status a = StatusReady") (simp_all add: toResponse_def Let_def)
  then obtain x where x: "toResponse (program_handler json trace url api c ch mx) a = Inr x" ..
  have "handler_GetAvatar (program_handler json trace url api c ch mx) r s2 = (writeJSON 200 (AvatarJSON x), s3)"
    using a(1) x assms(8) u'(2) by (simp add: handler_GetAvatar_def Let_def)
  with toResponse_Inr [OF x] af pub d row2(2) o2 e(1) u'(1) show ?thesis by (intro exI conjI) (auto simp del: pg_view_simps)
qed

theorem upload_to_ready_witness:
  "\<exists>s1 ob1 p1 s2 x s3. \<exists>ob2 :: s3_state. demo_upload [] =
      (writeJSON 202 (uploadResponse ''u'' StatusPending ''m1''), ''success'', s1, ob1, p1) \<and>
    s3_objects ob2 (bucket demo_client) (original_key ''u'') = Some [200, 100] \<and>
    handler_GetAvatar demo_handler demo_request s2 = (writeJSON 200 (AvatarJSON x), s3) \<and>
    resp_Status x = StatusReady \<and> resp_Width x = 200"
proof -
  obtain s1 ob1 p1 where h: "demo_upload [] =
      (writeJSON 202 (uploadResponse ''u'' StatusPending ''m1''), ''success'', s1, ob1, p1)"
    and ob1: "s3_objects ob1 (bucket demo_client) (staging_key ''u'' ''m1'') = Some demo_png"
    using demo_upload_accepted by (auto simp: demo_store_def demo_client_def)
  have f: "s3_faults (demo_store []) = []" "pg_faults demo_db = []" and m: "''m1'' \<notin> seen (pg_view demo_db)"
    by (simp_all add: demo_store_def)
  have c: "resp_code (writeJSON 202 (uploadResponse ''u'' StatusPending ''m1'')) = 202" by (simp add: writeJSON_def)
  have j: "json_Marshal demo_json (upload_msg ''u'' ''m1'') = Inr ''m1''"
    "json_Unmarshal demo_json ''m1'' = Inr (upload_msg ''u'' ''m1'')"
    by (simp_all add: demo_json_def upload_msg_def staging_key_def)
  have u: "''u'' = trim_space (req_user_id demo_request)" by simp
  have p: "\<exists>l. Presign scheduled_api (bucket demo_client) k (15 * Minute) = Inr l"
    if "k \<in> {original_key ''u'', thumb_key ''u''}" for k
    by (simp add: scheduled_api_def)
  from upload_to_ready [OF scheduled_up.healthy_s3_axioms log_ch.channel_contract_axioms f m h c u j ob1
      demo_Process p, of int 7 "direct_broker Declare_calls" "demo_log []"]
  obtain s2 x s3 and ob2 :: s3_state
    where "s3_objects ob2 (bucket demo_client) (original_key ''u'') = Some (OriginalPNG demo_processed)"
    "handler_GetAvatar demo_handler demo_request s2 = (writeJSON 200 (AvatarJSON x), s3)"
    "resp_Status x = StatusReady" "resp_Width x = img_Width demo_processed" by blast
  with h show ?thesis unfolding demo_processed_def by auto
qed

end
