(* ===== verification/Router.thy ===== *)
theory Router
  imports Rate_Limit Api
begin

text \<open>
  The routes of \<open>internal/handler/router.go\<close> on \<open>http.ServeMux\<close>, the page of \<open>internal/web\<close>, the HTTP
  metrics of \<open>internal/metrics/metrics.go\<close>, and the stack of handlers that \<open>run\<close> of \<open>cmd/api/main.go\<close>
  builds. Of \<open>ServeMux\<close> this models what the six patterns use: canonical paths, matching by segments after
  percent-decoding each, a \<open>GET\<close> pattern also for \<open>HEAD\<close>, the most specific pattern first, 405 where only
  other methods match. The tracing wrapper \<open>otelhttp\<close> passes requests on, and \<open>promhttp\<close> serves its page.
\<close>

section \<open>Percent-decoding\<close>

definition hex_value :: "char \<Rightarrow> nat option" where
  "hex_value c =
     (let n = (of_char c :: nat)
      in if 48 \<le> n \<and> n \<le> 57 then Some (n - 48)
         else if 97 \<le> n \<and> n \<le> 102 then Some (n - 87)
         else if 65 \<le> n \<and> n \<le> 70 then Some (n - 55) else None)"

text \<open>\<open>url.PathUnescape\<close>; \<open>None\<close> is its error.\<close>

fun unescape :: "string \<Rightarrow> string option" where
  "unescape [] = Some []"
| "unescape (c # cs) =
     (if c = CHR ''%'' then
        (case cs of
           a # b # ds \<Rightarrow>
             (case (hex_value a, hex_value b) of
                (Some x, Some y) \<Rightarrow> map_option ((#) (char_of (16 * x + y))) (unescape ds)
              | _ \<Rightarrow> None)
         | _ \<Rightarrow> None)
      else map_option ((#) c) (unescape cs))"

lemma unescape_append:
  "unescape s = Some s' \<Longrightarrow> unescape (s @ t) = map_option ((@) s') (unescape t)"
proof (induction s arbitrary: s' rule: unescape.induct)
  case (2 c cs)
  show ?case
  proof (cases "c = CHR ''%''")
    case True
    with 2 show ?thesis
      by (cases "unescape t") (auto split: list.splits option.splits)
  next
    case False
    with 2 show ?thesis by (cases "unescape t") auto
  qed
qed (cases "unescape t"; simp)

section \<open>The mux\<close>

text \<open>The segments of an escaped path that starts with a slash.\<close>

fun split_slash :: "string \<Rightarrow> string list" where
  "split_slash [] = [[]]"
| "split_slash (c # cs) =
     (if c = CHR ''/'' then [] # split_slash cs
      else case split_slash cs of [] \<Rightarrow> [[c]] | s # ss \<Rightarrow> (c # s) # ss)"

text \<open>The paths that \<open>cleanPath\<close> leaves alone; all others are redirected to their cleaned form.\<close>

definition canonical :: "string \<Rightarrow> bool" where
  "canonical p \<longleftrightarrow>
     (case split_slash p of
        [] # segs \<Rightarrow> segs \<noteq> [] \<and> ''.'' \<notin> set segs \<and> ''..'' \<notin> set segs \<and> [] \<notin> set (butlast segs)
      | _ \<Rightarrow> False)"

text \<open>
  A segment is compared and captured decoded; one that cannot be decoded is taken as it is. A wildcard takes
  neither an empty last segment nor one that decodes to a single slash, which the mux cannot tell from it.
\<close>

definition segment :: "string \<Rightarrow> string" where
  "segment s = (case unescape s of Some t \<Rightarrow> t | None \<Rightarrow> s)"

datatype route = RIndex | RHealth | RPing | RUpload string | RGet string | RDelete string
  | RMethodNotAllowed | RRedirect

definition NewMux :: "string \<Rightarrow> string \<Rightarrow> route" where
  "NewMux meth escaped =
     (if meth \<noteq> ''CONNECT'' \<and> \<not> canonical escaped then RRedirect
      else
        let segs = tl (split_slash escaped);
            isGet = (meth = ''GET'' \<or> meth = ''HEAD'')
        in case map segment segs of
             [a, b, u] \<Rightarrow>
               (if a = ''api'' \<and> b = ''avatars'' \<and> last segs \<noteq> '''' \<and> u \<noteq> ''/'' then
                  (if meth = ''POST'' then RUpload u
                   else if isGet then RGet u
                   else if meth = ''DELETE'' then RDelete u
                   else RMethodNotAllowed)
                else if isGet then RIndex else RMethodNotAllowed)
           | [a] \<Rightarrow>
               (if isGet then (if a = ''health'' then RHealth else if a = ''ping'' then RPing else RIndex)
                else RMethodNotAllowed)
           | _ \<Rightarrow> (if isGet then RIndex else RMethodNotAllowed))"

section \<open>Serving a request\<close>

definition web_Index :: "string \<Rightarrow> request \<Rightarrow> response" where
  "web_Index indexHTML r =
     (if req_Path r \<noteq> ''/'' then
        \<lparr>resp_code = 404, resp_type = Some ''text/plain; charset=utf-8'',
         resp_body = Text (''404 page not found'' @ [CHR 0x0A])\<rparr>
      else \<lparr>resp_code = 200, resp_type = Some ''text/html; charset=utf-8'', resp_body = Text indexHTML\<rparr>)"

definition health :: response where
  "health = \<lparr>resp_code = 200, resp_type = None, resp_body = Text ''ok''\<rparr>"

text \<open>
  What a request gets from outside the program: the parser of forms, the message id that \<open>uuid\<close> gives,
  the readings of the clock, and the embedded page.
\<close>

record env =
  env_parse :: form_parser
  env_uuid :: string
  env_clock :: "nat \<Rightarrow> time"
  env_index :: string

type_synonym ('s, 'o, 'p) api_state = "('s, 'o, 'p) Handler \<times> 's \<times> 'o \<times> 'p"

definition serve_mux :: "env \<Rightarrow> request \<Rightarrow> ('s, 'o, 'p) api_state \<Rightarrow> response \<times> ('s, 'o, 'p) api_state" where
  "serve_mux e r st =
     (case st of (h, s, ob, p) \<Rightarrow>
        case NewMux (req_Method r) (req_EscapedPath r) of
          RIndex \<Rightarrow> (web_Index (env_index e) r, st)
        | RHealth \<Rightarrow> (health, st)
        | RPing \<Rightarrow>
            (case handler_Ping h (env_clock e 0) (env_clock e 1) s of (resp, h, s) \<Rightarrow> (resp, h, s, ob, p))
        | RUpload u \<Rightarrow>
            (case UploadAvatar (env_parse e) (env_uuid e) (env_clock e) h (r\<lparr>req_user_id := u\<rparr>) (s, ob, p) of
               (resp, _, s, ob, p) \<Rightarrow> (resp, h, s, ob, p))
        | RGet u \<Rightarrow>
            (case handler_GetAvatar h (r\<lparr>req_user_id := u\<rparr>) s of (resp, s) \<Rightarrow> (resp, h, s, ob, p))
        | RDelete u \<Rightarrow>
            (case handler_DeleteAvatar h (r\<lparr>req_user_id := u\<rparr>) (s, ob) of
               (resp, s, ob) \<Rightarrow> (resp, h, s, ob, p))
        | RMethodNotAllowed \<Rightarrow>
            (\<lparr>resp_code = 405, resp_type = Some ''text/plain; charset=utf-8'',
              resp_body = Text (''Method Not Allowed'' @ [CHR 0x0A])\<rparr>, st)
        | RRedirect \<Rightarrow> (\<lparr>resp_code = 301, resp_type = None, resp_body = NoBody\<rparr>, st))"

definition NormalizePath :: "string \<Rightarrow> string" where
  "NormalizePath path = (if has_prefix path ''/api/avatars/'' then ''/api/avatars/{user_id}'' else path)"

text \<open>
  \<open>metrics.HTTPMiddleware\<close>: the labels under which the request is counted, with the code that the wrapped
  \<open>responseWriter\<close> saw, 200 where the handler set none.
\<close>

definition HTTPMiddleware ::
  "(request \<Rightarrow> 't \<Rightarrow> response \<times> 't) \<Rightarrow> request \<Rightarrow> 't \<Rightarrow> response \<times> string list \<times> 't"
where
  "HTTPMiddleware nxt r t =
     (case nxt r t of
        (resp, t) \<Rightarrow> (resp, [req_Method r, NormalizePath (req_Path r), itoa (nat (resp_code resp))], t))"

text \<open>The root handler of the API server; \<open>prom\<close> is the page of \<open>promhttp\<close>. The labels are those counted.\<close>

definition api_root ::
  "(real \<Rightarrow> real) \<Rightarrow> response \<Rightarrow> env \<Rightarrow> time \<Rightarrow> request \<Rightarrow> uploadRateLimiter \<times> ('s, 'o, 'p) api_state
    \<Rightarrow> response \<times> string list \<times> uploadRateLimiter \<times> ('s, 'o, 'p) api_state"
where
  "api_root rnd prom e now r st =
     (if req_Path r = ''/metrics'' then (prom, [], st)
      else HTTPMiddleware (UploadRateLimitMiddleware rnd (serve_mux e) now) r st)"

section \<open>Decoding and routing\<close>

lemma split_slash_nonempty [simp]: "split_slash s \<noteq> []"
  by (induction s) (auto split: list.splits)

text \<open>Decoding a path is decoding its segments, as long as it can be decoded.\<close>

fun join_slash :: "string list \<Rightarrow> string" where
  "join_slash [] = []"
| "join_slash [s] = s"
| "join_slash (s # ss) = s @ CHR ''/'' # join_slash ss"

lemma join_split [simp]: "join_slash (split_slash s) = s"
proof (induction s)
  case (Cons c s)
  then show ?case by (cases "split_slash s" rule: join_slash.cases) auto
qed simp

lemma unescape_prefix:
  assumes "unescape (s @ CHR ''/'' # t) = Some x"
  shows "\<exists>s' t'. unescape s = Some s' \<and> unescape t = Some t' \<and> x = s' @ CHR ''/'' # t'"
  using assms
proof (induction s arbitrary: x rule: unescape.induct)
  case (2 c cs)
  show ?case
  proof (cases "c = CHR ''%''")
    case False
    with 2 show ?thesis by (fastforce split: option.splits)
  next
    case True
    have h: "hex_value (CHR ''/'') = None" by (simp add: hex_value_def)
    consider "cs = []" | a where "cs = [a]" | a b ds where "cs = a # b # ds"
      by (metis list.exhaust)
    then show ?thesis
    proof cases
      case 1
      with 2(3) True h show ?thesis by (cases t) auto
    next
      case 2
      with "2.prems" True h show ?thesis by (auto split: option.splits)
    next
      case 3
      with "2.prems" True obtain v w z where v: "hex_value a = Some v" "hex_value b = Some w"
        "unescape (ds @ CHR ''/'' # t) = Some z" "x = char_of (16 * v + w) # z"
        by (auto split: option.splits)
      have "\<exists>s' t'. unescape ds = Some s' \<and> unescape t = Some t' \<and> z = s' @ CHR ''/'' # t'"
        by (rule "2.IH"(1) [OF True 3 refl refl v(1) v(2) v(3)])
      then obtain s' t' where "unescape ds = Some s'" "unescape t = Some t'" "z = s' @ CHR ''/'' # t'" by blast
      with v 3 True show ?thesis by auto
    qed
  qed
qed auto

lemma segment_decoded: "unescape s = Some t \<Longrightarrow> segment s = t"
  by (simp add: segment_def)

lemma NewMux_upload:
  assumes "NewMux meth escaped = RUpload u"
  shows "meth = ''POST'' \<and> (\<exists>a b c. escaped = CHR ''/'' # a @ CHR ''/'' # b @ CHR ''/'' # c \<and> c \<noteq> '''' \<and>
    segment a = ''api'' \<and> segment b = ''avatars'' \<and> segment c = u)"
proof -
  have post: "meth = ''POST''" and can: "canonical escaped"
    using assms by (auto simp: NewMux_def Let_def split: if_splits list.splits)
  from can obtain segs where sp: "split_slash escaped = [] # segs"
    by (auto simp: canonical_def split: list.splits)
  obtain a b c where s: "segs = [a, b, c]" "segment a = ''api''" "segment b = ''avatars''" "segment c = u" "c \<noteq> ''''"
    using assms post can sp by (auto simp: NewMux_def Let_def split: if_splits list.splits)
  have "escaped = join_slash (split_slash escaped)" by simp
  then have "escaped = CHR ''/'' # a @ CHR ''/'' # b @ CHR ''/'' # c" unfolding sp s by simp
  with post s show ?thesis by blast
qed

text \<open>
  C20: No upload gets past the limiter. Whatever the percent-encoding of the path, a request that the mux
  sends to \<open>UploadAvatar\<close> has method POST and a decoded path for which the middleware asks the limiter; if
  the limiter refuses it, the answer is 429, counted under the one label of all avatar paths, and no
  handler has run.
\<close>

theorem uploads_are_limited:
  assumes "NewMux (req_Method r) (req_EscapedPath r) = RUpload u"
    and "unescape (req_EscapedPath r) = Some (req_Path r)"
    and "\<not> fst (allow rnd now l)"
  shows "\<exists>body. api_root rnd prom e now r (l, st) =
    (\<lparr>resp_code = 429, resp_type = Some ''application/json'', resp_body = body\<rparr>,
     [''POST'', ''/api/avatars/{user_id}'', ''429''], snd (allow rnd now l), st)"
proof -
  from NewMux_upload [OF assms(1)] obtain a b c where m: "req_Method r = ''POST''"
    and esc: "req_EscapedPath r = CHR ''/'' # a @ CHR ''/'' # b @ CHR ''/'' # c"
    and seg: "segment a = ''api''" "segment b = ''avatars''" by blast
  from unescape_prefix [of "''''" "a @ CHR ''/'' # b @ CHR ''/'' # c"] assms(2) obtain x where
    x: "unescape (a @ CHR ''/'' # b @ CHR ''/'' # c) = Some x" "req_Path r = CHR ''/'' # x"
    by (auto simp: esc)
  from unescape_prefix [OF x(1)] obtain a' y where
    y: "unescape a = Some a'" "unescape (b @ CHR ''/'' # c) = Some y" "x = a' @ CHR ''/'' # y" by blast
  from unescape_prefix [OF y(2)] obtain b' z where
    z: "unescape b = Some b'" "y = b' @ CHR ''/'' # z" by blast
  have "a' = ''api''" "b' = ''avatars''" using segment_decoded y(1) z(1) seg by auto
  then have "req_Path r = ''/api/avatars/'' @ z" using x(2) y(3) z(2) by simp
  then have p: "has_prefix (req_Path r) ''/api/avatars/''" "req_Path r \<noteq> ''/metrics''"
    by (simp_all only: has_prefix_append) simp
  obtain l' where l: "allow rnd now l = (False, l')" using assms(3) by (cases "allow rnd now l") auto
  have "itoa 429 = ''429''" by code_simp
  with m p l show ?thesis
    by (simp add: api_root_def HTTPMiddleware_def UploadRateLimitMiddleware_def isAvatarUploadPath_def
        NormalizePath_def)
qed

theorem uploads_are_limited_witness:
  "let r = demo_request\<lparr>req_EscapedPath := ''/api/%61vatars/u''\<rparr>;
       l = \<lparr>tokens = 0, capacity = 30, refill = 1 / 2, last_at = 5\<rparr>;
       e = \<lparr>env_parse = demo_parse, env_uuid = ''m1'', env_clock = int, env_index = ''''\<rparr>
   in \<exists>body. api_root rnd64 health e 5 r (l, demo_handler, demo_db, demo_store [], demo_log []) =
     (\<lparr>resp_code = 429, resp_type = Some ''application/json'', resp_body = body\<rparr>,
      [''POST'', ''/api/avatars/{user_id}'', ''429''], l, demo_handler, demo_db, demo_store [], demo_log [])"
proof -
  let ?r = "demo_request\<lparr>req_EscapedPath := ''/api/%61vatars/u''\<rparr>"
  let ?l = "\<lparr>tokens = 0, capacity = 30, refill = 1 / 2, last_at = 5 :: time\<rparr>"
  have u: "unescape (req_EscapedPath ?r) = Some (req_Path ?r)"
    unfolding demo_request_def by simp code_simp
  have "NewMux ''POST'' ''/api/%61vatars/u'' = RUpload ''u''" by code_simp
  then have m: "NewMux (req_Method ?r) (req_EscapedPath ?r) = RUpload ''u''" by (simp add: demo_request_def)
  have a: "allow rnd64 5 ?l = (False, ?l)" by (simp add: allow_def time_Sub_def)
  then have "\<not> fst (allow rnd64 5 ?l)" by simp
  from uploads_are_limited [OF m u this] show ?thesis unfolding Let_def a by simp
qed

end
