(* ===== verification/Metrics.thy ===== *)
theory Metrics
  imports Router
begin

text \<open>
  The background metrics: the poller of \<open>internal/metrics/metrics.go\<close> for the storage in use, and
  \<open>internal/metrics/queue_depth.go\<close>, which asks RabbitMQ's management API for the depth of the processing
  queue. A poller is run on what it receives: ticks, each with the state at that time, and the end of its
  context. A gauge is the float64 that it shows. The HTTP middleware is in \<open>Router\<close>.
\<close>

section \<open>The storage poller\<close>

datatype 's poll_event = PollDone | Tick 's

fun storage_poll_loop ::
  "(real \<Rightarrow> real) \<Rightarrow> 's storage \<Rightarrow> 's poll_event list \<Rightarrow> real \<Rightarrow> bool \<times> real"
where
  "storage_poll_loop rnd store [] gauge = (False, gauge)"
| "storage_poll_loop rnd store (PollDone # _) gauge = (True, gauge)"
| "storage_poll_loop rnd store (Tick s # es) gauge =
     (case TotalStorageBytes store s of
        (Inl _, _) \<Rightarrow> storage_poll_loop rnd store es gauge
      | (Inr bytes, _) \<Rightarrow> storage_poll_loop rnd store es (rnd (of_int (sint bytes))))"

text \<open>The interval of the ticker, and whether the poller has ended, with the gauge.\<close>

definition StartStorageUsagePoller ::
  "(real \<Rightarrow> real) \<Rightarrow> 's storage \<Rightarrow> duration \<Rightarrow> 's poll_event list \<Rightarrow> real \<Rightarrow> duration \<times> bool \<times> real"
where
  "StartStorageUsagePoller rnd store interval es gauge =
     (let interval = (if interval \<le> 0 then 30 * Second else interval)
      in (interval, storage_poll_loop rnd store es gauge))"

section \<open>The management API of RabbitMQ\<close>

record RabbitMQManagement =
  mgmt_Host :: string
  mgmt_Port :: string
  mgmt_User :: string
  mgmt_Password :: string

text \<open>What is used of a parsed URL; the user information may be missing, the password too.\<close>

record amqp_url =
  u_Scheme :: string
  u_Hostname :: string
  u_Userinfo :: "(string \<times> string option) option"

definition Username :: "(string \<times> string option) option \<Rightarrow> string" where
  "Username ui = (case ui of Some (u, _) \<Rightarrow> u | None \<Rightarrow> '''')"

definition userinfo_Password :: "(string \<times> string option) option \<Rightarrow> string" where
  "userinfo_Password ui = (case ui of Some (_, Some p) \<Rightarrow> p | _ \<Rightarrow> '''')"

definition RabbitMQManagementFromURL ::
  "(string \<Rightarrow> go_error + amqp_url) \<Rightarrow> string \<Rightarrow> string \<Rightarrow> string \<Rightarrow> string \<Rightarrow> go_error + RabbitMQManagement"
where
  "RabbitMQManagementFromURL url_parse rabbitURL mgmtPort user password =
     (case url_parse rabbitURL of
        Inl err \<Rightarrow> Inl err
      | Inr parsed \<Rightarrow>
          if u_Scheme parsed \<noteq> ''amqp'' \<and> u_Scheme parsed \<noteq> ''amqps''
          then Inl (ErrText (''unsupported rabbitmq scheme: '' @ u_Scheme parsed))
          else let host = u_Hostname parsed
          in if host = '''' then Inl (ErrText ''rabbitmq host is empty'')
          else let mgmtPort = (if mgmtPort = '''' then ''15672'' else mgmtPort);
                   user = (if user = '''' then Username (u_Userinfo parsed) else user);
                   password = (if password = '''' then userinfo_Password (u_Userinfo parsed) else password);
                   (user, password) = (if user = '''' then (''guest'', ''guest'') else (user, password))
          in Inr \<lparr>mgmt_Host = host, mgmt_Port = mgmtPort, mgmt_User = user, mgmt_Password = password\<rparr>)"

definition rabbitManagementBaseURL :: "RabbitMQManagement \<Rightarrow> go_error + string" where
  "rabbitManagementBaseURL mgmt =
     (if mgmt_Host mgmt = '''' then Inl (ErrText ''rabbitmq host is empty'')
      else let port = (if mgmt_Port mgmt = '''' then ''15672'' else mgmt_Port mgmt)
      in Inr (''http://'' @ mgmt_Host mgmt @ '':'' @ port))"

text \<open>\<open>url.PathEscape\<close>: letters, digits and the characters a segment may hold stay, all others are encoded.\<close>

definition unreserved :: "char \<Rightarrow> bool" where
  "unreserved c \<longleftrightarrow>
     (let n = (of_char c :: nat)
      in 48 \<le> n \<and> n \<le> 57 \<or> 65 \<le> n \<and> n \<le> 90 \<or> 97 \<le> n \<and> n \<le> 122) \<or> c \<in> set ''-_.~$&+:=@''"

definition hex_digit :: "nat \<Rightarrow> char" where
  "hex_digit n = char_of (if n < 10 then 48 + n else 55 + n)"

fun PathEscape :: "string \<Rightarrow> string" where
  "PathEscape [] = []"
| "PathEscape (c # cs) =
     (if unreserved c then [c]
      else [CHR ''%'', hex_digit (of_char c div 16), hex_digit (of_char c mod 16)]) @ PathEscape cs"

text \<open>
  The HTTP client: whether a request can be made for an address, the exchange with basic authentication,
  whose result is the status and the body, and the decoding of the field \<open>messages\<close> of the body.
\<close>

record 'w http_lib =
  http_NewRequest :: "string \<Rightarrow> string \<Rightarrow> go_error option"
  http_Do :: "string \<Rightarrow> string \<Rightarrow> string \<times> string \<Rightarrow> 'w \<Rightarrow> (go_error + int \<times> string) \<times> 'w"
  json_messages :: "string \<Rightarrow> go_error + int"

definition fetchQueueDepth :: "'w http_lib \<Rightarrow> RabbitMQManagement \<Rightarrow> string \<Rightarrow> 'w \<Rightarrow> (go_error + int) \<times> 'w" where
  "fetchQueueDepth http mgmt queueName w =
     (case rabbitManagementBaseURL mgmt of
        Inl err \<Rightarrow> (Inl err, w)
      | Inr baseURL \<Rightarrow>
          (let endpoint = baseURL @ ''/api/queues/'' @ PathEscape ''/'' @ ''/'' @ PathEscape queueName
           in case http_NewRequest http ''GET'' endpoint of
                Some err \<Rightarrow> (Inl err, w)
              | None \<Rightarrow>
                (case http_Do http ''GET'' endpoint (mgmt_User mgmt, mgmt_Password mgmt) w of
                   (Inl err, w) \<Rightarrow> (Inl err, w)
                 | (Inr (status, body), w) \<Rightarrow>
                     if status \<noteq> 200 then
                       (Inl (ErrText (''management api status '' @ itoa (nat status) @ '': '' @ trim_space body)), w)
                     else (case json_messages http body of
                             Inl err \<Rightarrow> (Inl err, w)
                           | Inr messages \<Rightarrow> (Inr messages, w)))))"

fun queue_poll_loop ::
  "(real \<Rightarrow> real) \<Rightarrow> 'w http_lib \<Rightarrow> RabbitMQManagement \<Rightarrow> string \<Rightarrow> 'w poll_event list \<Rightarrow> real \<Rightarrow> bool \<times> real"
where
  "queue_poll_loop rnd http mgmt queueName [] gauge = (False, gauge)"
| "queue_poll_loop rnd http mgmt queueName (PollDone # _) gauge = (True, gauge)"
| "queue_poll_loop rnd http mgmt queueName (Tick w # es) gauge =
     (case fetchQueueDepth http mgmt queueName w of
        (Inl _, _) \<Rightarrow> queue_poll_loop rnd http mgmt queueName es gauge
      | (Inr depth, _) \<Rightarrow> queue_poll_loop rnd http mgmt queueName es (rnd (of_int depth)))"

definition StartQueueDepthPoller ::
  "(real \<Rightarrow> real) \<Rightarrow> 'w http_lib \<Rightarrow> RabbitMQManagement \<Rightarrow> string \<Rightarrow> duration \<Rightarrow> 'w poll_event list \<Rightarrow> real
    \<Rightarrow> duration \<times> bool \<times> real"
where
  "StartQueueDepthPoller rnd http mgmt queueName interval es gauge =
     (let interval = (if interval \<le> 0 then 15 * Second else interval)
      in (interval, queue_poll_loop rnd http mgmt queueName es gauge))"

section \<open>Escaping\<close>

lemma of_char_nibbles: "(of_char c :: nat) div 16 < 16" "(of_char c :: nat) mod 16 < 16"
  using nat_of_char_less_256 [of c] less_mult_imp_div_less [of "of_char c" 16 16] by simp_all

lemma hex_value_digit: "n < 16 \<Longrightarrow> hex_value (hex_digit n) = Some n"
  by (auto simp: hex_value_def hex_digit_def Let_def)

lemma unescape_PathEscape: "unescape (PathEscape s) = Some s"
proof (induction s)
  case (Cons c s)
  have "16 * (of_char c div 16) + of_char c mod 16 = (of_char c :: nat)" by simp
  moreover note of_char_nibbles [of c]
  moreover have "c \<noteq> CHR ''%''" if "unreserved c"
    using that by (auto simp: unreserved_def)
  ultimately show ?case
    using Cons by (simp add: hex_value_digit)
qed simp

lemma PathEscape_no_slash: "CHR ''/'' \<notin> set (PathEscape s)"
proof (induction s)
  case (Cons c s)
  have digit: "hex_digit n \<noteq> CHR ''/''" if "n < 16" for n
    using hex_value_digit [OF that] by (auto simp: hex_value_def)
  note digit [OF of_char_nibbles(1), of c] digit [OF of_char_nibbles(2), of c]
  moreover have "\<not> unreserved (CHR ''/'')" by (simp add: unreserved_def)
  ultimately show ?case using Cons by auto
qed simp

lemma split_slash_single: "CHR ''/'' \<notin> set s \<Longrightarrow> split_slash s = [s]"
  by (induction s) auto

lemma split_slash_Cons: "CHR ''/'' \<notin> set s \<Longrightarrow> split_slash (s @ CHR ''/'' # t) = s # split_slash t"
  by (induction s) auto

lemmas split_slash_escaped = split_slash_single [OF PathEscape_no_slash] split_slash_Cons [OF PathEscape_no_slash]

section \<open>Polling\<close>

text \<open>The states that a poller sees before its context ends.\<close>

fun polled :: "'s poll_event list \<Rightarrow> 's list" where
  "polled [] = []"
| "polled (PollDone # _) = []"
| "polled (Tick s # es) = s # polled es"

definition last_good :: "('s \<Rightarrow> go_error + 'v) \<Rightarrow> 's list \<Rightarrow> 'v option" where
  "last_good f ss = (case rev (filter (\<lambda>s. isl (f s) = False) ss) of s # _ \<Rightarrow> Some (projr (f s)) | [] \<Rightarrow> None)"

lemma last_good_Nil [simp]: "last_good f [] = None"
  by (simp add: last_good_def)

lemma last_good_Cons:
  "last_good f (s # ss) =
     (case last_good f ss of Some v \<Rightarrow> Some v | None \<Rightarrow> (case f s of Inr v \<Rightarrow> Some v | Inl _ \<Rightarrow> None))"
  by (cases "rev (filter (\<lambda>s. isl (f s) = False) ss)") (auto simp: last_good_def split: sum.split)

lemma storage_poll_last:
  "snd (storage_poll_loop rnd store es g) =
     (case last_good (\<lambda>s. fst (TotalStorageBytes store s)) (polled es) of
        Some n \<Rightarrow> rnd (of_int (sint n)) | None \<Rightarrow> g)"
  by (induction rnd store es g rule: storage_poll_loop.induct)
    (auto simp: last_good_Cons split: prod.split sum.split option.split)

lemma queue_poll_last:
  "snd (queue_poll_loop rnd http mgmt q es g) =
     (case last_good (\<lambda>w. fst (fetchQueueDepth http mgmt q w)) (polled es) of
        Some n \<Rightarrow> rnd (of_int n) | None \<Rightarrow> g)"
  by (induction rnd http mgmt q es g rule: queue_poll_loop.induct)
    (auto simp: last_good_Cons split: prod.split sum.split option.split)

section \<open>Properties\<close>

text \<open>
  The gauge of the storage in use shows, rounded to float64, the sum of the sizes of the ready rows as
  of the last poll that the database answered, and what it showed before if there was none.
\<close>

lemma storage_gauge:
  "snd (storage_poll_loop rnd pg_ops es g) =
     (case rev (filter (\<lambda>s. isl (fst (TotalStorageBytes pg_ops s)) = False) (polled es)) of
        [] \<Rightarrow> g
      | s # _ \<Rightarrow> rnd (of_int (sint (ready_bytes (rows (pg_view s))))))"
proof (cases "rev (filter (\<lambda>s. isl (fst (TotalStorageBytes pg_ops s)) = False) (polled es))")
  case (Cons s ss)
  then have "s \<in> set (rev (filter (\<lambda>s. isl (fst (TotalStorageBytes pg_ops s)) = False) (polled es)))"
    by simp
  then have "isl (fst (TotalStorageBytes pg_ops s)) = False" by simp
  then obtain n s' where "TotalStorageBytes pg_ops s = (Inr n, s')"
    by (cases "TotalStorageBytes pg_ops s"; cases "fst (TotalStorageBytes pg_ops s)") auto
  then show ?thesis
    using Cons pg.total_bytes by (simp add: storage_poll_last last_good_def)
qed (simp add: storage_poll_last last_good_def)

text \<open>
  C40: What a queue depth is. A depth that \<open>fetchQueueDepth\<close> reports is the number of messages in the body
  of a 200 answer to a GET request to the host and port of the management configuration, with its user and
  password, whose path decodes to the queue of the virtual host \<open>/\<close>.
\<close>

theorem queue_depth_request:
  assumes "fetchQueueDepth http m q w = (Inr n, w')"
  shows "\<exists>path body. map unescape (split_slash path) = map Some ['''', ''api'', ''queues'', ''/'', q] \<and>
    http_Do http ''GET'' (''http://'' @ mgmt_Host m @ '':'' @
      (if mgmt_Port m = '''' then ''15672'' else mgmt_Port m) @ path) (mgmt_User m, mgmt_Password m) w =
        (Inr (200, body), w') \<and> json_messages http body = Inr n"
proof -
  have "map unescape (split_slash (''/api/queues/'' @ PathEscape ''/'' @ ''/'' @ PathEscape q)) =
      map Some ['''', ''api'', ''queues'', ''/'', q]"
    by (simp add: split_slash_escaped unescape_PathEscape del: PathEscape.simps)
  moreover obtain body where
    "http_Do http ''GET'' (''http://'' @ mgmt_Host m @ '':'' @
      (if mgmt_Port m = '''' then ''15672'' else mgmt_Port m) @ ''/api/queues/'' @ PathEscape ''/'' @ ''/'' @ PathEscape q)
      (mgmt_User m, mgmt_Password m) w = (Inr (200, body), w')" "json_messages http body = Inr n"
    using assms
    by (auto simp: fetchQueueDepth_def rabbitManagementBaseURL_def Let_def simp del: PathEscape.simps
        split: sum.splits option.splits prod.splits if_splits)
  ultimately show ?thesis by blast
qed

definition demo_http :: "unit http_lib" where
  "demo_http =
     \<lparr>http_NewRequest = (\<lambda>meth endpoint. None),
      http_Do = (\<lambda>meth endpoint auth w.
        (if meth = ''GET'' \<and> auth = (''guest'', ''guest'') \<and>
            endpoint = ''http://rabbit:15672/api/queues/%2F/avatars.processing''
         then Inr (200, ''7'') else Inr (404, ''Not Found''), w)),
      json_messages = (\<lambda>body. if body = ''7'' then Inr 7 else Inl (ErrText ''no number''))\<rparr>"

definition demo_mgmt :: RabbitMQManagement where
  "demo_mgmt = \<lparr>mgmt_Host = ''rabbit'', mgmt_Port = '''', mgmt_User = ''guest'', mgmt_Password = ''guest''\<rparr>"

theorem queue_depth_request_witness:
  "\<exists>path body. map unescape (split_slash path) = map Some ['''', ''api'', ''queues'', ''/'', QueueProcessing] \<and>
    http_Do demo_http ''GET'' (''http://rabbit:15672'' @ path) (''guest'', ''guest'') () = (Inr (200, body), ()) \<and>
    json_messages demo_http body = Inr 7"
proof -
  have "fetchQueueDepth demo_http demo_mgmt QueueProcessing () = (Inr 7, ())"
    by code_simp
  from queue_depth_request [OF this] show ?thesis
    by (simp add: demo_mgmt_def)
qed

text \<open>A configuration made from a URL is complete, so its address never fails.\<close>

lemma management_complete:
  assumes "RabbitMQManagementFromURL url_parse raw port user password = Inr m"
  shows "mgmt_Port m \<noteq> '''' \<and> mgmt_User m \<noteq> '''' \<and>
    rabbitManagementBaseURL m = Inr (''http://'' @ mgmt_Host m @ '':'' @ mgmt_Port m)"
  using assms
  by (auto simp: RabbitMQManagementFromURL_def rabbitManagementBaseURL_def Let_def
      split: sum.splits if_splits prod.splits)

text \<open>
  \<open>Hostname\<close> strips the brackets of an IPv6 address and nothing puts them back: the address of the
  management API is then malformed.
\<close>

lemma ipv6_address_unbracketed:
  assumes "url_parse raw = Inr \<lparr>u_Scheme = ''amqp'', u_Hostname = ''::1'', u_Userinfo = None\<rparr>"
  shows "\<exists>m. RabbitMQManagementFromURL url_parse raw '''' '''' '''' = Inr m \<and>
    rabbitManagementBaseURL m = Inr ''http://::1:15672''"
  using assms by (simp add: RabbitMQManagementFromURL_def rabbitManagementBaseURL_def Let_def)

end
