(* ===== verification/Telemetry.thy ===== *)
theory Telemetry
  imports Prelude
begin

text \<open>
  Logging and tracing: the levels of \<open>log/slog\<close>, the two level parsers of \<open>internal/telemetry\<close> and
  \<open>internal/logger\<close>, the handler that fans a record out to several handlers, and \<open>Init\<close>, which acquires
  the exporters and providers of OpenTelemetry. A handler of \<open>slog\<close> is a value with the operations of a
  record \<open>slog_ops\<close>; OpenTelemetry is a parameter.
\<close>

section \<open>Levels\<close>

datatype level = LevelDebug | LevelInfo | LevelWarn | LevelError

primrec level_int :: "level \<Rightarrow> int" where
  "level_int LevelDebug = -4"
| "level_int LevelInfo = 0"
| "level_int LevelWarn = 4"
| "level_int LevelError = 8"

lemma level_int_inject [simp]: "level_int a = level_int b \<longleftrightarrow> a = b"
  by (cases a; cases b) simp_all

instantiation level :: linorder
begin

definition less_eq_level :: "level \<Rightarrow> level \<Rightarrow> bool" where
  "less_eq_level a b \<longleftrightarrow> level_int a \<le> level_int b"

definition less_level :: "level \<Rightarrow> level \<Rightarrow> bool" where
  "less_level a b \<longleftrightarrow> level_int a < level_int b"

instance
  by standard (auto simp: less_eq_level_def less_level_def)

end

definition telemetry_parseLevel :: "string \<Rightarrow> level" where
  "telemetry_parseLevel level =
     (let s = to_lower (trim_space level)
      in if s = ''debug'' then LevelDebug
         else if s = ''warn'' \<or> s = ''warning'' then LevelWarn
         else if s = ''error'' then LevelError
         else LevelInfo)"

definition logger_parseLevel :: "string \<Rightarrow> level \<times> go_error option" where
  "logger_parseLevel level =
     (let s = to_lower (trim_space level)
      in if s = ''debug'' then (LevelDebug, None)
         else if s = ''info'' \<or> s = '''' then (LevelInfo, None)
         else if s = ''warn'' \<or> s = ''warning'' then (LevelWarn, None)
         else if s = ''error'' then (LevelError, None)
         else (LevelInfo, Some ErrInvalidLevel))"

section \<open>Handlers\<close>

type_synonym attrs = "(string \<times> string) list"

record log_record =
  rec_level :: level
  rec_message :: string
  rec_attrs :: attrs

record ('h, 'w) slog_ops =
  Enabled :: "'h \<Rightarrow> level \<Rightarrow> bool"
  slog_Handle :: "'h \<Rightarrow> log_record \<Rightarrow> 'w \<Rightarrow> go_error option \<times> 'w"
  WithAttrs :: "attrs \<Rightarrow> 'h \<Rightarrow> 'h"
  WithGroup :: "string \<Rightarrow> 'h \<Rightarrow> 'h"

text \<open>\<open>multiHandler\<close>, the list of its handlers.\<close>

fun multi_Enabled :: "('h, 'w) slog_ops \<Rightarrow> 'h list \<Rightarrow> level \<Rightarrow> bool" where
  "multi_Enabled ops [] level = False"
| "multi_Enabled ops (handler # handlers) level =
     (if Enabled ops handler level then True else multi_Enabled ops handlers level)"

fun multi_Handle ::
  "('h, 'w) slog_ops \<Rightarrow> 'h list \<Rightarrow> log_record \<Rightarrow> 'w \<Rightarrow> go_error option \<times> 'w"
where
  "multi_Handle ops [] r w = (None, w)"
| "multi_Handle ops (handler # handlers) r w =
     (if Enabled ops handler (rec_level r) then
        (case slog_Handle ops handler r w of
           (Some err, w) \<Rightarrow> (Some err, w)
         | (None, w) \<Rightarrow> multi_Handle ops handlers r w)
      else multi_Handle ops handlers r w)"

fun multi_WithAttrs :: "('h, 'w) slog_ops \<Rightarrow> attrs \<Rightarrow> 'h list \<Rightarrow> 'h list" where
  "multi_WithAttrs ops as [] = []"
| "multi_WithAttrs ops as (handler # handlers) = WithAttrs ops as handler # multi_WithAttrs ops as handlers"

fun multi_WithGroup :: "('h, 'w) slog_ops \<Rightarrow> string \<Rightarrow> 'h list \<Rightarrow> 'h list" where
  "multi_WithGroup ops name [] = []"
| "multi_WithGroup ops name (handler # handlers) = WithGroup ops name handler # multi_WithGroup ops name handlers"

definition multiHandler :: "('h, 'w) slog_ops \<Rightarrow> ('h list, 'w) slog_ops" where
  "multiHandler ops =
     \<lparr>Enabled = multi_Enabled ops, slog_Handle = multi_Handle ops,
      WithAttrs = multi_WithAttrs ops, WithGroup = multi_WithGroup ops\<rparr>"

text \<open>
  What \<open>slog\<close> asks of a handler, on the log of what all handlers have written: \<open>writes h r\<close> is what the
  handler writes for a record; where it reports an error it has written a part of that. Attributes and
  groups do not change for which levels it is enabled.
\<close>

locale slog_handler =
  fixes ops :: "('h, 'w) slog_ops" and out :: "'w \<Rightarrow> 'e list" and writes :: "'h \<Rightarrow> log_record \<Rightarrow> 'e list"
  assumes handled: "slog_Handle ops h r w = (None, w') \<Longrightarrow> out w' = out w @ writes h r"
    and failed: "slog_Handle ops h r w = (Some e, w') \<Longrightarrow> \<exists>p q. writes h r = p @ q \<and> out w' = out w @ p"
    and enabled_attrs: "Enabled ops (WithAttrs ops as h) = Enabled ops h"
    and enabled_group: "Enabled ops (WithGroup ops n h) = Enabled ops h"

definition multi_writes ::
  "('h, 'w) slog_ops \<Rightarrow> ('h \<Rightarrow> log_record \<Rightarrow> 'e list) \<Rightarrow> 'h list \<Rightarrow> log_record \<Rightarrow> 'e list"
where
  "multi_writes ops writes hs r = concat (map (\<lambda>h. writes h r) (filter (\<lambda>h. Enabled ops h (rec_level r)) hs))"

context slog_handler begin

lemma multi_handled:
  "multi_Handle ops hs r w = (None, w') \<Longrightarrow> out w' = out w @ multi_writes ops writes hs r"
proof (induction hs arbitrary: w)
  case (Cons h hs)
  then show ?case
    by (cases "slog_Handle ops h r w")
      (auto simp: multi_writes_def dest!: handled split: if_splits option.splits)
qed (simp add: multi_writes_def)

lemma multi_failed:
  "multi_Handle ops hs r w = (Some e, w') \<Longrightarrow>
   \<exists>p q. multi_writes ops writes hs r = p @ q \<and> out w' = out w @ p"
proof (induction hs arbitrary: w)
  case (Cons h hs)
  show ?case
  proof (cases "Enabled ops h (rec_level r)")
    case False
    with Cons show ?thesis by (simp add: multi_writes_def)
  next
    case True
    obtain err w1 where h: "slog_Handle ops h r w = (err, w1)" by (cases "slog_Handle ops h r w")
    show ?thesis
    proof (cases err)
      case None
      with True h Cons.prems have "multi_Handle ops hs r w1 = (Some e, w')" by simp
      then obtain p q where pq: "multi_writes ops writes hs r = p @ q" "out w' = out w1 @ p"
        using Cons.IH by blast
      show ?thesis
        using pq handled [of h r w w1] h None True
        by (intro exI [of _ "writes h r @ p"] exI [of _ q]) (simp add: multi_writes_def)
    next
      case (Some e1)
      with True h Cons.prems have "w' = w1" by simp
      then show ?thesis
        using failed [of h r w e1 w1] h Some True by (auto simp: multi_writes_def)
    qed
  qed
qed simp

lemma multi_enabled_attrs [simp]: "multi_Enabled ops (multi_WithAttrs ops as hs) = multi_Enabled ops hs"
  by (induction hs) (auto simp: enabled_attrs)

lemma multi_enabled_group [simp]: "multi_Enabled ops (multi_WithGroup ops n hs) = multi_Enabled ops hs"
  by (induction hs) (auto simp: enabled_group)

lemma multi_writes_attrs:
  "multi_writes ops writes (multi_WithAttrs ops as hs) r =
     concat (map (\<lambda>h. writes (WithAttrs ops as h) r) (filter (\<lambda>h. Enabled ops h (rec_level r)) hs))"
  by (induction hs) (auto simp: multi_writes_def enabled_attrs)

text \<open>The fan-out of handlers is itself a handler in this sense.\<close>

lemma multi_handler: "slog_handler (multiHandler ops) out (multi_writes ops writes)"
proof
  show "out w' = out w @ multi_writes ops writes h r"
    if "slog_Handle (multiHandler ops) h r w = (None, w')" for h r w w'
    using multi_handled [of h r w w'] that by (simp add: multiHandler_def)
  show "\<exists>p q. multi_writes ops writes h r = p @ q \<and> out w' = out w @ p"
    if "slog_Handle (multiHandler ops) h r w = (Some e, w')" for h r w e w'
    using multi_failed [of h r w e w'] that by (simp add: multiHandler_def)
qed (simp_all add: multiHandler_def)

end

section \<open>The JSON handler\<close>

text \<open>
  \<open>slog.NewJSONHandler\<close>: it writes the records from its level on, with the attributes added before, each
  under the groups open at the time. An entry of the log is the stream with what is written; a write may
  fail, as the world says in \<open>lw_faults\<close>.
\<close>

record json_handler =
  jh_stream :: nat
  jh_level :: level
  jh_attrs :: "(string list \<times> string \<times> string) list"
  jh_groups :: "string list"

type_synonym log_entry = "nat \<times> level \<times> string \<times> (string list \<times> string \<times> string) list"

record log_world =
  lw_out :: "log_entry list"
  lw_faults :: "string option list"

definition os_Stderr :: nat where "os_Stderr = 2"

definition NewJSONHandler :: "nat \<Rightarrow> level \<Rightarrow> json_handler" where
  "NewJSONHandler stream level = \<lparr>jh_stream = stream, jh_level = level, jh_attrs = [], jh_groups = []\<rparr>"

definition json_writes :: "json_handler \<Rightarrow> log_record \<Rightarrow> log_entry list" where
  "json_writes h r =
     [(jh_stream h, rec_level r, rec_message r,
       jh_attrs h @ map (\<lambda>(k, v). (jh_groups h, k, v)) (rec_attrs r))]"

definition json_Handle :: "json_handler \<Rightarrow> log_record \<Rightarrow> log_world \<Rightarrow> go_error option \<times> log_world" where
  "json_Handle h r w =
     (case lw_faults w of
        Some e # fs \<Rightarrow> (Some (ErrText e), w\<lparr>lw_faults := fs\<rparr>)
      | fs \<Rightarrow> (None, w\<lparr>lw_out := lw_out w @ json_writes h r, lw_faults := tl fs\<rparr>))"

definition json_slog :: "(json_handler, log_world) slog_ops" where
  "json_slog =
     \<lparr>Enabled = (\<lambda>h l. jh_level h \<le> l), slog_Handle = json_Handle,
      WithAttrs = (\<lambda>as h. h\<lparr>jh_attrs := jh_attrs h @ map (\<lambda>(k, v). (jh_groups h, k, v)) as\<rparr>),
      WithGroup = (\<lambda>n h. h\<lparr>jh_groups := jh_groups h @ [n]\<rparr>)\<rparr>"

interpretation json_handler: slog_handler json_slog lw_out json_writes
  by unfold_locales (auto simp: json_slog_def json_Handle_def split: list.splits option.splits)

interpretation json_fan_out: slog_handler "multiHandler json_slog" lw_out "multi_writes json_slog json_writes"
  by (rule json_handler.multi_handler)

section \<open>Loggers\<close>

text \<open>A logger drops a record for which its handler is not enabled, and ignores the handler's error.\<close>

definition log_at :: "('h, 'w) slog_ops \<Rightarrow> 'h \<Rightarrow> level \<Rightarrow> string \<Rightarrow> attrs \<Rightarrow> 'w \<Rightarrow> 'w" where
  "log_at ops h level msg args w =
     (if Enabled ops h level
      then snd (slog_Handle ops h \<lparr>rec_level = level, rec_message = msg, rec_attrs = args\<rparr> w) else w)"

definition InfoContext :: "('h, 'w) slog_ops \<Rightarrow> 'h \<Rightarrow> string \<Rightarrow> attrs \<Rightarrow> 'w \<Rightarrow> 'w" where
  "InfoContext ops dflt msg args w = log_at ops dflt LevelInfo msg args w"

definition ErrorContext :: "('h, 'w) slog_ops \<Rightarrow> 'h \<Rightarrow> string \<Rightarrow> attrs \<Rightarrow> 'w \<Rightarrow> 'w" where
  "ErrorContext ops dflt msg args w = log_at ops dflt LevelError msg args w"

text \<open>\<open>logger.Initialize\<close> on the default handler.\<close>

definition logger_Initialize :: "string \<Rightarrow> json_handler \<Rightarrow> go_error option \<times> json_handler" where
  "logger_Initialize level dflt =
     (case logger_parseLevel level of
        (_, Some err) \<Rightarrow> (Some err, dflt)
      | (lvl, None) \<Rightarrow> (None, NewJSONHandler os_Stderr lvl))"

text \<open>The span context of a request, the identifiers in their text form.\<close>

record span_context =
  sc_IsValid :: bool
  sc_TraceID :: string
  sc_SpanID :: string

definition LoggerFromContext :: "('h, 'w) slog_ops \<Rightarrow> 'h \<Rightarrow> span_context \<Rightarrow> 'h" where
  "LoggerFromContext ops dflt sc =
     (let args = (if sc_IsValid sc
                   then [(''trace_id'', sc_TraceID sc), (''span_id'', sc_SpanID sc)] else [])
      in if length args = 0 then dflt else WithAttrs ops args dflt)"

section \<open>Start of telemetry\<close>

text \<open>
  OpenTelemetry as \<open>Init\<close> uses it: the resource, the exporters, the providers with their \<open>Shutdown\<close>, and the
  global settings. The default logger is given by the targets of its handler and its attributes.
\<close>

datatype 'p log_target = StderrJSON level | OtelLog string 'p

record ('r, 'e, 'p, 'w) otel_lib =
  resource_New :: "string \<Rightarrow> 'w \<Rightarrow> (go_error + 'r) \<times> 'w"
  otlptrace_New :: "'w \<Rightarrow> (go_error + 'e) \<times> 'w"
  otlplog_New :: "'w \<Rightarrow> (go_error + 'e) \<times> 'w"
  NewTracerProvider :: "'r \<Rightarrow> 'e option \<Rightarrow> 'w \<Rightarrow> 'p \<times> 'w"
  NewLoggerProvider :: "'r \<Rightarrow> 'e \<Rightarrow> 'w \<Rightarrow> 'p \<times> 'w"
  provider_Shutdown :: "'p \<Rightarrow> 'w \<Rightarrow> go_error option \<times> 'w"
  SetTracerProvider :: "'p \<Rightarrow> 'w \<Rightarrow> 'w"
  SetTextMapPropagator :: "'w \<Rightarrow> 'w"
  SetDefaultLogger :: "'p log_target list \<Rightarrow> attrs \<Rightarrow> 'w \<Rightarrow> 'w"

text \<open>
  \<open>Init\<close>; on success its result stands for the returned function, the providers that it shuts down in
  this order. \<open>getenv\<close> is \<open>os.Getenv\<close>.
\<close>

definition telemetry_Init ::
  "('r, 'e, 'p, 'w) otel_lib \<Rightarrow> (string \<Rightarrow> string) \<Rightarrow> string \<Rightarrow> string \<Rightarrow> 'w \<Rightarrow> (go_error + 'p list) \<times> 'w"
where
  "telemetry_Init lib getenv serviceName logLevel w =
     (let lvl = telemetry_parseLevel logLevel
      in case resource_New lib serviceName w of
           (Inl err, w) \<Rightarrow> (Inl err, w)
         | (Inr res, w) \<Rightarrow>
           (let endpoint = trim_space (getenv ''OTEL_EXPORTER_OTLP_ENDPOINT'')
            in case (if endpoint \<noteq> '''' then
                       (case otlptrace_New lib w of
                          (Inl err, w) \<Rightarrow> (Inl err, w)
                        | (Inr traceExporter, w) \<Rightarrow>
                            (case NewTracerProvider lib res (Some traceExporter) w of (tp, w) \<Rightarrow> (Inr tp, w)))
                     else (case NewTracerProvider lib res None w of (tp, w) \<Rightarrow> (Inr tp, w))) of
                 (Inl err, w) \<Rightarrow> (Inl err, w)
               | (Inr tp, w) \<Rightarrow>
                 (let w = SetTracerProvider lib tp w;
                      w = SetTextMapPropagator lib w;
                      shutdowns = [tp]
                  in if endpoint \<noteq> '''' then
                       (case otlplog_New lib w of
                          (Inl err, w) \<Rightarrow> (Inl err, w)
                        | (Inr logExporter, w) \<Rightarrow>
                            (case NewLoggerProvider lib res logExporter w of
                               (loggerProvider, w) \<Rightarrow>
                                 (Inr (shutdowns @ [loggerProvider]),
                                  SetDefaultLogger lib [StderrJSON lvl, OtelLog serviceName loggerProvider]
                                    [(''service'', serviceName)] w)))
                     else (Inr shutdowns,
                           SetDefaultLogger lib [StderrJSON lvl] [(''service'', serviceName)] w))))"

text \<open>The function that \<open>Init\<close> returns.\<close>

fun telemetry_shutdown :: "('r, 'e, 'p, 'w) otel_lib \<Rightarrow> 'p list \<Rightarrow> 'w \<Rightarrow> 'w" where
  "telemetry_shutdown lib [] w = w"
| "telemetry_shutdown lib (p # ps) w =
     (case provider_Shutdown lib p w of (_, w) \<Rightarrow> telemetry_shutdown lib ps w)"

text \<open>
  \<open>Init\<close> from \<open>w\<close> gets to the exporter of logs, which fails: the endpoint is set, the tracer provider \<open>p\<close> has
  been made, and \<open>w'\<close> is where \<open>Init\<close> ends.
\<close>

definition log_exporter_fails ::
  "('r, 'e, 'p, 'w) otel_lib \<Rightarrow> (string \<Rightarrow> string) \<Rightarrow> string \<Rightarrow> 'w \<Rightarrow> 'p \<Rightarrow> 'w \<Rightarrow> bool"
where
  "log_exporter_fails lib getenv serviceName w p w' \<longleftrightarrow>
     trim_space (getenv ''OTEL_EXPORTER_OTLP_ENDPOINT'') \<noteq> '''' \<and>
     (\<exists>err res tx w1 w2 w3. resource_New lib serviceName w = (Inr res, w1) \<and> otlptrace_New lib w1 = (Inr tx, w2) \<and>
        NewTracerProvider lib res (Some tx) w2 = (p, w3) \<and>
        otlplog_New lib (SetTextMapPropagator lib (SetTracerProvider lib p w3)) = (Inl err, w'))"

text \<open>What is relied on: which providers are running.\<close>

locale otel_service =
  fixes lib :: "('r, 'e, 'p, 'w) otel_lib" and running :: "'w \<Rightarrow> 'p set"
  assumes new_resource: "resource_New lib n w = (r, w') \<Longrightarrow> running w' = running w"
    and trace_exporter: "otlptrace_New lib w = (x, w') \<Longrightarrow> running w' = running w"
    and log_exporter: "otlplog_New lib w = (x, w') \<Longrightarrow> running w' = running w"
    and tracer_provider: "NewTracerProvider lib res exporter w = (p, w') \<Longrightarrow>
      p \<notin> running w \<and> running w' = insert p (running w)"
    and logger_provider: "NewLoggerProvider lib res processor w = (p, w') \<Longrightarrow>
      p \<notin> running w \<and> running w' = insert p (running w)"
    and shutdown: "provider_Shutdown lib p w = (err, w') \<Longrightarrow> running w' = running w - {p}"
    and set_globals: "running (SetTracerProvider lib p w) = running w"
      "running (SetTextMapPropagator lib w) = running w" "running (SetDefaultLogger lib ts as w) = running w"
begin

lemma shutdown_all: "running (telemetry_shutdown lib ps w) = running w - set ps"
proof (induction ps arbitrary: w)
  case (Cons p ps)
  then show ?case
    by (cases "provider_Shutdown lib p w") (auto dest: shutdown)
qed simp

text \<open>
  The outcomes of \<open>Init\<close>: nothing is left running, or the tracer provider alone, because the exporter of
  logs failed after it had been made; or it succeeds with what its function shuts down.
\<close>

lemma Init_outcome:
  assumes "telemetry_Init lib getenv n l w = (r, w')"
  shows "case r of
      Inl err \<Rightarrow> running w' = running w \<or>
        (\<exists>p. running w' = insert p (running w) \<and> p \<notin> running w \<and> log_exporter_fails lib getenv n w p w')
    | Inr ps \<Rightarrow> set ps \<inter> running w = {} \<and> running w' = running w \<union> set ps"
proof -
  obtain x w1 where res: "resource_New lib n w = (x, w1)" by (cases "resource_New lib n w")
  note w1 = new_resource [OF res]
  show ?thesis
  proof (cases x)
    case (Inl e)
    with assms res w1 show ?thesis by (auto simp: telemetry_Init_def)
  next
    case x: (Inr rs)
    show ?thesis
    proof (cases "trim_space (getenv ''OTEL_EXPORTER_OTLP_ENDPOINT'') = ''''")
      case True
      obtain p w2 where "NewTracerProvider lib rs None w1 = (p, w2)" by (cases "NewTracerProvider lib rs None w1")
      with True assms res x w1 tracer_provider [OF this] show ?thesis
        by (auto simp: telemetry_Init_def Let_def set_globals)
    next
      case False
      obtain te w2 where te: "otlptrace_New lib w1 = (te, w2)" by (cases "otlptrace_New lib w1")
      note w2 = trace_exporter [OF te]
      show ?thesis
      proof (cases te)
        case (Inl e)
        with False assms res x w1 te w2 show ?thesis by (auto simp: telemetry_Init_def Let_def)
      next
        case te': (Inr tx)
        obtain p w3 where tp: "NewTracerProvider lib rs (Some tx) w2 = (p, w3)"
          by (cases "NewTracerProvider lib rs (Some tx) w2")
        note w3 = tracer_provider [OF tp]
        define w3' where "w3' = SetTextMapPropagator lib (SetTracerProvider lib p w3)"
        obtain le w4 where le: "otlplog_New lib w3' = (le, w4)" by (cases "otlplog_New lib w3'")
        have w4: "running w4 = insert p (running w)" "p \<notin> running w"
          using log_exporter [OF le] w1 w2 w3 by (auto simp: w3'_def set_globals)
        show ?thesis
        proof (cases le)
          case (Inl e)
          then have "r = Inl e" "w' = w4"
            using False assms res x te te' tp le by (simp_all add: telemetry_Init_def Let_def w3'_def [symmetric])
          moreover have "log_exporter_fails lib getenv n w p w4"
            using False res x te te' tp le Inl unfolding log_exporter_fails_def w3'_def by blast
          ultimately show ?thesis using w4 by auto
        next
          case (Inr lx)
          obtain q w5 where lp: "NewLoggerProvider lib rs lx w4 = (q, w5)" by (cases "NewLoggerProvider lib rs lx w4")
          note w5 = logger_provider [OF lp]
          have "r = Inr [p, q]" "running w' = running w5"
            using False assms res x te te' tp le Inr lp
            by (auto simp: telemetry_Init_def Let_def w3'_def [symmetric] set_globals)
          with w4 w5 show ?thesis by auto
        qed
      qed
    qed
  qed
qed

end

section \<open>Properties\<close>

text \<open>The two parsers agree; where the one of the logger reports an error, both give the level info.\<close>

lemma parseLevel_agree:
  "logger_parseLevel s =
     (telemetry_parseLevel s,
      if to_lower (trim_space s) \<in> {'''', ''debug'', ''info'', ''warn'', ''warning'', ''error''} then None
      else Some ErrInvalidLevel)"
  by (simp add: logger_parseLevel_def telemetry_parseLevel_def Let_def)

text \<open>
  C39: Fan-out. A record logged through the fan-out with the attribute of the service reaches every handler
  enabled for its level, in their order and with the attribute, and no other handler, if no handler fails;
  if one fails, a part of that has been written and the handlers after it get nothing.
\<close>

theorem every_handler_logs:
  assumes "slog_handler ops out writes"
    and "slog_Handle (multiHandler ops) (WithAttrs (multiHandler ops) [(''service'', n)] hs) r w = (err, w')"
  shows "\<exists>p q. out w' = out w @ p \<and> (err = None \<longrightarrow> q = []) \<and>
    p @ q = concat (map (\<lambda>h. writes (WithAttrs ops [(''service'', n)] h) r)
      (filter (\<lambda>h. Enabled ops h (rec_level r)) hs))"
proof -
  note multi = slog_handler.multi_handled [OF assms(1)] slog_handler.multi_failed [OF assms(1)]
  let ?hs = "multi_WithAttrs ops [(''service'', n)] hs"
  have run: "multi_Handle ops ?hs r w = (err, w')"
    using assms(2) by (simp add: multiHandler_def)
  show ?thesis
    unfolding slog_handler.multi_writes_attrs [OF assms(1), symmetric]
    using multi run by (cases err) fastforce+
qed

theorem every_handler_logs_witness:
  "lw_out (snd (slog_Handle (multiHandler json_slog)
       (WithAttrs (multiHandler json_slog) [(''service'', ''api'')]
         [NewJSONHandler 2 LevelInfo, NewJSONHandler 5 LevelDebug, NewJSONHandler 6 LevelWarn])
       \<lparr>rec_level = LevelInfo, rec_message = ''started'', rec_attrs = []\<rparr> \<lparr>lw_out = [], lw_faults = []\<rparr>)) =
   [(2, LevelInfo, ''started'', [([], ''service'', ''api'')]),
    (5, LevelInfo, ''started'', [([], ''service'', ''api'')])]"
  (is "lw_out (snd ?run) = ?entries")
proof -
  have "fst ?run = None" by code_simp
  then have r: "?run = (None, snd ?run)" by (metis prod.collapse)
  have "concat (map (\<lambda>h. json_writes (WithAttrs json_slog [(''service'', ''api'')] h)
      \<lparr>rec_level = LevelInfo, rec_message = ''started'', rec_attrs = []\<rparr>)
      (filter (\<lambda>h. Enabled json_slog h LevelInfo)
        [NewJSONHandler 2 LevelInfo, NewJSONHandler 5 LevelDebug, NewJSONHandler 6 LevelWarn])) = ?entries"
    by code_simp
  with every_handler_logs [OF json_handler.slog_handler_axioms r] show ?thesis
    by (simp only: log_record.simps log_world.simps) auto
qed

end
