(* ===== verification/Startup.thy ===== *)
theory Startup
  imports Metrics Telemetry Options Worker
begin

text \<open>
  The two programs as wholes: \<open>run\<close> of \<open>cmd/api/main.go\<close> and of \<open>cmd/worker/main.go\<close>, from the options to the
  exit code, with the resources they acquire and their deferred releases, and the constructors
  \<open>NewPostgresStorage\<close> and \<open>NewClient\<close>. Each service a program talks to has its own state in the record
  \<open>host\<close>; a handler of requests or messages reaches the database, S3 and the channel, not the handles.
  Requests and deliveries are served one after another; \<open>None\<close> as exit code means still running.
\<close>

section \<open>Constructors\<close>

text \<open>\<open>database/sql\<close> with its driver: opening, pinging and closing a pool, and its open connections.\<close>

record ('db, 'w) sql_lib =
  sql_Open :: "string \<Rightarrow> 'w \<Rightarrow> (go_error + 'db) \<times> 'w"
  db_Ping :: "'db \<Rightarrow> 'w \<Rightarrow> go_error option \<times> 'w"
  db_Close :: "'db \<Rightarrow> 'w \<Rightarrow> go_error option \<times> 'w"
  db_OpenConnections :: "'db \<Rightarrow> 'w \<Rightarrow> int"

text \<open>The value of the gauge \<open>avatars_db_connections_open\<close>.\<close>

definition RecordDBStats :: "(real \<Rightarrow> real) \<Rightarrow> ('db, 'w) sql_lib \<Rightarrow> 'db \<Rightarrow> 'w \<Rightarrow> real" where
  "RecordDBStats rnd lib db w = rnd (of_int (db_OpenConnections lib db w))"

definition NewPostgresStorage ::
  "(real \<Rightarrow> real) \<Rightarrow> ('db, 'w) sql_lib \<Rightarrow> string \<Rightarrow> 'w \<Rightarrow> (go_error + 'db \<times> real) \<times> 'w"
where
  "NewPostgresStorage rnd lib dsn w =
     (case sql_Open lib dsn w of
        (Inl err, w) \<Rightarrow> (Inl err, w)
      | (Inr db, w) \<Rightarrow>
          (case db_Ping lib db w of
             (Some err, w) \<Rightarrow> (case db_Close lib db w of (_, w) \<Rightarrow> (Inl err, w))
           | (None, w) \<Rightarrow> (Inr (db, rnd (of_int (db_OpenConnections lib db w))), w)))"

definition pg_Close :: "('db, 'w) sql_lib \<Rightarrow> 'db \<Rightarrow> 'w \<Rightarrow> go_error option \<times> 'w" where
  "pg_Close lib db w = db_Close lib db w"

text \<open>What is relied on: which pools are open.\<close>

locale sql_driver =
  fixes lib :: "('db, 'w) sql_lib" and pools :: "'w \<Rightarrow> 'db set"
  assumes opened: "sql_Open lib dsn w = (Inr db, w') \<Longrightarrow> db \<notin> pools w \<and> pools w' = insert db (pools w)"
    and open_failed: "sql_Open lib dsn w = (Inl e, w') \<Longrightarrow> pools w' = pools w"
    and pinged: "db_Ping lib db w = (err, w') \<Longrightarrow> pools w' = pools w"
    and closed: "db_Close lib db w = (err, w') \<Longrightarrow> pools w' = pools w - {db}"
begin

lemma new_storage:
  assumes "NewPostgresStorage rnd lib dsn w = (r, w')"
  shows "case r of Inl err \<Rightarrow> pools w' = pools w
    | Inr (db, g) \<Rightarrow> db \<notin> pools w \<and> pools w' = insert db (pools w)"
  using assms
  by (auto simp: NewPostgresStorage_def split: prod.splits sum.splits option.splits
      dest!: opened open_failed pinged closed)

end

text \<open>The configuration of the S3 client, and what it makes of it for the SDK.\<close>

record Config =
  cfg_Endpoint :: string
  cfg_PublicEndpoint :: string
  cfg_Bucket :: string
  cfg_Region :: string
  cfg_AccessKey :: string
  cfg_SecretKey :: string
  cfg_UseSSL :: bool

record aws_config =
  aws_Region :: string
  aws_Endpoint :: string
  aws_S3ForcePathStyle :: bool
  aws_Credentials :: "string \<times> string \<times> string"
  aws_DisableSSL :: bool

definition NewClient ::
  "(aws_config \<Rightarrow> go_error + 'b s3_api) \<Rightarrow> Config \<Rightarrow> go_error + 'b s3_api \<times> client"
where
  "NewClient NewSession cfg =
     (let awsCfg = \<lparr>aws_Region = cfg_Region cfg, aws_Endpoint = cfg_Endpoint cfg,
            aws_S3ForcePathStyle = True,
            aws_Credentials = (cfg_AccessKey cfg, cfg_SecretKey cfg, ''''),
            aws_DisableSSL = (\<not> cfg_UseSSL cfg)\<rparr>
      in case NewSession awsCfg of
           Inl err \<Rightarrow> Inl (Wrapped ''create s3 session'' err)
         | Inr sess \<Rightarrow> Inr (sess, \<lparr>bucket = cfg_Bucket cfg, publicEndpoint = cfg_PublicEndpoint cfg\<rparr>))"

text \<open>The literal with which both programs call it.\<close>

definition s3_config :: "AppOptions \<Rightarrow> Config" where
  "s3_config opts =
     \<lparr>cfg_Endpoint = S3Endpoint opts, cfg_PublicEndpoint = S3PublicEndpoint opts,
      cfg_Bucket = S3Bucket opts, cfg_Region = S3Region opts, cfg_AccessKey = S3AccessKey opts,
      cfg_SecretKey = S3SecretKey opts, cfg_UseSSL = S3UseSSL opts\<rparr>"

section \<open>Small functions\<close>

datatype os_signal = Interrupt | SIGTERM | SIGQUIT

definition shutdownSignals :: "string \<Rightarrow> os_signal list" where
  "shutdownSignals GOOS = [Interrupt, SIGTERM] @ (if GOOS \<noteq> ''windows'' then [SIGQUIT] else [])"

text \<open>\<open>os.Getenv\<close>.\<close>

definition os_Getenv :: "environment \<Rightarrow> string \<Rightarrow> string" where
  "os_Getenv environ key = (case environ key of Some v \<Rightarrow> v | None \<Rightarrow> '''')"

definition api_serviceName :: "environment \<Rightarrow> string" where
  "api_serviceName environ =
     (let name = os_Getenv environ ''OTEL_SERVICE_NAME'' in if name \<noteq> '''' then name else ''avatars-api'')"

definition worker_serviceName :: "environment \<Rightarrow> string" where
  "worker_serviceName environ =
     (let name = os_Getenv environ ''OTEL_SERVICE_NAME'' in if name \<noteq> '''' then name else ''avatars-worker'')"

definition valueOrNA :: "string \<Rightarrow> string" where
  "valueOrNA value = (if value = '''' then ''N/A'' else value)"

definition printBuildInfo :: "string \<Rightarrow> string \<Rightarrow> string \<Rightarrow> string" where
  "printBuildInfo version date commit =
     ''Build version: '' @ valueOrNA version @ [CHR 0x0A] @ ''Build date: '' @ valueOrNA date @ [CHR 0x0A] @
     ''Build commit: '' @ valueOrNA commit @ [CHR 0x0A]"

section \<open>Resources\<close>

record ('cn, 'ch, 'wa, 'r, 'e, 'p, 'wo, 'db, 'wd, 'b, 'c) platform =
  pl_config :: config_lib
  pl_otel :: "('r, 'e, 'p, 'wo) otel_lib"
  pl_sql :: "('db, 'wd) sql_lib"
  pl_session :: "aws_config \<Rightarrow> go_error + 'b s3_api"
  pl_amqp :: "('cn, 'ch, 'wa) amqp_lib"
  pl_channel :: "'ch \<Rightarrow> 'c channel"
  pl_float :: "real \<Rightarrow> real"

record ('wa, 'wo, 'wd, 'b, 'c) host =
  host_otel :: 'wo
  host_sql :: 'wd
  host_amqp :: 'wa
  host_pg :: pg
  host_s3 :: 'b
  host_chan :: 'c

type_synonym 'h body = "'h \<Rightarrow> nat option \<times> 'h"

text \<open>A deferred release runs when the function returns.\<close>

definition deferred :: "('h \<Rightarrow> 'h) \<Rightarrow> nat option \<times> 'h \<Rightarrow> nat option \<times> 'h" where
  "deferred release res = (case res of (None, h) \<Rightarrow> (None, h) | (Some code, h) \<Rightarrow> (Some code, release h))"

definition with_telemetry ::
  "('cn, 'ch, 'wa, 'r, 'e, 'p, 'wo, 'db, 'wd, 'b, 'c) platform \<Rightarrow> environment \<Rightarrow> string \<Rightarrow> string
    \<Rightarrow> ('wa, 'wo, 'wd, 'b, 'c) host body \<Rightarrow> ('wa, 'wo, 'wd, 'b, 'c) host body"
where
  "with_telemetry pl environ serviceName level body h =
     (case telemetry_Init (pl_otel pl) (os_Getenv environ) serviceName level (host_otel h) of
        (Inl _, w) \<Rightarrow> (Some 1, h\<lparr>host_otel := w\<rparr>)
      | (Inr shutdowns, w) \<Rightarrow>
          deferred (\<lambda>h. h\<lparr>host_otel := telemetry_shutdown (pl_otel pl) shutdowns (host_otel h)\<rparr>)
            (body (h\<lparr>host_otel := w\<rparr>)))"

definition with_postgres ::
  "('cn, 'ch, 'wa, 'r, 'e, 'p, 'wo, 'db, 'wd, 'b, 'c) platform \<Rightarrow> string
    \<Rightarrow> ('wa, 'wo, 'wd, 'b, 'c) host body \<Rightarrow> ('wa, 'wo, 'wd, 'b, 'c) host body"
where
  "with_postgres pl dsn body h =
     (if dsn = '''' then (Some 1, h)
      else case NewPostgresStorage (pl_float pl) (pl_sql pl) dsn (host_sql h) of
        (Inl _, w) \<Rightarrow> (Some 1, h\<lparr>host_sql := w\<rparr>)
      | (Inr (db, _), w) \<Rightarrow>
          deferred (\<lambda>h. h\<lparr>host_sql := snd (pg_Close (pl_sql pl) db (host_sql h))\<rparr>)
            (body (h\<lparr>host_sql := w\<rparr>)))"

definition with_rabbit ::
  "('cn, 'ch, 'wa, 'r, 'e, 'p, 'wo, 'db, 'wd, 'b, 'c) platform \<Rightarrow> string
    \<Rightarrow> ('ch \<Rightarrow> ('wa, 'wo, 'wd, 'b, 'c) host body) \<Rightarrow> ('wa, 'wo, 'wd, 'b, 'c) host body"
where
  "with_rabbit pl url body h =
     (case Connect (pl_amqp pl) url (host_amqp h) of
        (Inl _, w) \<Rightarrow> (Some 1, h\<lparr>host_amqp := w\<rparr>)
      | (Inr (conn, ch), w) \<Rightarrow>
          deferred (\<lambda>h. h\<lparr>host_amqp :=
              snd (conn_Close (pl_amqp pl) conn (snd (ch_Close (pl_amqp pl) ch (host_amqp h))))\<rparr>)
            (body ch (h\<lparr>host_amqp := w\<rparr>)))"

section \<open>The API server\<close>

text \<open>How serving ends: the listener fails, or a signal comes and \<open>Shutdown\<close> reports an error or not.\<close>

datatype server_end = ServerFailed go_error | Signalled "go_error option"

text \<open>What the API receives while it runs, with the libraries its handlers use.\<close>

record 'u api_inputs =
  ai_json :: json_lib
  ai_trace :: "(string \<times> string) list"
  ai_url :: "'u url_lib"
  ai_prom :: response
  ai_start :: time
  ai_requests :: "(env \<times> time \<times> request) list"
  ai_end :: "server_end option"

fun serve_requests ::
  "(real \<Rightarrow> real) \<Rightarrow> response \<Rightarrow> (env \<times> time \<times> request) list \<Rightarrow> uploadRateLimiter \<times> ('s, 'o, 'p) api_state
    \<Rightarrow> response list \<times> uploadRateLimiter \<times> ('s, 'o, 'p) api_state"
where
  "serve_requests rnd prom [] st = ([], st)"
| "serve_requests rnd prom ((e, now, r) # rs) st =
     (case api_root rnd prom e now r st of
        (resp, _, st) \<Rightarrow> (case serve_requests rnd prom rs st of (resps, st) \<Rightarrow> (resp # resps, st)))"

definition api_serve ::
  "('cn, 'ch, 'wa, 'r, 'e, 'p, 'wo, 'db, 'wd, 'b, 'c) platform \<Rightarrow> 'u api_inputs \<Rightarrow> AppOptions
    \<Rightarrow> 'b s3_api \<times> client \<Rightarrow> 'ch \<Rightarrow> ('wa, 'wo, 'wd, 'b, 'c) host body"
where
  "api_serve pl ins opts objects ch h =
     (let hd = program_handler (ai_json ins) (ai_trace ins) (ai_url ins) (fst objects) (snd objects)
            (pl_channel pl ch) (MaxUploadBytes opts);
          limiter = initial_limiter (pl_float pl) (ai_start ins)
      in case serve_requests (pl_float pl) (ai_prom ins) (ai_requests ins)
             (limiter, hd, host_pg h, host_s3 h, host_chan h) of
           (_, _, _, s, ob, p) \<Rightarrow>
             (let h = h\<lparr>host_pg := s, host_s3 := ob, host_chan := p\<rparr>
              in case ai_end ins of
                   None \<Rightarrow> (None, h)
                 | Some (ServerFailed _) \<Rightarrow> (Some 1, h)
                 | Some (Signalled (Some _)) \<Rightarrow> (Some 1, h)
                 | Some (Signalled None) \<Rightarrow> (Some 0, h)))"

definition api_with_storage ::
  "('cn, 'ch, 'wa, 'r, 'e, 'p, 'wo, 'db, 'wd, 'b, 'c) platform \<Rightarrow> 'u api_inputs \<Rightarrow> AppOptions
    \<Rightarrow> ('wa, 'wo, 'wd, 'b, 'c) host body"
where
  "api_with_storage pl ins opts h =
     (case NewClient (pl_session pl) (s3_config opts) of
        Inl _ \<Rightarrow> (Some 1, h)
      | Inr (api, c) \<Rightarrow>
          (case EnsureBucket api c (host_s3 h) of
             (Some _, b) \<Rightarrow> (Some 1, h\<lparr>host_s3 := b\<rparr>)
           | (None, b) \<Rightarrow>
               with_rabbit pl (RabbitMQURL opts) (api_serve pl ins opts (api, c)) (h\<lparr>host_s3 := b\<rparr>)))"

definition api_run ::
  "('cn, 'ch, 'wa, 'r, 'e, 'p, 'wo, 'db, 'wd, 'b, 'c) platform \<Rightarrow> 'u api_inputs \<Rightarrow> environment \<Rightarrow> string list
    \<Rightarrow> ('wa, 'wo, 'wd, 'b, 'c) host \<Rightarrow> early_end option \<times> ('wa, 'wo, 'wd, 'b, 'c) host"
where
  "api_run pl ins environ args h =
     (case api_options (pl_config pl) environ args of
        Inl e \<Rightarrow> (Some e, h)
      | Inr opts \<Rightarrow>
          (case with_telemetry pl environ (api_serviceName environ) (LogLevel opts)
                  (with_postgres pl (DatabaseDSN opts) (api_with_storage pl ins opts)) h of
             (code, h) \<Rightarrow> (map_option Exit code, h)))"

section \<open>The worker\<close>

text \<open>\<open>context.Canceled\<close>, what a cancelled context reports.\<close>

definition context_Canceled :: go_error where "context_Canceled = ErrText ''context canceled''"

record 'px worker_inputs =
  wi_json :: json_lib
  wi_codec :: "'px codec"
  wi_clock :: "nat \<Rightarrow> time"
  wi_url_parse :: "string \<Rightarrow> go_error + amqp_url"
  wi_events :: "loop_event list"
  wi_shutdown :: "go_error option"

definition worker_serve ::
  "('cn, 'ch, 'wa, 'r, 'e, 'p, 'wo, 'db, 'wd, 'b, 'c) platform \<Rightarrow> 'px worker_inputs \<Rightarrow> AppOptions
    \<Rightarrow> 'b s3_api \<times> client \<Rightarrow> 'ch \<Rightarrow> ('wa, 'wo, 'wd, 'b, 'c) host body"
where
  "worker_serve pl ins opts objects ch h =
     (let svc = service_handler pg_ops (client_worker_objects (fst objects) (snd objects))
            (wi_codec ins) (wi_clock ins)
      in case RabbitMQManagementFromURL (wi_url_parse ins) (RabbitMQURL opts) (RabbitMQMgmtPort opts)
             (RabbitMQUser opts) (RabbitMQPassword opts) of
           Inl _ \<Rightarrow> (Some 1, h)
         | Inr mgmt \<Rightarrow>
           (case Consume (wi_json ins) pg_ops (pl_channel pl ch) svc (wi_events ins)
               (host_pg h, host_s3 h, host_chan h) of
              (r, _, s, ob, p) \<Rightarrow>
                (let h = h\<lparr>host_pg := s, host_s3 := ob, host_chan := p\<rparr>
                 in case r of
                      None \<Rightarrow> (None, h)
                    | Some err \<Rightarrow>
                        if err \<noteq> None \<and> err \<noteq> Some context_Canceled then (Some 1, h)
                        else (case wi_shutdown ins of Some _ \<Rightarrow> (Some 1, h) | None \<Rightarrow> (Some 0, h)))))"

definition worker_with_storage ::
  "('cn, 'ch, 'wa, 'r, 'e, 'p, 'wo, 'db, 'wd, 'b, 'c) platform \<Rightarrow> 'px worker_inputs \<Rightarrow> AppOptions
    \<Rightarrow> ('wa, 'wo, 'wd, 'b, 'c) host body"
where
  "worker_with_storage pl ins opts h =
     (case NewClient (pl_session pl) (s3_config opts) of
        Inl _ \<Rightarrow> (Some 1, h)
      | Inr objects \<Rightarrow> with_rabbit pl (RabbitMQURL opts) (worker_serve pl ins opts objects) h)"

definition worker_run ::
  "('cn, 'ch, 'wa, 'r, 'e, 'p, 'wo, 'db, 'wd, 'b, 'c) platform \<Rightarrow> 'px worker_inputs \<Rightarrow> environment \<Rightarrow> string list
    \<Rightarrow> ('wa, 'wo, 'wd, 'b, 'c) host \<Rightarrow> early_end option \<times> ('wa, 'wo, 'wd, 'b, 'c) host"
where
  "worker_run pl ins environ args h =
     (case worker_options (pl_config pl) environ args of
        Inl e \<Rightarrow> (Some e, h)
      | Inr opts \<Rightarrow>
          (case with_telemetry pl environ (worker_serviceName environ) (LogLevel opts)
                  (with_postgres pl (DatabaseDSN opts) (worker_with_storage pl ins opts)) h of
             (code, h) \<Rightarrow> (map_option Exit code, h)))"

section \<open>Release of resources\<close>

text \<open>A body that changes no part \<open>f\<close> of the host.\<close>

definition keeps :: "('h \<Rightarrow> 'x) \<Rightarrow> 'h body \<Rightarrow> bool" where
  "keeps f body \<longleftrightarrow> (\<forall>h. f (snd (body h)) = f h)"

lemma keepsI: "(\<And>h code h'. body h = (code, h') \<Longrightarrow> f h' = f h) \<Longrightarrow> keeps f body"
  by (simp add: keeps_def) (metis prod.collapse)

lemma keepsD: "keeps f body \<Longrightarrow> body h = (code, h') \<Longrightarrow> f h' = f h"
  by (metis keeps_def snd_conv)

lemma api_serve_keeps:
  "keeps host_otel (api_serve pl ins opts objects ch)" "keeps host_sql (api_serve pl ins opts objects ch)"
  "keeps host_amqp (api_serve pl ins opts objects ch)"
  by (auto intro!: keepsI simp: api_serve_def Let_def
      split: prod.splits option.splits server_end.splits)

lemma worker_serve_keeps:
  "keeps host_otel (worker_serve pl ins opts objects ch)" "keeps host_sql (worker_serve pl ins opts objects ch)"
  "keeps host_amqp (worker_serve pl ins opts objects ch)"
  by (auto intro!: keepsI simp: worker_serve_def Let_def
      split: prod.splits option.splits sum.splits if_splits)

lemma with_rabbit_keeps:
  "(\<And>ch. keeps host_otel (body ch)) \<Longrightarrow> keeps host_otel (with_rabbit pl url body)"
  "(\<And>ch. keeps host_sql (body ch)) \<Longrightarrow> keeps host_sql (with_rabbit pl url body)"
  by (rule keepsI, fastforce simp: with_rabbit_def deferred_def dest: keepsD
      split: prod.splits sum.splits option.splits)+

lemma storage_keeps:
  "keeps host_otel (api_with_storage pl ins opts)" "keeps host_sql (api_with_storage pl ins opts)"
  "keeps host_otel (worker_with_storage pl wins opts)" "keeps host_sql (worker_with_storage pl wins opts)"
proof -
  have a: "keeps host_otel (with_rabbit pl url (api_serve pl ins opts ob))"
    "keeps host_sql (with_rabbit pl url (api_serve pl ins opts ob))" for url ob
    by (intro with_rabbit_keeps api_serve_keeps)+
  have w: "keeps host_otel (with_rabbit pl url (worker_serve pl wins opts ob))"
    "keeps host_sql (with_rabbit pl url (worker_serve pl wins opts ob))" for url ob
    by (intro with_rabbit_keeps worker_serve_keeps)+
  show "keeps host_otel (api_with_storage pl ins opts)" "keeps host_sql (api_with_storage pl ins opts)"
    using a by (auto simp: keeps_def api_with_storage_def split: prod.split sum.split option.split)
  show "keeps host_otel (worker_with_storage pl wins opts)" "keeps host_sql (worker_with_storage pl wins opts)"
    using w by (auto simp: keeps_def worker_with_storage_def split: prod.split sum.split option.split)
qed

lemma with_postgres_keeps: "keeps host_otel body \<Longrightarrow> keeps host_otel (with_postgres pl dsn body)"
  by (rule keepsI) (fastforce simp: with_postgres_def deferred_def dest: keepsD
      split: prod.splits sum.splits option.splits if_splits)

text \<open>A body that, when it is done, has put back \<open>f\<close>; acquiring another resource around it keeps that.\<close>

definition restores :: "('h \<Rightarrow> 'x) \<Rightarrow> 'h body \<Rightarrow> bool" where
  "restores f body \<longleftrightarrow> (\<forall>h code h'. body h = (Some code, h') \<longrightarrow> f h' = f h)"

lemma restoresD: "restores f body \<Longrightarrow> body h = (Some code, h') \<Longrightarrow> f h' = f h"
  by (auto simp: restores_def)

lemma with_telemetry_restores:
  assumes "\<And>h w. f (h\<lparr>host_otel := w\<rparr>) = f h" and "restores f body"
  shows "restores f (with_telemetry pl environ n l body)"
  unfolding restores_def
proof (intro allI impI)
  fix h code h'
  assume run: "with_telemetry pl environ n l body h = (Some code, h')"
  obtain r w where i: "telemetry_Init (pl_otel pl) (os_Getenv environ) n l (host_otel h) = (r, w)"
    by (cases "telemetry_Init (pl_otel pl) (os_Getenv environ) n l (host_otel h)")
  show "f h' = f h"
  proof (cases r)
    case (Inl e)
    then have "h' = h\<lparr>host_otel := w\<rparr>" using run by (simp add: with_telemetry_def i)
    then show ?thesis by (simp add: assms(1))
  next
    case (Inr ps)
    then obtain h1 where "body (h\<lparr>host_otel := w\<rparr>) = (Some code, h1)"
      and "h' = h1\<lparr>host_otel := telemetry_shutdown (pl_otel pl) ps (host_otel h1)\<rparr>"
      using run by (auto simp: with_telemetry_def i deferred_def split: prod.splits option.splits)
    then show ?thesis using restoresD [OF assms(2)] by (simp add: assms(1))
  qed
qed

lemma with_postgres_restores:
  assumes "\<And>h w. f (h\<lparr>host_sql := w\<rparr>) = f h" and "restores f body"
  shows "restores f (with_postgres pl dsn body)"
  unfolding restores_def
proof (intro allI impI)
  fix h code h'
  assume run: "with_postgres pl dsn body h = (Some code, h')"
  obtain r w where n: "NewPostgresStorage (pl_float pl) (pl_sql pl) dsn (host_sql h) = (r, w)"
    by (cases "NewPostgresStorage (pl_float pl) (pl_sql pl) dsn (host_sql h)")
  consider "h' = h" | "h' = h\<lparr>host_sql := w\<rparr>"
    | h1 db where "body (h\<lparr>host_sql := w\<rparr>) = (Some code, h1)"
      and "h' = h1\<lparr>host_sql := snd (pg_Close (pl_sql pl) db (host_sql h1))\<rparr>"
    using run
    by (cases "dsn = ''''"; cases r) (auto simp: with_postgres_def n deferred_def split: prod.splits option.splits)
  then show "f h' = f h"
    by cases (use restoresD [OF assms(2)] in \<open>simp_all add: assms(1)\<close>)
qed

text \<open>A run with code 0 has got past the acquisitions around its body.\<close>

lemma with_telemetry_done:
  assumes "with_telemetry pl environ n l body h = (Some 0, h')"
  shows "\<exists>ps w h1. telemetry_Init (pl_otel pl) (os_Getenv environ) n l (host_otel h) = (Inr ps, w) \<and>
    body (h\<lparr>host_otel := w\<rparr>) = (Some 0, h1) \<and>
    h' = h1\<lparr>host_otel := telemetry_shutdown (pl_otel pl) ps (host_otel h1)\<rparr>"
  using assms by (auto simp: with_telemetry_def deferred_def split: prod.splits sum.splits option.splits)

lemma with_postgres_done:
  assumes "with_postgres pl dsn body h = (Some 0, h')"
  shows "dsn \<noteq> '''' \<and> (\<exists>db g w h1. NewPostgresStorage (pl_float pl) (pl_sql pl) dsn (host_sql h) = (Inr (db, g), w) \<and>
    body (h\<lparr>host_sql := w\<rparr>) = (Some 0, h1) \<and> h' = h1\<lparr>host_sql := snd (pg_Close (pl_sql pl) db (host_sql h1))\<rparr>)"
  using assms by (auto simp: with_postgres_def deferred_def split: prod.splits sum.splits option.splits if_splits)

lemma with_rabbit_done:
  assumes "with_rabbit pl url body h = (Some 0, h')"
  shows "\<exists>conn ch w h1. Connect (pl_amqp pl) url (host_amqp h) = (Inr (conn, ch), w) \<and>
    body ch (h\<lparr>host_amqp := w\<rparr>) = (Some 0, h1) \<and>
    h' = h1\<lparr>host_amqp := snd (conn_Close (pl_amqp pl) conn (snd (ch_Close (pl_amqp pl) ch (host_amqp h1))))\<rparr>"
  using assms by (auto simp: with_rabbit_def deferred_def split: prod.splits sum.splits option.splits)

text \<open>The three kinds of handles of a program.\<close>

locale platform_env =
  am: amqp_client "pl_amqp pl" conns made + ot: otel_service "pl_otel pl" running + sq: sql_driver "pl_sql pl" pools
  for pl :: "('cn, 'ch, 'wa, 'r, 'e, 'p, 'wo, 'db, 'wd, 'b, 'c) platform"
    and conns :: "'wa \<Rightarrow> 'cn set" and made :: "'wa \<Rightarrow> declare_call set"
    and running :: "'wo \<Rightarrow> 'p set" and pools :: "'wd \<Rightarrow> 'db set"
begin

text \<open>Whatever way a body that is done took, the connection is closed again.\<close>

lemma with_rabbit_released:
  assumes "\<And>ch. keeps host_amqp (body ch)" and "with_rabbit pl url body h = (Some code, h')"
  shows "conns (host_amqp h') = conns (host_amqp h)"
proof (cases "Connect (pl_amqp pl) url (host_amqp h)")
  case (Pair r w)
  note out = am.connect_outcome [OF Pair]
  show ?thesis
  proof (cases r)
    case (Inl e)
    then have "h' = h\<lparr>host_amqp := w\<rparr>" using assms(2) by (simp add: with_rabbit_def Pair)
    then show ?thesis using out Inl by simp
  next
    case (Inr cc)
    obtain conn ch where cc: "cc = (conn, ch)" by (cases cc)
    obtain res h1 where b: "body ch (h\<lparr>host_amqp := w\<rparr>) = (res, h1)" by (cases "body ch (h\<lparr>host_amqp := w\<rparr>)")
    have h1: "host_amqp h1 = w" using keepsD [OF assms(1) b] by simp
    obtain e w2 where c1: "ch_Close (pl_amqp pl) ch w = (e, w2)" by (cases "ch_Close (pl_amqp pl) ch w")
    obtain e' w3 where c2: "conn_Close (pl_amqp pl) conn w2 = (e', w3)" by (cases "conn_Close (pl_amqp pl) conn w2")
    have "conns w3 = conns (host_amqp h)"
      using am.close_channel [OF c1] am.close_conn [OF c2] out Inr cc by auto
    moreover have "host_amqp h' = w3"
      using assms(2) by (cases res) (simp_all add: with_rabbit_def deferred_def Pair Inr cc b h1 c1 c2, auto)
    ultimately show ?thesis by simp
  qed
qed

lemma with_rabbit_restores:
  "(\<And>ch. keeps host_amqp (body ch)) \<Longrightarrow> restores (\<lambda>h. conns (host_amqp h)) (with_rabbit pl url body)"
  unfolding restores_def by (intro allI impI) (rule with_rabbit_released)

lemma storage_restores:
  "restores (\<lambda>h. conns (host_amqp h)) (api_with_storage pl ins opts)"
  "restores (\<lambda>h. conns (host_amqp h)) (worker_with_storage pl wins opts)"
proof -
  have "restores (\<lambda>h. conns (host_amqp h)) (with_rabbit pl url (api_serve pl ins opts ob))"
    "restores (\<lambda>h. conns (host_amqp h)) (with_rabbit pl url (worker_serve pl wins opts ob))" for url ob
    by (intro with_rabbit_restores api_serve_keeps worker_serve_keeps)+
  note r = this [THEN restoresD]
  show "restores (\<lambda>h. conns (host_amqp h)) (api_with_storage pl ins opts)"
    unfolding restores_def api_with_storage_def
    by (auto split: sum.splits prod.splits option.splits dest: r)
  show "restores (\<lambda>h. conns (host_amqp h)) (worker_with_storage pl wins opts)"
    unfolding restores_def worker_with_storage_def
    by (auto split: sum.splits dest: r)
qed

lemma with_postgres_released:
  assumes "keeps host_sql body" and "with_postgres pl dsn body h = (Some code, h')"
  shows "pools (host_sql h') = pools (host_sql h)"
proof (cases "dsn = ''''")
  case False
  obtain r w where n: "NewPostgresStorage (pl_float pl) (pl_sql pl) dsn (host_sql h) = (r, w)"
    by (cases "NewPostgresStorage (pl_float pl) (pl_sql pl) dsn (host_sql h)")
  note out = sq.new_storage [OF n]
  show ?thesis
  proof (cases r)
    case (Inl e)
    then have "h' = h\<lparr>host_sql := w\<rparr>" using assms(2) False by (simp add: with_postgres_def n)
    then show ?thesis using out Inl by simp
  next
    case (Inr d)
    obtain db g where d: "d = (db, g)" by (cases d)
    obtain res h1 where b: "body (h\<lparr>host_sql := w\<rparr>) = (res, h1)" by (cases "body (h\<lparr>host_sql := w\<rparr>)")
    have h1: "host_sql h1 = w" using keepsD [OF assms(1) b] by simp
    obtain e w2 where c: "db_Close (pl_sql pl) db w = (e, w2)" by (cases "db_Close (pl_sql pl) db w")
    have "pools w2 = pools (host_sql h)" using sq.closed [OF c] out Inr d by auto
    moreover have "host_sql h' = w2"
      using assms(2) False
      by (cases res) (simp_all add: with_postgres_def deferred_def pg_Close_def n Inr d b h1 c, auto)
    ultimately show ?thesis by simp
  qed
qed (use assms(2) in \<open>simp add: with_postgres_def\<close>)

lemma with_telemetry_released:
  assumes "keeps host_otel body" and "with_telemetry pl environ name level body h = (Some code, h')"
  shows "running (host_otel h') = running (host_otel h) \<or>
    code = 1 \<and> (\<exists>p. running (host_otel h') = insert p (running (host_otel h)) \<and>
      log_exporter_fails (pl_otel pl) (os_Getenv environ) name (host_otel h) p (host_otel h'))"
proof -
  obtain r w where i: "telemetry_Init (pl_otel pl) (os_Getenv environ) name level (host_otel h) = (r, w)"
    by (cases "telemetry_Init (pl_otel pl) (os_Getenv environ) name level (host_otel h)")
  note out = ot.Init_outcome [OF i]
  show ?thesis
  proof (cases r)
    case (Inl e)
    then have "h' = h\<lparr>host_otel := w\<rparr>" "code = 1" using assms(2) by (simp_all add: with_telemetry_def i)
    then show ?thesis using out Inl by auto
  next
    case (Inr ps)
    obtain res h1 where b: "body (h\<lparr>host_otel := w\<rparr>) = (res, h1)" by (cases "body (h\<lparr>host_otel := w\<rparr>)")
    have h1: "host_otel h1 = w" using keepsD [OF assms(1) b] by simp
    have "running (telemetry_shutdown (pl_otel pl) ps w) = running (host_otel h)"
      using out Inr by (auto simp: ot.shutdown_all)
    moreover have "host_otel h' = telemetry_shutdown (pl_otel pl) ps w"
      using assms(2) by (cases res) (simp_all add: with_telemetry_def deferred_def i Inr b h1, auto)
    ultimately show ?thesis by simp
  qed
qed

end

text \<open>
  What a run puts back: everything but, where the exporter of logs failed in its \<open>Init\<close>, the tracer provider.
\<close>

definition released ::
  "('r, 'e, 'p, 'wo) otel_lib \<Rightarrow> ('wa \<Rightarrow> 'cn set) \<Rightarrow> ('wo \<Rightarrow> 'p set) \<Rightarrow> ('wd \<Rightarrow> 'db set)
    \<Rightarrow> environment \<Rightarrow> string \<Rightarrow> early_end \<Rightarrow> ('wa, 'wo, 'wd, 'b, 'c) host \<Rightarrow> ('wa, 'wo, 'wd, 'b, 'c) host \<Rightarrow> bool"
where
  "released ol conns running pools environ name e h h' \<longleftrightarrow>
     conns (host_amqp h') = conns (host_amqp h) \<and> pools (host_sql h') = pools (host_sql h) \<and>
     (running (host_otel h') = running (host_otel h) \<or>
      e = Exit 1 \<and> (\<exists>p. running (host_otel h') = insert p (running (host_otel h)) \<and>
        log_exporter_fails ol (os_Getenv environ) name (host_otel h) p (host_otel h')))"

context platform_env begin

lemma released_main:
  assumes "keeps host_otel body" and "keeps host_sql body" and "restores (\<lambda>h. conns (host_amqp h)) body"
    and "with_telemetry pl environ n l (with_postgres pl dsn body) h = (Some code, h')"
  shows "released (pl_otel pl) conns running pools environ n (Exit code) h h'"
proof -
  have sql: "restores (\<lambda>h. pools (host_sql h)) (with_postgres pl dsn body)"
    unfolding restores_def by (intro allI impI) (rule with_postgres_released [OF assms(2)])
  have "conns (host_amqp h') = conns (host_amqp h)"
    using restoresD [OF with_telemetry_restores [OF _ with_postgres_restores [OF _ assms(3)]] assms(4)] by simp
  moreover have "pools (host_sql h') = pools (host_sql h)"
    using restoresD [OF with_telemetry_restores [OF _ sql] assms(4)] by simp
  moreover note with_telemetry_released [OF with_postgres_keeps [OF assms(1)] assms(4)]
  ultimately show ?thesis unfolding released_def by blast
qed

lemma api_released:
  assumes "api_run pl ins environ args h = (Some e, h')"
  shows "released (pl_otel pl) conns running pools environ (api_serviceName environ) e h h'"
proof (cases "api_options (pl_config pl) environ args")
  case (Inl x)
  with assms show ?thesis by (simp add: api_run_def released_def)
next
  case (Inr opts)
  let ?run = "with_telemetry pl environ (api_serviceName environ) (LogLevel opts)
    (with_postgres pl (DatabaseDSN opts) (api_with_storage pl ins opts)) h"
  obtain code where "?run = (Some code, h')" and "e = Exit code"
    using assms Inr by (cases ?run) (auto simp: api_run_def)
  then show ?thesis using released_main [OF storage_keeps(1,2) storage_restores(1)] by simp
qed

lemma worker_released:
  assumes "worker_run pl ins environ args h = (Some e, h')"
  shows "released (pl_otel pl) conns running pools environ (worker_serviceName environ) e h h'"
proof (cases "worker_options (pl_config pl) environ args")
  case (Inl x)
  with assms show ?thesis by (simp add: worker_run_def released_def)
next
  case (Inr opts)
  let ?run = "with_telemetry pl environ (worker_serviceName environ) (LogLevel opts)
    (with_postgres pl (DatabaseDSN opts) (worker_with_storage pl ins opts)) h"
  obtain code where "?run = (Some code, h')" and "e = Exit code"
    using assms Inr by (cases ?run) (auto simp: worker_run_def)
  then show ?thesis using released_main [OF storage_keeps(3,4) storage_restores(2)] by simp
qed

end

section \<open>A platform\<close>

text \<open>Handles with numbers, and a schedule of faults.\<close>

record pool =
  open_handles :: "nat list"
  pool_faults :: "bool list"

definition pool_try :: "(pool \<Rightarrow> pool) \<Rightarrow> pool \<Rightarrow> go_error option \<times> pool" where
  "pool_try f w =
     (case pool_faults w of
        True # fs \<Rightarrow> (Some (ErrText ''unavailable''), w\<lparr>pool_faults := fs\<rparr>)
      | fs \<Rightarrow> (None, f (w\<lparr>pool_faults := tl fs\<rparr>)))"

definition pool_fresh :: "pool \<Rightarrow> nat" where
  "pool_fresh w = Suc (sum_list (open_handles w))"

definition pool_open :: "pool \<Rightarrow> pool" where
  "pool_open w = w\<lparr>open_handles := pool_fresh w # open_handles w\<rparr>"

definition pool_close :: "nat \<Rightarrow> pool \<Rightarrow> pool" where
  "pool_close n w = w\<lparr>open_handles := filter (\<lambda>m. m \<noteq> n) (open_handles w)\<rparr>"

definition pool_handles :: "pool \<Rightarrow> nat set" where
  "pool_handles w = set (open_handles w)"

lemma pool_fresh [simp]: "pool_fresh w \<notin> pool_handles w"
  using member_le_sum_list [of "pool_fresh w" "open_handles w"] by (auto simp: pool_fresh_def pool_handles_def)

lemma pool_handles_simps [simp]:
  "pool_handles (pool_open w) = insert (pool_fresh w) (pool_handles w)"
  "pool_handles (pool_close n w) = pool_handles w - {n}"
  "pool_handles (w\<lparr>pool_faults := fs\<rparr>) = pool_handles w" "pool_fresh (w\<lparr>pool_faults := fs\<rparr>) = pool_fresh w"
  by (auto simp: pool_handles_def pool_open_def pool_close_def pool_fresh_def)

definition scheduled_sql :: "(nat, pool) sql_lib" where
  "scheduled_sql =
     \<lparr>sql_Open = (\<lambda>dsn w. case pool_try pool_open w of
         (Some e, w') \<Rightarrow> (Inl e, w') | (None, w') \<Rightarrow> (Inr (pool_fresh w), w')),
      db_Ping = (\<lambda>db. pool_try (\<lambda>w. w)),
      db_Close = (\<lambda>db w. (None, pool_close db w)),
      db_OpenConnections = (\<lambda>db w. int (length (open_handles w)))\<rparr>"

definition scheduled_otel :: "(string, unit, nat, pool) otel_lib" where
  "scheduled_otel =
     \<lparr>resource_New = (\<lambda>n w. case pool_try (\<lambda>w. w) w of (Some e, w') \<Rightarrow> (Inl e, w') | (None, w') \<Rightarrow> (Inr n, w')),
      otlptrace_New = (\<lambda>w. case pool_try (\<lambda>w. w) w of (Some e, w') \<Rightarrow> (Inl e, w') | (None, w') \<Rightarrow> (Inr (), w')),
      otlplog_New = (\<lambda>w. case pool_try (\<lambda>w. w) w of (Some e, w') \<Rightarrow> (Inl e, w') | (None, w') \<Rightarrow> (Inr (), w')),
      NewTracerProvider = (\<lambda>res exporter w. (pool_fresh w, pool_open w)),
      NewLoggerProvider = (\<lambda>res processor w. (pool_fresh w, pool_open w)),
      provider_Shutdown = (\<lambda>p w. (None, pool_close p w)),
      SetTracerProvider = (\<lambda>p w. w), SetTextMapPropagator = (\<lambda>w. w), SetDefaultLogger = (\<lambda>ts as w. w)\<rparr>"

interpretation scheduled_sql: sql_driver scheduled_sql pool_handles
  by unfold_locales
    (auto simp: scheduled_sql_def pool_try_def split: list.splits bool.splits prod.splits option.splits)

interpretation scheduled_otel: otel_service scheduled_otel pool_handles
  by unfold_locales
    (auto simp: scheduled_otel_def pool_try_def split: list.splits bool.splits prod.splits option.splits)

definition demo_platform ::
  "(nat, nat, amqp_world, string, unit, nat, pool, nat, pool, s3_state, log_channel) platform"
where
  "demo_platform =
     \<lparr>pl_config = \<lparr>os_ReadFile = (\<lambda>p. Inl (ErrText ''no such file'')),
        json_UnmarshalApp = (\<lambda>d. Inl (ErrText ''no JSON''))\<rparr>,
      pl_otel = scheduled_otel, pl_sql = scheduled_sql, pl_session = (\<lambda>cfg. Inr scheduled_api),
      pl_amqp = scheduled_amqp, pl_channel = (\<lambda>ch. log_channel_ops), pl_float = (\<lambda>x. x)\<rparr>"

interpretation demo: platform_env demo_platform w_conns w_made pool_handles pool_handles
  by (rule platform_env.intro)
    (simp_all add: demo_platform_def scheduled_amqp.amqp_client_axioms scheduled_otel.otel_service_axioms
      scheduled_sql.sql_driver_axioms)

definition demo_host :: "bool list \<Rightarrow> (amqp_world, pool, pool, s3_state, log_channel) host" where
  "demo_host faults =
     \<lparr>host_otel = \<lparr>open_handles = [], pool_faults = faults\<rparr>, host_sql = \<lparr>open_handles = [], pool_faults = []\<rparr>,
      host_amqp = \<lparr>w_conns = {}, w_next = 0, w_made = {}, w_faults = []\<rparr>,
      host_pg = demo_pg [], host_s3 = demo_s3 [], host_chan = demo_log []\<rparr>"

definition demo_worker_inputs :: "loop_event list \<Rightarrow> unit worker_inputs" where
  "demo_worker_inputs es =
     \<lparr>wi_json = demo_json, wi_codec = flat_codec, wi_clock = (\<lambda>n. 0),
      wi_url_parse = (\<lambda>raw. Inr \<lparr>u_Scheme = ''amqp'', u_Hostname = ''rabbit'', u_Userinfo = None\<rparr>),
      wi_events = es, wi_shutdown = None\<rparr>"

abbreviation demo_worker_run where
  "demo_worker_run \<equiv> worker_run demo_platform (demo_worker_inputs [Closed]) [''DATABASE_DSN'' \<mapsto> ''dsn''] []"

text \<open>The start of both programs there, a step at a time.\<close>

lemma demo_worker_options:
  "worker_options (pl_config demo_platform) [''DATABASE_DSN'' \<mapsto> ''dsn''] [] =
     Inr (resolved [''DATABASE_DSN'' \<mapsto> ''dsn''] Map.empty None)"
  "api_options (pl_config demo_platform) [''DATABASE_DSN'' \<mapsto> ''dsn''] [] =
     Inr (resolved [''DATABASE_DSN'' \<mapsto> ''dsn''] Map.empty None)"
  by (simp_all add: worker_options_eq api_options_eq config_file_def ConfigPath_def flag_Parse.simps passes_resolved)

lemma demo_dsn: "DatabaseDSN (resolved [''DATABASE_DSN'' \<mapsto> ''dsn''] Map.empty None) = ''dsn''"
  by (simp add: resolved_def setting_def trim_cutset_def quotes_def)

lemma demo_sel [simp]:
  "pl_otel demo_platform = scheduled_otel" "pl_sql demo_platform = scheduled_sql"
  "pl_session demo_platform cfg = Inr scheduled_api" "pl_amqp demo_platform = scheduled_amqp"
  "pl_channel demo_platform ch = log_channel_ops"
  "host_otel (demo_host fs) = \<lparr>open_handles = [], pool_faults = fs\<rparr>"
  "host_sql (demo_host fs) = \<lparr>open_handles = [], pool_faults = []\<rparr>"
  "host_amqp (demo_host fs) = \<lparr>w_conns = {}, w_next = 0, w_made = {}, w_faults = []\<rparr>"
  "host_s3 (demo_host fs) = demo_s3 []" "host_chan (demo_host fs) = demo_log []"
  by (simp_all add: demo_platform_def demo_host_def)

lemma demo_Init:
  "telemetry_Init scheduled_otel (os_Getenv [''DATABASE_DSN'' \<mapsto> ''dsn'']) n l
     \<lparr>open_handles = [], pool_faults = []\<rparr> = (Inr [1], \<lparr>open_handles = [1], pool_faults = []\<rparr>)"
  by (simp add: telemetry_Init_def scheduled_otel_def pool_try_def pool_fresh_def pool_open_def os_Getenv_def)

lemma demo_storage:
  "NewPostgresStorage rnd scheduled_sql dsn \<lparr>open_handles = [], pool_faults = []\<rparr> =
     (Inr (1, rnd 1), \<lparr>open_handles = [1], pool_faults = []\<rparr>)"
  by (simp add: NewPostgresStorage_def scheduled_sql_def pool_try_def pool_fresh_def pool_open_def)

lemma demo_connect:
  obtains w where "Connect scheduled_amqp url \<lparr>w_conns = {}, w_next = 0, w_made = {}, w_faults = []\<rparr> = (Inr (0, 0), w)"
  by (simp add: Connect_def scheduled_amqp_def w_try_def Declare_def Declare_calls_def)

lemma demo_bucket: obtains b where "EnsureBucket scheduled_api c (demo_s3 []) = (None, b)"
  by (cases "bucket c = ''avatars''")
    (auto simp: EnsureBucket_def scheduled_api_def s3_try_def demo_s3_def Let_def)

lemmas demo_run_defs = with_telemetry_def with_postgres_def with_rabbit_def deferred_def demo_Init demo_storage
  demo_worker_options demo_dsn NewClient_def s3_config_def

section \<open>Properties\<close>

text \<open>
  When the broker closes the stream of deliveries, the worker ends as after a signal, with exit code 0.
\<close>

lemma worker_stops_cleanly_without_broker:
  "fst (demo_worker_run (demo_host [])) = Some (Exit 0)"
proof (rule demo_connect)
  fix w
  assume "Connect scheduled_amqp (RabbitMQURL (resolved [''DATABASE_DSN'' \<mapsto> ''dsn''] Map.empty None))
      \<lparr>w_conns = {}, w_next = 0, w_made = {}, w_faults = []\<rparr> = (Inr (0, 0), w)"
  then show ?thesis
    by (simp add: worker_run_def demo_run_defs worker_with_storage_def worker_serve_def
        RabbitMQManagementFromURL_def demo_worker_inputs_def Consume_def log_channel_ops_def demo_log_def Let_def)
qed

text \<open>A failing exporter of logs makes \<open>Init\<close> fail with the tracer provider still running.\<close>

lemma failed_Init_leaks_provider:
  assumes "trim_space (getenv ''OTEL_EXPORTER_OTLP_ENDPOINT'') \<noteq> ''''"
  shows "telemetry_Init scheduled_otel getenv n l \<lparr>open_handles = [], pool_faults = [False, False, True]\<rparr> =
    (Inl (ErrText ''unavailable''), \<lparr>open_handles = [1], pool_faults = []\<rparr>)"
  using assms
  by (simp add: telemetry_Init_def scheduled_otel_def pool_try_def pool_fresh_def pool_open_def Let_def)

text \<open>
  C36: Release of resources. However a run of the API or of the worker ends, at whatever step it fails or
  after a signal, every AMQP connection and database pool that it opened is closed, no other is, and every
  telemetry provider that it started is shut down, with one exception: where an OTLP endpoint is set and the
  exporter of logs could not be made by this run's \<open>Init\<close>, the run ends with code 1 and the tracer provider
  that \<open>Init\<close> had made before is left running.
\<close>

theorem runs_release_resources:
  assumes "platform_env pl conns made running pools"
    and "api_run pl ins environ args h = (Some e, h') \<and> name = api_serviceName environ \<or>
      worker_run pl wins environ args h = (Some e, h') \<and> name = worker_serviceName environ"
  shows "conns (host_amqp h') = conns (host_amqp h) \<and> pools (host_sql h') = pools (host_sql h) \<and>
    (running (host_otel h') = running (host_otel h) \<or>
     e = Exit 1 \<and> (\<exists>p. running (host_otel h') = insert p (running (host_otel h)) \<and>
       log_exporter_fails (pl_otel pl) (os_Getenv environ) name (host_otel h) p (host_otel h')))"
proof -
  have "released (pl_otel pl) conns running pools environ name e h h'"
    using assms(2) platform_env.api_released [OF assms(1)] platform_env.worker_released [OF assms(1)] by blast
  then show ?thesis by (simp add: released_def)
qed

theorem runs_release_resources_witness:
  "\<exists>h'. demo_worker_run (demo_host []) = (Some (Exit 0), h') \<and> w_conns (host_amqp h') = {} \<and>
     pool_handles (host_sql h') = {} \<and> pool_handles (host_otel h') = {}"
proof -
  obtain h' where h: "demo_worker_run (demo_host []) = (Some (Exit 0), h')"
    using worker_stops_cleanly_without_broker by (metis prod.collapse)
  then have "api_run demo_platform undefined [''DATABASE_DSN'' \<mapsto> ''dsn''] [] (demo_host []) = (Some (Exit 0), h') \<and>
        worker_serviceName [''DATABASE_DSN'' \<mapsto> ''dsn''] = api_serviceName [''DATABASE_DSN'' \<mapsto> ''dsn''] \<or>
      demo_worker_run (demo_host []) = (Some (Exit 0), h') \<and>
        worker_serviceName [''DATABASE_DSN'' \<mapsto> ''dsn''] = worker_serviceName [''DATABASE_DSN'' \<mapsto> ''dsn'']"
    by blast
  from runs_release_resources [OF demo.platform_env_axioms this] h show ?thesis
    by (simp add: pool_handles_def)
qed

text \<open>
  C37: Exit code 0 of the API. A run ends with code 0 only if help was asked for, or the options were
  resolved with a database, every step of the start succeeded (\<open>Init\<close>, the pool, the S3 client, the bucket,
  the broker), and the server was shut down without an error after a signal. The requests before that were
  served on the acquired bucket and channel, by the middleware chain over the resolved limit; and at the end
  the channel, the connection and the pool are closed and \<open>Init\<close>'s shutdown has run.
\<close>

theorem api_exit_zero:
  assumes "api_run pl ins environ args h = (Some (Exit 0), h')"
  shows "api_options (pl_config pl) environ args = Inl (Exit 0) \<and> h' = h \<or>
    (\<exists>opts ps wo db g wd api c b conn ch wa hd resps l hd' s ob p.
      api_options (pl_config pl) environ args = Inr opts \<and> DatabaseDSN opts \<noteq> '''' \<and>
      telemetry_Init (pl_otel pl) (os_Getenv environ) (api_serviceName environ) (LogLevel opts) (host_otel h) = (Inr ps, wo) \<and>
      NewPostgresStorage (pl_float pl) (pl_sql pl) (DatabaseDSN opts) (host_sql h) = (Inr (db, g), wd) \<and>
      NewClient (pl_session pl) (s3_config opts) = Inr (api, c) \<and> EnsureBucket api c (host_s3 h) = (None, b) \<and>
      Connect (pl_amqp pl) (RabbitMQURL opts) (host_amqp h) = (Inr (conn, ch), wa) \<and>
      hd = program_handler (ai_json ins) (ai_trace ins) (ai_url ins) api c (pl_channel pl ch) (MaxUploadBytes opts) \<and>
      ai_end ins = Some (Signalled None) \<and>
      serve_requests (pl_float pl) (ai_prom ins) (ai_requests ins)
        (initial_limiter (pl_float pl) (ai_start ins), hd, host_pg h, b, host_chan h) = (resps, l, hd', s, ob, p) \<and>
      h' = \<lparr>host_otel = telemetry_shutdown (pl_otel pl) ps wo, host_sql = snd (pg_Close (pl_sql pl) db wd),
        host_amqp = snd (conn_Close (pl_amqp pl) conn (snd (ch_Close (pl_amqp pl) ch wa))),
        host_pg = s, host_s3 = ob, host_chan = p\<rparr>)"
proof (cases "api_options (pl_config pl) environ args")
  case (Inl e)
  with assms show ?thesis by (simp add: api_run_def)
next
  case (Inr opts)
  have "with_telemetry pl environ (api_serviceName environ) (LogLevel opts)
      (with_postgres pl (DatabaseDSN opts) (api_with_storage pl ins opts)) h = (Some 0, h')"
    using assms Inr by (auto simp: api_run_def split: prod.splits)
  from with_telemetry_done [OF this] obtain ps wo h1 where
    i: "telemetry_Init (pl_otel pl) (os_Getenv environ) (api_serviceName environ) (LogLevel opts) (host_otel h) = (Inr ps, wo)"
    and "with_postgres pl (DatabaseDSN opts) (api_with_storage pl ins opts) (h\<lparr>host_otel := wo\<rparr>) = (Some 0, h1)"
    and e1: "h' = h1\<lparr>host_otel := telemetry_shutdown (pl_otel pl) ps (host_otel h1)\<rparr>" by blast
  from with_postgres_done [OF this(2)] obtain db g wd h2 where dsn: "DatabaseDSN opts \<noteq> ''''"
    and n: "NewPostgresStorage (pl_float pl) (pl_sql pl) (DatabaseDSN opts) (host_sql h) = (Inr (db, g), wd)"
    and 2: "api_with_storage pl ins opts (h\<lparr>host_otel := wo, host_sql := wd\<rparr>) = (Some 0, h2)"
    and e2: "h1 = h2\<lparr>host_sql := snd (pg_Close (pl_sql pl) db (host_sql h2))\<rparr>" by auto
  obtain api c b where client: "NewClient (pl_session pl) (s3_config opts) = Inr (api, c)"
    and b: "EnsureBucket api c (host_s3 h) = (None, b)"
    and 3: "with_rabbit pl (RabbitMQURL opts) (api_serve pl ins opts (api, c))
      (h\<lparr>host_otel := wo, host_sql := wd, host_s3 := b\<rparr>) = (Some 0, h2)"
    using 2 by (auto simp: api_with_storage_def split: prod.splits sum.splits option.splits)
  from with_rabbit_done [OF 3] obtain conn ch wa h3 where
    c: "Connect (pl_amqp pl) (RabbitMQURL opts) (host_amqp h) = (Inr (conn, ch), wa)"
    and 4: "api_serve pl ins opts (api, c) ch
      (h\<lparr>host_otel := wo, host_sql := wd, host_s3 := b, host_amqp := wa\<rparr>) = (Some 0, h3)"
    and e3: "h2 = h3\<lparr>host_amqp := snd (conn_Close (pl_amqp pl) conn (snd (ch_Close (pl_amqp pl) ch (host_amqp h3))))\<rparr>"
    by auto
  let ?hd = "program_handler (ai_json ins) (ai_trace ins) (ai_url ins) api c (pl_channel pl ch) (MaxUploadBytes opts)"
  obtain resps l hd' s ob p where r: "serve_requests (pl_float pl) (ai_prom ins) (ai_requests ins)
      (initial_limiter (pl_float pl) (ai_start ins), ?hd, host_pg h, b, host_chan h) = (resps, l, hd', s, ob, p)"
    by (metis prod_cases6)
  have e: "ai_end ins = Some (Signalled None)"
    and h3: "h3 = h\<lparr>host_otel := wo, host_sql := wd, host_s3 := b, host_amqp := wa, host_pg := s, host_s3 := ob, host_chan := p\<rparr>"
    using 4 r by (auto simp: api_serve_def Let_def split: option.splits server_end.splits)
  have "h' = \<lparr>host_otel = telemetry_shutdown (pl_otel pl) ps wo, host_sql = snd (pg_Close (pl_sql pl) db wd),
        host_amqp = snd (conn_Close (pl_amqp pl) conn (snd (ch_Close (pl_amqp pl) ch wa))),
        host_pg = s, host_s3 = ob, host_chan = p\<rparr>"
    by (simp add: e1 e2 e3 h3)
  with Inr dsn i n client b c e r show ?thesis by blast
qed

definition demo_api_inputs :: "string api_inputs" where
  "demo_api_inputs =
     \<lparr>ai_json = demo_json, ai_trace = [], ai_url = demo_url, ai_prom = health, ai_start = 0,
      ai_requests = [], ai_end = Some (Signalled None)\<rparr>"

lemma api_stops:
  "fst (api_run demo_platform demo_api_inputs [''DATABASE_DSN'' \<mapsto> ''dsn''] [] (demo_host [])) = Some (Exit 0)"
proof -
  let ?opts = "resolved [''DATABASE_DSN'' \<mapsto> ''dsn''] Map.empty None"
  obtain b where "EnsureBucket scheduled_api
      \<lparr>bucket = S3Bucket ?opts, publicEndpoint = S3PublicEndpoint ?opts\<rparr> (demo_s3 []) = (None, b)"
    by (rule demo_bucket)
  moreover obtain w where "Connect scheduled_amqp (RabbitMQURL ?opts)
      \<lparr>w_conns = {}, w_next = 0, w_made = {}, w_faults = []\<rparr> = (Inr (0, 0), w)"
    by (rule demo_connect)
  ultimately show ?thesis
    by (simp add: api_run_def demo_run_defs api_with_storage_def api_serve_def demo_api_inputs_def Let_def)
qed

theorem api_exit_zero_witness:
  "\<exists>opts h' ps wo api b conn ch wa. api_options (pl_config demo_platform) [''DATABASE_DSN'' \<mapsto> ''dsn''] [] = Inr opts \<and>
     api_run demo_platform demo_api_inputs [''DATABASE_DSN'' \<mapsto> ''dsn''] [] (demo_host []) = (Some (Exit 0), h') \<and>
     telemetry_Init scheduled_otel (os_Getenv [''DATABASE_DSN'' \<mapsto> ''dsn''])
       (api_serviceName [''DATABASE_DSN'' \<mapsto> ''dsn'']) (LogLevel opts) (host_otel (demo_host [])) = (Inr ps, wo) \<and>
     Connect scheduled_amqp (RabbitMQURL opts) (host_amqp (demo_host [])) = (Inr (conn, ch), wa) \<and>
     ai_end demo_api_inputs = Some (Signalled None)"
proof -
  obtain h' where h: "api_run demo_platform demo_api_inputs [''DATABASE_DSN'' \<mapsto> ''dsn''] [] (demo_host []) =
      (Some (Exit 0), h')"
    by (metis api_stops prod.collapse)
  from api_exit_zero [OF h] show ?thesis using h by (simp only: demo_worker_options demo_sel) auto
qed

text \<open>
  C38: Exit code 0 of the worker. A run ends with code 0 only if help was asked for, or the options were
  resolved with a database, every step of the start succeeded, the receive loop over the acquired channel
  ended because its context was cancelled or because the broker closed the stream of deliveries, and the
  metrics server was shut down without an error. What the loop did until then is what is left in the
  database, S3 and the channel, and the channel, the connection and the pool are closed. So a broker that
  goes away ends the worker in the same way as a signal.
\<close>

theorem worker_exit_zero:
  assumes "worker_run pl ins environ args h = (Some (Exit 0), h')"
  shows "worker_options (pl_config pl) environ args = Inl (Exit 0) \<and> h' = h \<or>
    (\<exists>opts ps wo db g wd api c conn ch wa mgmt r acks s ob p.
      worker_options (pl_config pl) environ args = Inr opts \<and> DatabaseDSN opts \<noteq> '''' \<and>
      telemetry_Init (pl_otel pl) (os_Getenv environ) (worker_serviceName environ) (LogLevel opts) (host_otel h) = (Inr ps, wo) \<and>
      NewPostgresStorage (pl_float pl) (pl_sql pl) (DatabaseDSN opts) (host_sql h) = (Inr (db, g), wd) \<and>
      NewClient (pl_session pl) (s3_config opts) = Inr (api, c) \<and>
      Connect (pl_amqp pl) (RabbitMQURL opts) (host_amqp h) = (Inr (conn, ch), wa) \<and>
      RabbitMQManagementFromURL (wi_url_parse ins) (RabbitMQURL opts) (RabbitMQMgmtPort opts)
        (RabbitMQUser opts) (RabbitMQPassword opts) = Inr mgmt \<and>
      Consume (wi_json ins) pg_ops (pl_channel pl ch)
        (service_handler pg_ops (client_worker_objects api c) (wi_codec ins) (wi_clock ins)) (wi_events ins)
        (host_pg h, host_s3 h, host_chan h) = (Some r, acks, s, ob, p) \<and>
      (r = None \<or> r = Some context_Canceled) \<and> wi_shutdown ins = None \<and>
      h' = \<lparr>host_otel = telemetry_shutdown (pl_otel pl) ps wo, host_sql = snd (pg_Close (pl_sql pl) db wd),
        host_amqp = snd (conn_Close (pl_amqp pl) conn (snd (ch_Close (pl_amqp pl) ch wa))),
        host_pg = s, host_s3 = ob, host_chan = p\<rparr>)"
proof (cases "worker_options (pl_config pl) environ args")
  case (Inl e)
  with assms show ?thesis by (simp add: worker_run_def)
next
  case (Inr opts)
  have "with_telemetry pl environ (worker_serviceName environ) (LogLevel opts)
      (with_postgres pl (DatabaseDSN opts) (worker_with_storage pl ins opts)) h = (Some 0, h')"
    using assms Inr by (auto simp: worker_run_def split: prod.splits)
  from with_telemetry_done [OF this] obtain ps wo h1 where
    i: "telemetry_Init (pl_otel pl) (os_Getenv environ) (worker_serviceName environ) (LogLevel opts) (host_otel h) = (Inr ps, wo)"
    and "with_postgres pl (DatabaseDSN opts) (worker_with_storage pl ins opts) (h\<lparr>host_otel := wo\<rparr>) = (Some 0, h1)"
    and e1: "h' = h1\<lparr>host_otel := telemetry_shutdown (pl_otel pl) ps (host_otel h1)\<rparr>" by blast
  from with_postgres_done [OF this(2)] obtain db g wd h2 where dsn: "DatabaseDSN opts \<noteq> ''''"
    and n: "NewPostgresStorage (pl_float pl) (pl_sql pl) (DatabaseDSN opts) (host_sql h) = (Inr (db, g), wd)"
    and 2: "worker_with_storage pl ins opts (h\<lparr>host_otel := wo, host_sql := wd\<rparr>) = (Some 0, h2)"
    and e2: "h1 = h2\<lparr>host_sql := snd (pg_Close (pl_sql pl) db (host_sql h2))\<rparr>" by auto
  obtain api c where client: "NewClient (pl_session pl) (s3_config opts) = Inr (api, c)"
    and 3: "with_rabbit pl (RabbitMQURL opts) (worker_serve pl ins opts (api, c))
      (h\<lparr>host_otel := wo, host_sql := wd\<rparr>) = (Some 0, h2)"
    using 2 by (auto simp: worker_with_storage_def split: sum.splits)
  from with_rabbit_done [OF 3] obtain conn ch wa h3 where
    c: "Connect (pl_amqp pl) (RabbitMQURL opts) (host_amqp h) = (Inr (conn, ch), wa)"
    and 4: "worker_serve pl ins opts (api, c) ch
      (h\<lparr>host_otel := wo, host_sql := wd, host_amqp := wa\<rparr>) = (Some 0, h3)"
    and e3: "h2 = h3\<lparr>host_amqp := snd (conn_Close (pl_amqp pl) conn (snd (ch_Close (pl_amqp pl) ch (host_amqp h3))))\<rparr>"
    by auto
  obtain mgmt r acks s ob p where m: "RabbitMQManagementFromURL (wi_url_parse ins) (RabbitMQURL opts)
        (RabbitMQMgmtPort opts) (RabbitMQUser opts) (RabbitMQPassword opts) = Inr mgmt"
    and l: "Consume (wi_json ins) pg_ops (pl_channel pl ch)
        (service_handler pg_ops (client_worker_objects api c) (wi_codec ins) (wi_clock ins)) (wi_events ins)
        (host_pg h, host_s3 h, host_chan h) = (Some r, acks, s, ob, p)"
    and r: "r = None \<or> r = Some context_Canceled" "wi_shutdown ins = None"
    and h3: "h3 = h\<lparr>host_otel := wo, host_sql := wd, host_amqp := wa, host_pg := s, host_s3 := ob, host_chan := p\<rparr>"
    using 4 by (auto simp: worker_serve_def Let_def split: prod.splits sum.splits option.splits if_splits)
  have "h' = \<lparr>host_otel = telemetry_shutdown (pl_otel pl) ps wo, host_sql = snd (pg_Close (pl_sql pl) db wd),
        host_amqp = snd (conn_Close (pl_amqp pl) conn (snd (ch_Close (pl_amqp pl) ch wa))),
        host_pg = s, host_s3 = ob, host_chan = p\<rparr>"
    by (simp add: e1 e2 e3 h3)
  with Inr dsn i n client c m l r show ?thesis by blast
qed

theorem worker_exit_zero_witness:
  "\<exists>opts h' r acks s ob p. worker_options (pl_config demo_platform) [''DATABASE_DSN'' \<mapsto> ''dsn''] [] = Inr opts \<and>
     demo_worker_run (demo_host []) = (Some (Exit 0), h') \<and>
     Consume demo_json pg_ops log_channel_ops
       (service_handler pg_ops (client_worker_objects scheduled_api
         \<lparr>bucket = S3Bucket opts, publicEndpoint = S3PublicEndpoint opts\<rparr>) flat_codec (\<lambda>n. 0)) [Closed]
       (host_pg (demo_host []), host_s3 (demo_host []), host_chan (demo_host [])) = (Some r, acks, s, ob, p) \<and>
     host_pg h' = s"
proof -
  obtain h' where h: "demo_worker_run (demo_host []) = (Some (Exit 0), h')"
    using worker_stops_cleanly_without_broker by (metis prod.collapse)
  from worker_exit_zero [OF h] show ?thesis
    using h by (auto simp: demo_worker_options NewClient_def s3_config_def demo_worker_inputs_def
        simp del: pg_view_simps)
qed

end
