(* ===== verification/Ordering.thy ===== *)
theory Ordering
  imports Api
begin

text \<open>
  Several messages before one worker: what a run of the receive loop of \<open>internal/queue/consumer.go\<close> with
  the handler of \<open>internal/worker/service.go\<close> leaves for each user, as a function of the order in which
  the broker delivers. A message may be late, having waited in a retry queue, so the order of the deliveries
  is not that of the uploads.
\<close>

text \<open>A delivery with the upload it is about, and the image that the worker makes of it.\<close>

record job =
  job_delivery :: delivery
  job_now :: time
  job_user :: string
  job_id :: string
  job_image :: ProcessedImage

definition job_event :: "job \<Rightarrow> loop_event" where
  "job_event j = Delivered (job_delivery j) (job_now j)"

abbreviation job_staging :: "job \<Rightarrow> string" where
  "job_staging j \<equiv> staging_key (job_user j) (job_id j)"

text \<open>
  The delivery carries the message that the API publishes for an upload, the message is not yet processed,
  the user has a row, both ids are text that PostgreSQL takes, and the staged object can be processed.
\<close>

definition workable ::
  "json_lib \<Rightarrow> 'px codec \<Rightarrow> db_view \<Rightarrow> (string \<Rightarrow> bytes option) \<Rightarrow> job \<Rightarrow> bool"
where
  "workable json codec v objs j \<longleftrightarrow>
     delivery_msg json (job_delivery j) = Some (upload_msg (job_user j) (job_id j)) \<and>
     job_id j \<notin> seen v \<and> rows v (job_user j) \<noteq> None \<and> text_ok (job_user j) \<and> text_ok (job_id j) \<and>
     (case objs (job_staging j) of
        None \<Rightarrow> False
      | Some data \<Rightarrow> Process codec (NewReader data) = Inr (job_image j))"

text \<open>The image of the last of a user's deliveries.\<close>

fun last_image :: "string \<Rightarrow> job list \<Rightarrow> ProcessedImage option" where
  "last_image u [] = None"
| "last_image u (j # js) =
     (case last_image u js of
        Some img \<Rightarrow> Some img
      | None \<Rightarrow> if job_user j = u then Some (job_image j) else None)"

lemma last_image_eq:
  "last_image u js =
     (let mine = filter (\<lambda>j. job_user j = u) js in if mine = [] then None else Some (job_image (last mine)))"
  by (induction js) (auto simp: Let_def)

text \<open>The keys that a run may touch.\<close>

definition job_keys :: "job \<Rightarrow> string set" where
  "job_keys j = {original_key (job_user j), thumb_key (job_user j), job_staging j}"

lemma final_key_in_jobs:
  "original_key u \<in> \<Union> (job_keys ` set js) \<longleftrightarrow> u \<in> job_user ` set js"
  "thumb_key u \<in> \<Union> (job_keys ` set js) \<longleftrightarrow> u \<in> job_user ` set js"
  by (auto simp: job_keys_def)

lemma last_image_None: "last_image u js = None \<longleftrightarrow> u \<notin> job_user ` set js"
  by (induction js) (auto split: option.splits)

section \<open>One delivery\<close>

lemma job_step:
  assumes "healthy_s3 api stored buckets up" and "up ob" and "pg_faults s = []"
    and "workable json codec (pg_view s) (stored ob (bucket c)) j"
  shows "\<exists>s' ob'. handleDelivery json pg_ops ch (service_handler pg_ops (client_worker_objects api c) codec ti)
      (job_now j) (job_delivery j) (s, ob, q) = (Ack, s', ob', q) \<and> pg_faults s' = [] \<and> up ob' \<and>
    pg_view s' = spec_mark (job_id j) (spec_modify (ready_row (job_user j) (job_image j)) (job_user j) (pg_view s)) \<and>
    stored ob' (bucket c) (original_key (job_user j)) = Some (OriginalPNG (job_image j)) \<and>
    stored ob' (bucket c) (thumb_key (job_user j)) = Some (ThumbnailPNG (job_image j)) \<and>
    stored ob' (bucket c) (job_staging j) = None \<and>
    (\<forall>k. k \<notin> insert '''' (job_keys j) \<longrightarrow> stored ob' (bucket c) k = stored ob (bucket c) k)"
proof -
  obtain data where w: "delivery_msg json (job_delivery j) = Some (upload_msg (job_user j) (job_id j))"
    "job_id j \<notin> seen (pg_view s)" "rows (pg_view s) (job_user j) \<noteq> None"
    "text_ok (job_user j)" "text_ok (job_id j)"
    "stored ob (bucket c) (job_staging j) = Some data" "Process codec (NewReader data) = Inr (job_image j)"
    using assms(4) by (auto simp: workable_def simp del: pg_view_simps split: option.splits)
  have "msg_MessageID (upload_msg (job_user j) (job_id j)) = job_id j"
    "msg_StagingKey (upload_msg (job_user j) (job_id j)) = job_staging j"
    "msg_UserID (upload_msg (job_user j) (job_id j)) = job_user j" by (simp_all add: upload_msg_def)
  with delivery_processed [OF assms(1-3) w(1) _ _ _ w(3,6,7,4), of ch ti "job_now j" q] w(2,5)
  show ?thesis by (auto simp: job_keys_def simp del: pg_view_simps)
qed

text \<open>The other jobs stay workable.\<close>

lemma workable_after:
  assumes "workable json codec v objs i" and "job_id i \<noteq> job_id j" and "length (job_id i) = length (job_id j)"
    and "\<forall>k. k \<notin> insert '''' (job_keys j) \<longrightarrow> objs' k = objs k"
  shows "workable json codec (spec_mark (job_id j) (spec_modify f (job_user j) v)) objs' i"
proof -
  have "job_staging i \<notin> insert '''' (job_keys j)"
    using assms(2,3) staging_key_inj [of "job_user i" "job_id i" "job_user j" "job_id j"]
    by (auto simp: job_keys_def)
  with assms show ?thesis by (auto simp: workable_def)
qed

lemma ready_again: "ready_row u img \<circ> ready_row u img' = ready_row u img"
  by (simp add: fun_eq_iff set_ready_def)

section \<open>A run\<close>

lemma jobs_run:
  assumes "healthy_s3 api stored buckets up" and "up ob" and "pg_faults s = []"
    and "\<forall>j \<in> set jobs. workable json codec (pg_view s) (stored ob (bucket c)) j \<and> length (job_id j) = n"
    and "distinct (map job_id jobs)"
  shows "\<exists>s' ob'. consume_loop json pg_ops ch (service_handler pg_ops (client_worker_objects api c) codec ti)
      (map job_event jobs) (s, ob, q) = (None, replicate (length jobs) Ack, s', ob', q) \<and>
    seen (pg_view s') = seen (pg_view s) \<union> job_id ` set jobs \<and>
    (\<forall>u. rows (pg_view s') u = (case last_image u jobs of None \<Rightarrow> rows (pg_view s) u
        | Some img \<Rightarrow> map_option (ready_row u img) (rows (pg_view s) u)) \<and>
      stored ob' (bucket c) (original_key u) = (case last_image u jobs of
        None \<Rightarrow> stored ob (bucket c) (original_key u) | Some img \<Rightarrow> Some (OriginalPNG img)) \<and>
      stored ob' (bucket c) (thumb_key u) = (case last_image u jobs of
        None \<Rightarrow> stored ob (bucket c) (thumb_key u) | Some img \<Rightarrow> Some (ThumbnailPNG img))) \<and>
    (\<forall>j \<in> set jobs. stored ob' (bucket c) (job_staging j) = None) \<and>
    (\<forall>k. k \<notin> insert '''' (\<Union> (job_keys ` set jobs)) \<longrightarrow> stored ob' (bucket c) k = stored ob (bucket c) k)"
  using assms(2-5)
proof (induction jobs arbitrary: s ob)
  case (Cons j js)
  obtain s1 ob1 where d: "handleDelivery json pg_ops ch
      (service_handler pg_ops (client_worker_objects api c) codec ti) (job_now j) (job_delivery j) (s, ob, q)
      = (Ack, s1, ob1, q)" "pg_faults s1 = []" "up ob1"
    and v1: "pg_view s1 = spec_mark (job_id j) (spec_modify (ready_row (job_user j) (job_image j)) (job_user j) (pg_view s))"
    and o1: "stored ob1 (bucket c) (original_key (job_user j)) = Some (OriginalPNG (job_image j))"
      "stored ob1 (bucket c) (thumb_key (job_user j)) = Some (ThumbnailPNG (job_image j))"
      "stored ob1 (bucket c) (job_staging j) = None"
    and f1: "\<forall>k. k \<notin> insert '''' (job_keys j) \<longrightarrow> stored ob1 (bucket c) k = stored ob (bucket c) k"
    using job_step [OF assms(1) Cons.prems(1,2), of json codec c j ch ti q] Cons.prems(3) by auto
  have w: "\<forall>i \<in> set js. workable json codec (pg_view s1) (stored ob1 (bucket c)) i \<and> length (job_id i) = n"
  proof
    fix i assume i: "i \<in> set js"
    have "workable json codec (pg_view s) (stored ob (bucket c)) i"
      "length (job_id i) = n" "length (job_id j) = n" using i Cons.prems(3) by simp_all
    moreover have "job_id i \<noteq> job_id j" using Cons.prems(4) imageI [OF i, of job_id] by auto
    ultimately have "workable json codec (pg_view s) (stored ob (bucket c)) i"
      "job_id i \<noteq> job_id j" "length (job_id i) = n" "length (job_id j) = n" by simp_all
    with workable_after [OF this(1,2) _ f1] v1
    show "workable json codec (pg_view s1) (stored ob1 (bucket c)) i \<and> length (job_id i) = n" by simp
  qed
  obtain s' ob' where r: "consume_loop json pg_ops ch (service_handler pg_ops (client_worker_objects api c) codec ti)
      (map job_event js) (s1, ob1, q) = (None, replicate (length js) Ack, s', ob', q)"
    and sn: "seen (pg_view s') = seen (pg_view s1) \<union> job_id ` set js"
    and us: "\<forall>u. rows (pg_view s') u = (case last_image u js of None \<Rightarrow> rows (pg_view s1) u
        | Some img \<Rightarrow> map_option (ready_row u img) (rows (pg_view s1) u)) \<and>
      stored ob' (bucket c) (original_key u) = (case last_image u js of
        None \<Rightarrow> stored ob1 (bucket c) (original_key u) | Some img \<Rightarrow> Some (OriginalPNG img)) \<and>
      stored ob' (bucket c) (thumb_key u) = (case last_image u js of
        None \<Rightarrow> stored ob1 (bucket c) (thumb_key u) | Some img \<Rightarrow> Some (ThumbnailPNG img))"
    and st: "\<forall>i \<in> set js. stored ob' (bucket c) (job_staging i) = None"
    and fr: "\<forall>k. k \<notin> insert '''' (\<Union> (job_keys ` set js)) \<longrightarrow> stored ob' (bucket c) k = stored ob1 (bucket c) k"
    using Cons.IH [OF d(3,2) w] Cons.prems(4) by auto
  show ?case
  proof (intro exI [of _ s'] exI [of _ ob'] conjI allI ballI)
    show "consume_loop json pg_ops ch (service_handler pg_ops (client_worker_objects api c) codec ti)
        (map job_event (j # js)) (s, ob, q) = (None, replicate (length (j # js)) Ack, s', ob', q)"
      using d(1) r by (simp add: job_event_def)
    show "seen (pg_view s') = seen (pg_view s) \<union> job_id ` set (j # js)"
      by (auto simp: sn v1 simp del: pg_view_simps)
  next
    fix u
    have x1: "stored ob1 (bucket c) (original_key u) = (if job_user j = u then Some (OriginalPNG (job_image j))
        else stored ob (bucket c) (original_key u))"
      "stored ob1 (bucket c) (thumb_key u) = (if job_user j = u then Some (ThumbnailPNG (job_image j))
        else stored ob (bucket c) (thumb_key u))"
      using o1 f1 by (auto simp: job_keys_def)
    show "rows (pg_view s') u = (case last_image u (j # js) of None \<Rightarrow> rows (pg_view s) u
        | Some img \<Rightarrow> map_option (ready_row u img) (rows (pg_view s) u))"
      using us [rule_format, of u]
      by (simp add: v1 option.map_comp ready_again del: pg_view_simps split: option.splits)
    show "stored ob' (bucket c) (original_key u) = (case last_image u (j # js) of
        None \<Rightarrow> stored ob (bucket c) (original_key u) | Some img \<Rightarrow> Some (OriginalPNG img))"
      using us [rule_format, of u] x1 by (simp del: pg_view_simps split: option.splits)
    show "stored ob' (bucket c) (thumb_key u) = (case last_image u (j # js) of
        None \<Rightarrow> stored ob (bucket c) (thumb_key u) | Some img \<Rightarrow> Some (ThumbnailPNG img))"
      using us [rule_format, of u] x1 by (simp del: pg_view_simps split: option.splits)
  next
    fix i assume i: "i \<in> set (j # js)"
    have "job_staging j \<notin> insert '''' (\<Union> (job_keys ` set js))"
    proof -
      have "job_staging j \<noteq> job_staging i" if "i \<in> set js" for i
        using that Cons.prems(3,4) staging_key_inj [of "job_user j" "job_id j" "job_user i" "job_id i"] by force
      then show ?thesis by (auto simp: job_keys_def)
    qed
    with i st fr o1(3) show "stored ob' (bucket c) (job_staging i) = None" by auto
  next
    fix k show "k \<notin> insert '''' (\<Union> (job_keys ` set (j # js))) \<longrightarrow> stored ob' (bucket c) k = stored ob (bucket c) k"
      using fr f1 by simp
  qed
qed simp

section \<open>The property\<close>

text \<open>Two uploads of user \<open>u\<close>, whose images are as wide as the last byte of the data.\<close>

definition sized_codec :: "unit codec" where
  "sized_codec = flat_codec\<lparr>png_Decode :=
     (\<lambda>d. Inr \<lparr>min_x = 0, min_y = 0, max_x = uint (last d), max_y = 100, pixels = ()\<rparr>)\<rparr>"

definition sized_png :: "8 word \<Rightarrow> bytes" where "sized_png w = [0x89, 0x50, 0x4E, 0x47, 0, 0, 0, w]"

definition sized_image :: "8 word \<Rightarrow> ProcessedImage" where
  "sized_image w =
     \<lparr>OriginalPNG = [w, 100], ThumbnailPNG = [w, 100], img_Width = uint w, img_Height = 100,
      img_ContentType = ''image/png'', img_SizeBytes = 2\<rparr>"

definition sized_job :: "string \<Rightarrow> 8 word \<Rightarrow> job" where
  "sized_job m w =
     \<lparr>job_delivery = \<lparr>d_Body = m, d_MessageId = m, d_Headers = None\<rparr>, job_now = 0, job_user = ''u'',
      job_id = m, job_image = sized_image w\<rparr>"

definition two_uploads_pg :: pg where
  "two_uploads_pg = snd (pg_UpsertAvatar 1 (new_row ''u'' ''m2'') demo_db)"

definition two_uploads_s3 :: s3_state where
  "two_uploads_s3 =
     \<lparr>s3_objects = (\<lambda>_. [staging_key ''u'' ''m1'' \<mapsto> sized_png 120, staging_key ''u'' ''m2'' \<mapsto> sized_png 60]),
      s3_buckets = {''avatars''}, s3_faults = []\<rparr>"

lemma sized_Process:
  "w \<in> {60, 120} \<Longrightarrow> Process sized_codec (NewReader (sized_png w)) = Inr (sized_image w)"
  by (auto simp: Process_def decodeImage_def sized_codec_def flat_codec_def resizeImage_def encodePNG_def
      sized_png_def sized_image_def scaled_size_def int_mul_def signed_divide_int_def size_consts Dx_def Dy_def Let_def
      NewReader_def)

lemma two_uploads:
  "pg_faults two_uploads_pg = []" "s3_faults two_uploads_s3 = []"
  "rows (pg_view two_uploads_pg) ''u'' = Some (new_row ''u'' ''m2'')" "seen (pg_view two_uploads_pg) = {}"
proof -
  obtain err s' where e: "UpsertAvatar pg_ops 1 (new_row ''u'' ''m2'') demo_db = (err, s')" by fastforce
  have h: "pg_faults demo_db = []" "seen (pg_view demo_db) = {}" by simp_all
  have s': "s' = two_uploads_pg" using e by (simp add: two_uploads_pg_def pg_ops_def)
  have o': "err = None" "pg_faults s' = []"
    using pg.upsert_ok [OF h(1) e] demo_storable [of "''m2''"] by (simp_all add: new_row_def)
  then have "pg_view s' = spec_upsert (new_row ''u'' ''m2'') (pg_view demo_db)" using pg.upsert [OF e] by simp
  with o' h(2) show "pg_faults two_uploads_pg = []"
    "rows (pg_view two_uploads_pg) ''u'' = Some (new_row ''u'' ''m2'')" "seen (pg_view two_uploads_pg) = {}"
    by (simp_all add: s' del: pg_view_simps)
qed (simp add: two_uploads_s3_def)

text \<open>
  C9: The last delivery wins. On healthy services, whatever the order in which the broker delivers the
  messages of several uploads, all are acknowledged, all ids are recorded, all staged objects are removed,
  and each user's row and final objects show the image of the last message delivered for that user, the
  rest of the row, with the id of its latest upload, being kept; users without a message keep theirs. So a
  message that is delivered after that of a newer upload replaces the newer image.
\<close>

theorem last_delivery_wins:
  assumes "healthy_s3 api stored buckets up" and "up ob" and "pg_faults s = []"
    and "\<forall>j \<in> set jobs. workable json codec (pg_view s) (stored ob (bucket c)) j \<and> length (job_id j) = n"
    and "distinct (map job_id jobs)"
  shows "\<exists>s' ob'. consume_loop json pg_ops ch (service_handler pg_ops (client_worker_objects api c) codec ti)
      (map job_event jobs) (s, ob, q) = (None, replicate (length jobs) Ack, s', ob', q) \<and>
    seen (pg_view s') = seen (pg_view s) \<union> job_id ` set jobs \<and>
    (\<forall>u. rows (pg_view s') u = (case last_image u jobs of None \<Rightarrow> rows (pg_view s) u
        | Some img \<Rightarrow> map_option (ready_row u img) (rows (pg_view s) u)) \<and>
      stored ob' (bucket c) (original_key u) = (case last_image u jobs of
        None \<Rightarrow> stored ob (bucket c) (original_key u) | Some img \<Rightarrow> Some (OriginalPNG img)) \<and>
      stored ob' (bucket c) (thumb_key u) = (case last_image u jobs of
        None \<Rightarrow> stored ob (bucket c) (thumb_key u) | Some img \<Rightarrow> Some (ThumbnailPNG img))) \<and>
    (\<forall>j \<in> set jobs. stored ob' (bucket c) (job_staging j) = None)"
  using jobs_run [OF assms, of ch ti q] by blast

theorem last_delivery_wins_witness:
  "\<exists>s' ob' a. consume_loop demo_json pg_ops log_channel_ops
      (service_handler pg_ops (client_worker_objects scheduled_api demo_client) sized_codec int)
      (map job_event [sized_job ''m2'' 60, sized_job ''m1'' 120]) (two_uploads_pg, two_uploads_s3, demo_log [])
      = (None, [Ack, Ack], s', ob', demo_log []) \<and>
    rows (pg_view s') ''u'' = Some a \<and> MessageID a = ''m2'' \<and> Width a = 120 \<and>
    s3_objects ob' ''avatars'' (original_key ''u'') = Some [120, 100]"
proof -
  let ?jobs = "[sized_job ''m2'' 60, sized_job ''m1'' 120]"
  have w: "\<forall>j \<in> set ?jobs. workable demo_json sized_codec (pg_view two_uploads_pg)
      (s3_objects two_uploads_s3 (bucket demo_client)) j \<and> length (job_id j) = 2"
    using two_uploads sized_Process demo_ids
    by (simp add: workable_def sized_job_def delivery_msg_def demo_json_def with_id_def upload_msg_def
        staging_key_def two_uploads_s3_def demo_client_def del: pg_view_simps)
  have d: "distinct (map job_id ?jobs)" by (simp add: sized_job_def)
  have l: "last_image ''u'' ?jobs = Some (sized_image 120)" by (simp add: sized_job_def)
  obtain s' ob' where r: "consume_loop demo_json pg_ops log_channel_ops
      (service_handler pg_ops (client_worker_objects scheduled_api demo_client) sized_codec int)
      (map job_event ?jobs) (two_uploads_pg, two_uploads_s3, demo_log [])
      = (None, replicate (length ?jobs) Ack, s', ob', demo_log [])"
    and u: "\<forall>u. rows (pg_view s') u = (case last_image u ?jobs of None \<Rightarrow> rows (pg_view two_uploads_pg) u
        | Some img \<Rightarrow> map_option (ready_row u img) (rows (pg_view two_uploads_pg) u)) \<and>
      s3_objects ob' (bucket demo_client) (original_key u) = (case last_image u ?jobs of
        None \<Rightarrow> s3_objects two_uploads_s3 (bucket demo_client) (original_key u)
        | Some img \<Rightarrow> Some (OriginalPNG img))"
    using last_delivery_wins [OF scheduled_up.healthy_s3_axioms two_uploads(2,1) w d,
        of log_channel_ops int "demo_log []"] by blast
  from u [rule_format, of "''u''"] have
    "rows (pg_view s') ''u'' = Some (ready_row ''u'' (sized_image 120) (new_row ''u'' ''m2''))"
    "s3_objects ob' ''avatars'' (original_key ''u'') = Some [120, 100]"
    unfolding l by (simp_all add: two_uploads(3) demo_client_def sized_image_def del: pg_view_simps)
  with r show ?thesis by (intro exI conjI) (auto simp: new_row_def sized_image_def simp del: pg_view_simps)
qed

end
