(* ===== verification/Spec2Isabelle.thy ===== *)
theory Spec2Isabelle
  imports Startup Ordering Storage_Equivalence
begin

text \<open>
  A verification development for the avatar service: an HTTP API that stages uploaded images in S3 and
  enqueues them, and a worker that takes them from RabbitMQ, resizes them and marks them ready in
  PostgreSQL. This theory imports all others and holds no definition of its own.

  \<^bold>\<open>The parts of the program and their theories.\<close>
  \<^item> \<open>Prelude\<close>: strings, errors as values, int64, the functions of Go's standard library that the code calls.
  \<^item> \<open>Models\<close> (\<open>internal/models/avatar.go\<close>): the record \<open>avatar\<close> and the status constants.
  \<^item> \<open>Breaker\<close> (\<open>internal/resilience/breaker.go\<close>): the circuit breaker, alone and with concurrent callers.
  \<^item> \<open>Storage\<close>, \<open>Mem_Storage\<close>, \<open>Postgres\<close>, \<open>Storage_Equivalence\<close> (\<open>internal/storage\<close>, \<open>migrations\<close>): the interface
    \<open>storage\<close>, its abstract specification on a map of rows (\<open>db_view\<close>, \<open>spec_upsert\<close> and so on) with the locales
    \<open>storage_contract\<close> and \<open>healthy_storage\<close>, and the two implementations, each an interpretation of them.
    \<open>PostgresStorage\<close> is its SQL statements on tables with the columns of the migrations (32-bit sides, text
    that is UTF-8 without NUL, timestamps rounded to microseconds), which refuse what they cannot hold, and
    with a schedule of faults, each before or after the statement.
  \<^item> \<open>Object_Store\<close> (\<open>internal/objectstore/client.go\<close>): the S3 client over any service with the behaviour that
    the locale \<open>s3_service\<close> states, and the contract that its users rely on.
  \<^item> \<open>Processor\<close> (\<open>internal/processor/image.go\<close>): decoding, limits, resizing and encoding.
  \<^item> \<open>Amqp\<close>, \<open>Consumer\<close>, \<open>Broker\<close> (\<open>internal/queue\<close>): the topology, publishing, retries, trace headers, the consumer
    loop, \<open>Connect\<close>, and the life of a message between the queues as a step relation, with the messages that
    no queue takes, lost settlements and restarts of the broker, where RabbitMQ is the locale \<open>amqp_broker\<close>.
  \<^item> \<open>Worker\<close> (\<open>internal/worker/service.go\<close>): \<open>Handle\<close>.
  \<^item> \<open>Handler\<close>, \<open>Rate_Limit\<close>, \<open>Router\<close>, \<open>Api\<close> (\<open>internal/handler\<close>, \<open>internal/web\<close>, the middleware of
    \<open>internal/metrics/metrics.go\<close>): the HTTP handlers, the token bucket over float64, the mux with its
    percent-decoding, and the handler chain of the API.
  \<^item> \<open>Ordering\<close> (\<open>internal/queue/consumer.go\<close> with \<open>internal/worker/service.go\<close>): a run of the worker over the
    messages of several uploads.
  \<^item> \<open>Config\<close>, \<open>Options\<close> (\<open>internal/config\<close>, the first part of \<open>run\<close> of both programs): environment, file, command
    line and their order of precedence.
  \<^item> \<open>Telemetry\<close> (\<open>internal/telemetry\<close>, \<open>internal/logger\<close>): levels, the fan-out of log records, and \<open>Init\<close>.
  \<^item> \<open>Metrics\<close> (the pollers of \<open>internal/metrics\<close>): the gauges of storage and queue depth.
  \<^item> \<open>Startup\<close> (\<open>run\<close> of \<open>cmd/api/main.go\<close> and \<open>cmd/worker/main.go\<close>): both programs from the options to the exit
    code, with the resources they acquire and release.

  \<^bold>\<open>How the code is rendered.\<close> A method is a function from its arguments and the state to its result and the
  new state; a returned error is \<open>Inl\<close> or \<open>Some\<close>; \<open>int64\<close> is \<open>64 word\<close>; a Go map is a finite map, and where the
  code ranges over one the result is proved independent of the order. Records have the fields of the
  structs. Time is an integer of nanoseconds and is passed in, as are message ids. Parameters stand for
  code that is not part of the program: the AWS SDK, the AMQP client, PostgreSQL's driver, OpenTelemetry,
  \<open>encoding/json\<close>, the multipart parser, the image codecs; what is relied on is the assumption of a locale,
  and each locale is interpreted on an executable instance that can fail, on which the witnesses run.

  \<^bold>\<open>What is shown.\<close> The storages implement one abstract map on the values that PostgreSQL can store, and
  differ in timestamps, in refusing the others, in what they report for missing rows, and in the answer to a
  total that does not fit. \<open>Handle\<close> touches only what belongs to its message, and its success and its failures
  leave the row and the objects as the properties say. A message whose publishing was accepted is in one
  queue or done, and can only be lost by a restart of the broker while it waits as a retry, which the code
  publishes without persistence; a failing message gets three attempts and then lies in the dead letter
  queue, which it or its acknowledgement reaches in at most five steps where the database and the channel are
  up; a processed one is not processed again; of several messages for a user, the last one delivered
  determines the image. An upload answered with 202 is staged, recorded and enqueued, and on healthy services
  becomes a ready avatar; the other answers of the API are characterised, with the states they leave. The
  rate limit and the breaker bound what they are meant to bound. The options resolve one by one in the order
  environment, flags, file, default. However a run ends, what it opened is closed, but for a tracer provider
  where \<open>Init\<close> fails late, and exit code 0 means what it should but for a broker that goes away.
  Some properties state behaviour that is not what one may expect: an older upload that replaces a newer
  image, objects left behind by a DELETE after a new upload, a DELETE that fails half way, a limit near the
  largest int64, a number with a suffix in the environment, a provider left running, a clean exit without a
  broker, retries that do not survive a restart of it.

  \<^bold>\<open>Termination and bounds.\<close> Every function is total; there is no fuel. Products of image sides wrap as
  \<open>int\<close> does (\<open>int_mul\<close>). Loops over lists are structural, the
  trimming, scanning and flag loops have a measure. The loops that may run forever (the consumer, the
  pollers, the servers) are functions of the finite list of events they have received, with a result that
  says whether they have ended. The delays of the retry queues and the schedules of faults are arbitrary.

  \<^bold>\<open>Not modelled.\<close> Limits of PostgreSQL beyond the types of its columns, such as the size of an index entry,
  which are faults of the connection here; log lines, spans, and the histograms and counters of Prometheus other than the labels of
  the HTTP metrics; the JSON text of responses, which are kept as structured values; TLS, contexts and
  timeouts of calls, whose effect is that of a failing call; requests running in parallel, except for the
  breaker, where callers interleave; \<open>scripts/genpng\<close>, which writes a test image.
\<close>

end
